(* ===== verification/Prelude.thy ===== *)
theory Prelude
  imports Main "HOL-Library.Word" "HOL-Library.Finite_Map" "HOL-Library.Multiset"
begin

text \<open>
  Shared vocabulary of the development: the Go values the components use (fixed-width
  integers, maps, outcomes of a call, printed numbers, split strings, hexadecimal), the
  generic lemmas on them, and the locale of a state machine with an invariant.

  A Go \<^verbatim>\<open>map\<close> is a finite map (\<open>('k, 'v) fmap\<close>): \<open>fmlookup m k\<close> is the two-valued read,
  \<open>fmupd\<close> the assignment, \<open>fmdrop\<close> the \<^verbatim>\<open>delete\<close>, \<open>fcard (fmdom m)\<close> the \<^verbatim>\<open>len\<close>.
  Go's \<^verbatim>\<open>range\<close> over a map visits the keys in an unspecified order: a loop whose result
  depends on that order takes the order as an argument (a list of keys, see \<open>range_order\<close>).
\<close>

type_synonym byte = "8 word"
type_synonym u8 = "8 word"
type_synonym u16 = "16 word"
type_synonym u32 = "32 word"
type_synonym gotime = int
type_synonym labels = "(string, string) fmap"

named_theorems str_simps \<open>printing, splitting and joining strings\<close>
named_theorems hash_free \<open>facts about characters that do not occur in a printed value\<close>

subsection \<open>Outcomes of a call\<close>

text \<open>A call returns a value, returns an error (its text), or panics (the runtime's text).\<close>

datatype 'a outcome = Ret 'a | Err string | Panic string

fun is_ret :: "'a outcome \<Rightarrow> bool" where
  "is_ret (Ret _) = True"
| "is_ret (Err _) = False"
| "is_ret (Panic _) = False"

fun returned :: "'a outcome \<Rightarrow> 'a option" where
  "returned (Ret x) = Some x"
| "returned (Err _) = None"
| "returned (Panic _) = None"

text \<open>The panic of a field access through a nil pointer.\<close>

definition nil_panic :: string where
  "nil_panic = ''runtime error: invalid memory address or nil pointer dereference''"

subsection \<open>Integers\<close>

text \<open>A Go \<^verbatim>\<open>int\<close> has 64 bits: the wrap-around of a result, and the shift \<^verbatim>\<open>x << n\<close> of an
  \<^verbatim>\<open>int\<close> by a signed count, which panics on a negative count.\<close>

definition wrap64 :: "int \<Rightarrow> int" where
  "wrap64 x = (x + 2 ^ 63) mod 2 ^ 64 - 2 ^ 63"

definition shl_int :: "int \<Rightarrow> int \<Rightarrow> int outcome" where
  "shl_int x n = (if n < 0 then Panic ''runtime error: negative shift amount''
                  else if 64 \<le> n then Ret 0
                  else Ret (wrap64 (x * 2 ^ nat n)))"

subsection \<open>Maps\<close>

definition map_len :: "('k, 'v) fmap \<Rightarrow> int" where
  "map_len m = int (fcard (fmdom m))"

text \<open>The orders in which a \<^verbatim>\<open>range\<close> may visit the keys of a map.\<close>

definition range_order :: "('k, 'v) fmap \<Rightarrow> 'k list \<Rightarrow> bool" where
  "range_order m ks \<longleftrightarrow> distinct ks \<and> fset_of_list ks = fmdom m"

subsection \<open>Strings\<close>

definition digit :: "nat \<Rightarrow> char" where
  "digit n = ''0123456789abcdef'' ! n"

text \<open>The verb \<^verbatim>\<open>%d\<close> on an unsigned and on a signed number.\<close>

fun show_nat :: "nat \<Rightarrow> string" where
  "show_nat n = (if n < 10 then [digit n] else show_nat (n div 10) @ [digit (n mod 10)])"

definition show_int :: "int \<Rightarrow> string" where
  "show_int i = (if i < 0 then CHR ''-'' # show_nat (nat (- i)) else show_nat (nat i))"

text \<open>The verb \<^verbatim>\<open>%x\<close> on a number.\<close>

fun show_hex :: "nat \<Rightarrow> string" where
  "show_hex n = (if n < 16 then [digit n] else show_hex (n div 16) @ [digit (n mod 16)])"

text \<open>The verb \<^verbatim>\<open>%02x\<close> on a non-negative number: at least two digits.\<close>

definition show_hex2 :: "nat \<Rightarrow> string" where
  "show_hex2 n = (let s = show_hex n in if length s < 2 then CHR ''0'' # s else s)"

text \<open>\<^verbatim>\<open>hex.EncodeToString\<close>, and \<^verbatim>\<open>%x\<close> on a byte slice.\<close>

fun hex_bytes :: "byte list \<Rightarrow> string" where
  "hex_bytes [] = []"
| "hex_bytes (b # bs) = digit (unat b div 16) # digit (unat b mod 16) # hex_bytes bs"

definition digit_val :: "char \<Rightarrow> nat" where
  "digit_val c = of_char c - of_char CHR ''0''"

definition is_digit :: "char \<Rightarrow> bool" where
  "is_digit c \<longleftrightarrow> c \<in> set ''0123456789''"

text \<open>The value of a string of decimal digits.\<close>

definition read_nat :: "string \<Rightarrow> nat" where
  "read_nat s = foldl (\<lambda>n c. n * 10 + digit_val c) 0 s"

text \<open>\<^verbatim>\<open>strings.Split(s, sep)\<close> for a separator of one character, and its inverse.\<close>

fun split_on :: "char \<Rightarrow> string \<Rightarrow> string list" where
  "split_on c [] = [[]]"
| "split_on c (x # xs) =
     (if x = c then [] # split_on c xs
      else case split_on c xs of [] \<Rightarrow> [[x]] | y # ys \<Rightarrow> (x # y) # ys)"

fun join_on :: "char \<Rightarrow> string list \<Rightarrow> string" where
  "join_on c [] = []"
| "join_on c [x] = x"
| "join_on c (x # y # ys) = x @ c # join_on c (y # ys)"

text \<open>\<^verbatim>\<open>strings.Cut\<close> and \<^verbatim>\<open>strings.SplitN(s, sep, 2)\<close>: the parts before and after the first
  separator.\<close>

definition cut :: "char \<Rightarrow> string \<Rightarrow> (string \<times> string) option" where
  "cut c s = (if c \<in> set s
              then Some (takeWhile (\<lambda>x. x \<noteq> c) s, tl (dropWhile (\<lambda>x. x \<noteq> c) s)) else None)"

subsection \<open>Maps: lemmas\<close>

lemma map_len_empty [simp]: "map_len fmempty = 0"
  by (simp add: map_len_def)

lemma map_len_nonneg [simp]: "0 \<le> map_len m"
  by (simp add: map_len_def)

lemma map_len_upd_new: "fmlookup m k = None \<Longrightarrow> map_len (fmupd k v m) = map_len m + 1"
  by (simp add: map_len_def fmdom_notI fcard_finsert_if)

lemma map_len_upd_old: "fmlookup m k = Some w \<Longrightarrow> map_len (fmupd k v m) = map_len m"
  by (simp add: map_len_def fmdomI finsert_absorb)

lemma map_len_drop_old: "fmlookup m k = Some v \<Longrightarrow> map_len (fmdrop k m) = map_len m - 1"
proof -
  assume "fmlookup m k = Some v"
  then have k: "k |\<in>| fmdom m" by (rule fmdomI)
  then have "0 < fcard (fmdom m)" by (cases "fcard (fmdom m)") auto
  with k show ?thesis by (simp add: map_len_def fcard_fminus_fsingleton of_nat_diff Suc_leI)
qed

lemma map_len_zero_iff: "map_len m = 0 \<longleftrightarrow> m = fmempty"
  by (simp add: map_len_def fmrestrict_fset_dom fmdom_empty fcard_0_eq)
     (metis fmdom_empty fmrestrict_fset_dom fmrestrict_fset_null)

lemma range_orderD:
  "range_order m ks \<Longrightarrow> distinct ks"
  "range_order m ks \<Longrightarrow> (k \<in> set ks \<longleftrightarrow> fmlookup m k \<noteq> None)"
  by (auto simp: range_order_def fset_of_list_elem fmlookup_dom_iff
      simp flip: fset_of_list_elem)

lemma range_order_exists: "\<exists>ks. range_order m ks"
proof -
  obtain xs where "set xs = fset (fmdom m)" "distinct xs"
    using finite_distinct_list [OF finite_fset [of "fmdom m"]] by blast
  then show ?thesis
    by (intro exI [of _ xs]) (simp add: range_order_def fset_of_list_elem fset_eq_iff)
qed

lemma fmran_upd_new:
  assumes "fmlookup m k = None"
  shows "fset (fmran (fmupd k v m)) = insert v (fset (fmran m))"
proof (rule set_eqI)
  fix x
  have "(\<exists>l. fmlookup (fmupd k v m) l = Some x) \<longleftrightarrow> x = v \<or> (\<exists>l. fmlookup m l = Some x)"
    using assms by (metis fmupd_lookup option.distinct(1) option.inject)
  then show "x \<in> fset (fmran (fmupd k v m)) \<longleftrightarrow> x \<in> insert v (fset (fmran m))"
    by (simp add: fmlookup_ran_iff)
qed

lemma fmap_eqI: "(\<And>k. fmlookup m k = fmlookup n k) \<Longrightarrow> m = n"
  by (rule fmap_ext)

subsection \<open>Strings: lemmas\<close>

lemma distinct_digits: "distinct ''0123456789abcdef''"
  by simp

lemma digit_inj: "i < 16 \<Longrightarrow> j < 16 \<Longrightarrow> digit i = digit j \<longleftrightarrow> i = j"
  unfolding digit_def by (rule nth_eq_iff_index_eq [OF distinct_digits]) simp_all

lemma digit_hex_mem: "i < 16 \<Longrightarrow> digit i \<in> set ''0123456789abcdef''"
  unfolding digit_def by (rule nth_mem) simp

lemma digit_dec: "i < 10 \<Longrightarrow> is_digit (digit i) \<and> digit_val (digit i) = i"
proof -
  have "\<forall>i \<in> set [0..<10]. is_digit (digit i) \<and> digit_val (digit i) = i"
    by code_simp
  moreover assume "i < 10"
  ultimately show ?thesis by auto
qed

declare show_nat.simps [simp del] show_hex.simps [simp del]

lemma show_nat_digits: "c \<in> set (show_nat n) \<Longrightarrow> is_digit c"
proof (induction n rule: show_nat.induct)
  case (1 n)
  then show ?case
    by (cases "n < 10") (auto simp: show_nat.simps [of n] digit_dec)
qed

lemma show_nat_nonempty [simp]: "show_nat n \<noteq> []"
  by (subst show_nat.simps) simp

lemma read_nat_snoc: "read_nat (s @ [c]) = read_nat s * 10 + digit_val c"
  by (simp add: read_nat_def)

lemma read_show_nat [simp]: "read_nat (show_nat n) = n"
proof (induction n rule: show_nat.induct)
  case (1 n)
  show ?case
  proof (cases "n < 10")
    case True
    then show ?thesis by (simp add: show_nat.simps [of n] read_nat_def digit_dec)
  next
    case False
    with 1 show ?thesis
      by (simp add: show_nat.simps [of n] read_nat_snoc digit_dec)
  qed
qed

lemma show_nat_inj [simp]: "show_nat m = show_nat n \<longleftrightarrow> m = n"
  by (metis read_show_nat)

lemma not_digit_not_in_show_nat: "\<not> is_digit c \<Longrightarrow> c \<notin> set (show_nat n)"
  using show_nat_digits by blast

lemma show_nat_free [hash_free]:
  "CHR ''-'' \<notin> set (show_nat n)" "CHR ''.'' \<notin> set (show_nat n)"
  "CHR ''/'' \<notin> set (show_nat n)" "CHR '':'' \<notin> set (show_nat n)"
  by (simp_all add: not_digit_not_in_show_nat is_digit_def)

lemma show_nat_no_leading_zero:
  "10 \<le> n \<Longrightarrow> hd (show_nat n) \<noteq> CHR ''0''"
proof (induction n rule: show_nat.induct)
  case (1 n)
  then show ?case
  proof (cases "n div 10 < 10")
    case True
    with 1 have "0 < n div 10" by simp
    with True 1 show ?thesis
      using digit_inj [of "n div 10" 0]
      by (simp add: show_nat.simps [of n] show_nat.simps [of "n div 10"]) (simp add: digit_def)
  next
    case False
    with 1 show ?thesis by (simp add: show_nat.simps [of n])
  qed
qed

lemma hex_bytes_inj: "hex_bytes xs = hex_bytes ys \<longleftrightarrow> xs = ys"
proof (induction xs arbitrary: ys)
  case Nil
  show ?case by (cases ys) auto
next
  case (Cons x xs)
  show ?case
  proof (cases ys)
    case Nil
    then show ?thesis by simp
  next
    case (Cons y zs)
    have b: "unat (z::byte) div 16 < 16" for z using unsigned_less [of z, where ?'a = nat] by simp
    have "unat x div 16 = unat y div 16 \<Longrightarrow> unat x mod 16 = unat y mod 16 \<Longrightarrow> x = y"
      by (metis div_mult_mod_eq word_unat_eq_iff)
    with Cons.IH show ?thesis by (auto simp: Cons digit_inj b)
  qed
qed

lemma length_hex_bytes [simp]: "length (hex_bytes bs) = 2 * length bs"
  by (induction bs rule: hex_bytes.induct) auto

lemma split_on_nonempty [simp]: "split_on c s \<noteq> []"
  by (induction s) (auto split: list.splits)

lemma split_on_free: "c \<notin> set s \<Longrightarrow> split_on c s = [s]"
  by (induction s) auto

lemma split_on_app: "c \<notin> set s \<Longrightarrow> split_on c (s @ c # t) = s # split_on c t"
  by (induction s) auto

lemma split_on_join [str_simps]:
  "xs \<noteq> [] \<Longrightarrow> \<forall>x \<in> set xs. c \<notin> set x \<Longrightarrow> split_on c (join_on c xs) = xs"
  by (induction c xs rule: join_on.induct) (auto simp: split_on_free split_on_app)

lemma split_on_parts_free: "p \<in> set (split_on c s) \<Longrightarrow> c \<notin> set p"
  by (induction s arbitrary: p) (auto split: list.splits if_splits)

lemma split_on_parts_sub: "p \<in> set (split_on c s) \<Longrightarrow> set p \<subseteq> set s"
  by (induction s arbitrary: p) (fastforce split: list.splits if_splits)+

lemma cut_app: "c \<notin> set a \<Longrightarrow> cut c (a @ c # b) = Some (a, b)"
  by (induction a) (auto simp: cut_def)

lemma cut_none: "cut c s = None \<longleftrightarrow> c \<notin> set s"
  by (simp add: cut_def)

lemma append_sep_eq:
  "(c::char) \<notin> set a \<Longrightarrow> c \<notin> set a' \<Longrightarrow> a @ c # b = a' @ c # b' \<longleftrightarrow> a = a' \<and> b = b'"
proof
  assume c: "c \<notin> set a" "c \<notin> set a'" and "a @ c # b = a' @ c # b'"
  then have "cut c (a @ c # b) = cut c (a' @ c # b')" by simp
  with c show "a = a' \<and> b = b'" by (simp add: cut_app)
qed simp

subsection \<open>State machines\<close>

text \<open>
  Several components are an initial state and a set of operations that all keep one
  invariant. The locale states that contract once; its lemma lifts it to every finite
  sequence of operations. Each component interprets it on its own operations.
\<close>

locale machine =
  fixes step :: "'s \<Rightarrow> 'e \<Rightarrow> 's"
    and inv :: "'s \<Rightarrow> bool"
  assumes step_inv: "inv s \<Longrightarrow> inv (step s e)"
begin

lemma run_inv: "inv s \<Longrightarrow> inv (foldl step s es)"
  by (induction es arbitrary: s) (auto intro: step_inv)

lemma run_snoc_inv: "inv s \<Longrightarrow> inv (step (foldl step s es) e)"
  by (blast intro: step_inv run_inv)

end

end
