(* ===== verification/GoNet.thy ===== *)
theory GoNet
  imports Prelude
begin

text \<open>
  The part of Go's \<^verbatim>\<open>net\<close> package the program calls: addresses as byte slices
  (\<^verbatim>\<open>net.IP\<close>: 4 or 16 bytes, the nil slice is \<open>[]\<close>), masks, networks, their parsing and
  their printing; and the program's own conversion between an address and a \<^verbatim>\<open>uint32\<close>
  (\<^verbatim>\<open>src/pkg/ipam/ipam.go\<close>, \<open>ipToUint32\<close> and \<open>uint32ToIP\<close>; \<^verbatim>\<open>nextIP\<close> of the node agent).
  The lemmas show that the conversions are inverse to each other, that a printed IPv4
  address parses back to the same address, and what a parsed network looks like.
\<close>

unbundle bit_operations_syntax

type_synonym ip = "byte list"

record IPNet =
  net_ip :: ip
  net_mask :: "byte list"

subsection \<open>Addresses\<close>

definition v4InV6Prefix :: "byte list" where
  "v4InV6Prefix = [0, 0, 0, 0, 0, 0, 0, 0, 0, 0, 255, 255]"

definition IPv4 :: "byte \<Rightarrow> byte \<Rightarrow> byte \<Rightarrow> byte \<Rightarrow> ip" where
  "IPv4 a b c d = v4InV6Prefix @ [a, b, c, d]"

definition To4 :: "ip \<Rightarrow> ip" where
  "To4 p = (if length p = 4 then p
            else if length p = 16 \<and> take 12 p = v4InV6Prefix then drop 12 p
            else [])"

definition IP_Equal :: "ip \<Rightarrow> ip \<Rightarrow> bool" where
  "IP_Equal p x =
     (if length p = length x then p = x
      else if length p = 4 \<and> length x = 16 then take 12 x = v4InV6Prefix \<and> p = drop 12 x
      else if length p = 16 \<and> length x = 4 then take 12 p = v4InV6Prefix \<and> drop 12 p = x
      else False)"

text \<open>Big-endian bytes of an IPv4 address as a 32-bit number. \<open>ipToUint32\<close> yields 0 when the
  address has no IPv4 form.\<close>

fun be32 :: "byte list \<Rightarrow> u32" where
  "be32 [a, b, c, d] =
     push_bit 24 (ucast a) OR push_bit 16 (ucast b) OR push_bit 8 (ucast c) OR ucast d"
| "be32 _ = 0"

definition ipToUint32 :: "ip \<Rightarrow> u32" where
  "ipToUint32 p = (let p4 = To4 p in if p4 = [] then 0 else be32 p4)"

definition uint32ToIP :: "u32 \<Rightarrow> ip" where
  "uint32ToIP v = IPv4 (ucast (drop_bit 24 v)) (ucast (drop_bit 16 v)) (ucast (drop_bit 8 v)) (ucast v)"

definition nextIP :: "ip \<Rightarrow> ip" where
  "nextIP p = (let i = To4 p in if i = [] then p else uint32ToIP (be32 i + 1))"

subsection \<open>Masks and networks\<close>

definition mask_byte :: "nat \<Rightarrow> byte" where
  "mask_byte n = NOT (drop_bit n 255)"

fun mask_bytes :: "nat \<Rightarrow> nat \<Rightarrow> byte list" where
  "mask_bytes 0 n = []"
| "mask_bytes (Suc l) n =
     (if 8 \<le> n then 255 # mask_bytes l (n - 8) else mask_byte n # mask_bytes l 0)"

definition CIDRMask :: "int \<Rightarrow> int \<Rightarrow> byte list" where
  "CIDRMask ones bits =
     (if bits \<noteq> 32 \<and> bits \<noteq> 128 then []
      else if ones < 0 \<or> bits < ones then []
      else mask_bytes (nat bits div 8) (nat ones))"

text \<open>\<^verbatim>\<open>simpleMaskLength\<close>: the number of leading ones, \<open>None\<close> for a mask that is not ones followed
  by zeros; \<^verbatim>\<open>Size\<close> of a mask.\<close>

fun lead_ones :: "nat \<Rightarrow> byte \<Rightarrow> nat" where
  "lead_ones 0 v = 0"
| "lead_ones (Suc k) v = (if bit v k then Suc (lead_ones k v) else 0)"

fun simpleMaskLength :: "byte list \<Rightarrow> nat option" where
  "simpleMaskLength [] = Some 0"
| "simpleMaskLength (v # vs) =
     (if v = 255 then map_option (\<lambda>n. n + 8) (simpleMaskLength vs)
      else let n = lead_ones 8 v in
           if v = mask_byte n \<and> list_all (\<lambda>b. b = 0) vs then Some n else None)"

definition Mask_Size :: "byte list \<Rightarrow> int \<times> int" where
  "Mask_Size m = (case simpleMaskLength m of
                    None \<Rightarrow> (0, 0) | Some n \<Rightarrow> (int n, int (length m) * 8))"

definition IP_Mask :: "ip \<Rightarrow> byte list \<Rightarrow> ip" where
  "IP_Mask p m =
     (let m' = (if length m = 16 \<and> length p = 4 \<and> list_all (\<lambda>b. b = 255) (take 12 m)
                then drop 12 m else m);
          p' = (if length m' = 4 \<and> length p = 16 \<and> take 12 p = v4InV6Prefix
                then drop 12 p else p)
      in if length p' = length m' then map2 (\<lambda>a b. a AND b) p' m' else [])"

subsection \<open>Parsing\<close>

text \<open>A field of a dotted quad: one to three digits, no leading zero, at most 255.\<close>

definition parse_octet :: "string \<Rightarrow> byte option" where
  "parse_octet s =
     (if s \<noteq> [] \<and> list_all is_digit s \<and> (length s = 1 \<or> hd s \<noteq> CHR ''0'') \<and> read_nat s \<le> 255
      then Some (of_nat (read_nat s)) else None)"

definition parseIPv4 :: "string \<Rightarrow> byte list option" where
  "parseIPv4 s =
     (case map parse_octet (split_on CHR ''.'' s) of
        [Some a, Some b, Some c, Some d] \<Rightarrow> Some [a, b, c, d]
      | _ \<Rightarrow> None)"

definition hex_digit_val :: "char \<Rightarrow> nat option" where
  "hex_digit_val c =
     (if c \<in> set ''0123456789'' then Some (of_char c - of_char CHR ''0'')
      else if c \<in> set ''abcdef'' then Some (of_char c - of_char CHR ''a'' + 10)
      else if c \<in> set ''ABCDEF'' then Some (of_char c - of_char CHR ''A'' + 10)
      else None)"

definition read_hex :: "string \<Rightarrow> nat" where
  "read_hex s = foldl (\<lambda>n c. n * 16 + the (hex_digit_val c)) 0 s"

text \<open>The loop of \<^verbatim>\<open>netip.parseIPv6\<close> over the colon-separated groups: the bytes written so far,
  the place of the ellipsis and the rest of the text.\<close>

fun parse6_loop :: "nat \<Rightarrow> byte list \<Rightarrow> nat option \<Rightarrow> string \<Rightarrow> (byte list \<times> nat option \<times> string) option"
where
  "parse6_loop 0 acc ell s = Some (acc, ell, s)"
| "parse6_loop (Suc n) acc ell s =
     (let ds = takeWhile (\<lambda>c. hex_digit_val c \<noteq> None) s;
          rest = drop (length ds) s
      in if ds = [] \<or> 4 < length ds then None
         else if rest \<noteq> [] \<and> hd rest = CHR ''.'' then
           (if (ell = None \<and> length acc \<noteq> 12) \<or> 16 < length acc + 4 then None
            else map_option (\<lambda>b. (acc @ b, ell, [])) (parseIPv4 s))
         else let acc' = acc @ [of_nat (read_hex ds div 256), of_nat (read_hex ds mod 256)] in
           (case rest of
              [] \<Rightarrow> Some (acc', ell, [])
            | c # r \<Rightarrow>
                if c \<noteq> CHR '':'' \<or> r = [] then None
                else if hd r = CHR '':'' then
                  (if ell \<noteq> None then None
                   else if tl r = [] then Some (acc', Some (length acc'), [])
                   else parse6_loop n acc' (Some (length acc')) (tl r))
                else parse6_loop n acc' ell r))"

definition parse6_finish :: "byte list \<times> nat option \<times> string \<Rightarrow> byte list option" where
  "parse6_finish r = (case r of (acc, ell, s) \<Rightarrow>
     if s \<noteq> [] then None
     else if length acc < 16 then
       (case ell of None \<Rightarrow> None
        | Some e \<Rightarrow> Some (take e acc @ replicate (16 - length acc) 0 @ drop e acc))
     else if ell \<noteq> None then None else Some acc)"

definition parseIPv6 :: "string \<Rightarrow> byte list option" where
  "parseIPv6 s =
     (if take 2 s = ''::'' then
        (if drop 2 s = [] then Some (replicate 16 0)
         else Option.bind (parse6_loop 8 [] (Some 0) (drop 2 s)) parse6_finish)
      else Option.bind (parse6_loop 8 [] None s) parse6_finish)"

text \<open>\<^verbatim>\<open>netip.ParseAddr\<close> without zones (a network with a zone is refused by \<^verbatim>\<open>ParseCIDR\<close>): the
  first of the characters \<^verbatim>\<open>. : %\<close> decides the family. The result has 4 or 16 bytes.\<close>

definition parse_addr :: "string \<Rightarrow> byte list option" where
  "parse_addr s =
     (if CHR ''%'' \<in> set s then None
      else case dropWhile (\<lambda>c. c \<noteq> CHR ''.'' \<and> c \<noteq> CHR '':'') s of
             [] \<Rightarrow> None
           | c # _ \<Rightarrow> if c = CHR ''.'' then parseIPv4 s else parseIPv6 s)"

definition ParseCIDR :: "string \<Rightarrow> IPNet outcome" where
  "ParseCIDR s =
     (let bad = Err (''invalid CIDR address: '' @ s) in
      case cut CHR ''/'' s of
        None \<Rightarrow> bad
      | Some (addr, msk) \<Rightarrow>
          (case parse_addr addr of
             None \<Rightarrow> bad
           | Some bs \<Rightarrow>
               let bits = 8 * length bs;
                   addr16 = (if length bs = 4 then v4InV6Prefix @ bs else bs)
               in if msk = [] \<or> \<not> list_all is_digit msk \<or> bits < read_nat msk then bad
                  else let m = CIDRMask (int (read_nat msk)) (int bits)
                       in Ret \<lparr>net_ip = IP_Mask addr16 m, net_mask = m\<rparr>))"

subsection \<open>Printing\<close>

definition dotted :: "byte list \<Rightarrow> string" where
  "dotted bs = join_on CHR ''.'' (map (\<lambda>b. show_nat (unat b)) bs)"

fun groups :: "byte list \<Rightarrow> nat list" where
  "groups (a # b # r) = (unat a * 256 + unat b) # groups r"
| "groups _ = []"

text \<open>The longest run of at least two zero groups, the first one of that length.\<close>

definition zero_run :: "nat list \<Rightarrow> (nat \<times> nat) option" where
  "zero_run gs =
     foldl (\<lambda>best i. let l = length (takeWhile (\<lambda>g. g = 0) (drop i gs)) in
              if 2 \<le> l \<and> (case best of None \<Rightarrow> True | Some (_, k) \<Rightarrow> k < l)
              then Some (i, l) else best)
       None [0..<length gs]"

definition string6 :: "byte list \<Rightarrow> string" where
  "string6 bs =
     (let gs = groups bs; colon = join_on CHR '':'' in
      case zero_run gs of
        None \<Rightarrow> colon (map show_hex gs)
      | Some (i, l) \<Rightarrow>
          colon (map show_hex (take i gs)) @ ''::'' @ colon (map show_hex (drop (i + l) gs)))"

definition IP_String :: "ip \<Rightarrow> string" where
  "IP_String p =
     (if p = [] then ''<nil>''
      else if length p \<noteq> 4 \<and> length p \<noteq> 16 then CHR ''?'' # hex_bytes p
      else let p4 = To4 p in if p4 \<noteq> [] then dotted p4 else string6 p)"

definition IPNet_String :: "IPNet \<Rightarrow> string" where
  "IPNet_String n =
     (let p4 = To4 (net_ip n);
          nn = (if p4 = [] then net_ip n else p4);
          m = net_mask n;
          m' = (if length m = 16 \<and> length nn = 4 then drop 12 m else m)
      in if (length nn \<noteq> 4 \<and> length nn \<noteq> 16) \<or> (length m \<noteq> 4 \<and> length m \<noteq> 16)
            \<or> (length m = 4 \<and> length nn \<noteq> 4) then ''<nil>''
         else case simpleMaskLength m' of
                None \<Rightarrow> IP_String nn @ CHR ''/'' # hex_bytes m'
              | Some l \<Rightarrow> IP_String nn @ CHR ''/'' # show_nat l)"

subsection \<open>Conversions between addresses and numbers\<close>

lemma length_v4InV6Prefix [simp]: "length v4InV6Prefix = 12"
  by (simp add: v4InV6Prefix_def)

lemma To4_IPv4 [simp]: "To4 (IPv4 a b c d) = [a, b, c, d]"
  by (simp add: To4_def IPv4_def)

lemma length_IPv4 [simp]: "length (IPv4 a b c d) = 16"
  by (simp add: IPv4_def)

lemma IPv4_inj [simp]: "IPv4 a b c d = IPv4 a' b' c' d' \<longleftrightarrow> a = a' \<and> b = b' \<and> c = c' \<and> d = d'"
  by (simp add: IPv4_def)

lemma length_uint32ToIP [simp]: "length (uint32ToIP v) = 16"
  by (simp add: uint32ToIP_def)

lemma To4_length4: "length p = 4 \<Longrightarrow> To4 p = p"
  by (simp add: To4_def)

lemma length_To4: "length (To4 p) = 0 \<or> length (To4 p) = 4"
  by (simp add: To4_def)

lemma be32_bytes [simp]:
  "be32 [ucast (drop_bit 24 v), ucast (drop_bit 16 v), ucast (drop_bit 8 v), ucast v] = v"
proof (rule bit_word_eqI)
  fix n assume "n < LENGTH(32)"
  then have "n < 8 \<or> 8 \<le> n \<and> n < 16 \<or> 16 \<le> n \<and> n < 24 \<or> 24 \<le> n \<and> n < 32" by auto
  then show "bit (be32 [ucast (drop_bit 24 v), ucast (drop_bit 16 v), ucast (drop_bit 8 v), ucast v]) n
      = bit v n"
    by (elim disjE) (auto simp: bit_simps)
qed

lemma bytes_be32:
  "ucast (drop_bit 24 (be32 [a, b, c, d])) = a" "ucast (drop_bit 16 (be32 [a, b, c, d])) = b"
  "ucast (drop_bit 8 (be32 [a, b, c, d])) = c" "ucast (be32 [a, b, c, d]) = d"
  by (rule bit_word_eqI, auto simp: bit_simps dest: bit_imp_le_length)+

lemma ipToUint32_uint32ToIP [simp]: "ipToUint32 (uint32ToIP v) = v"
  by (simp add: ipToUint32_def uint32ToIP_def Let_def del: be32.simps)

lemma To4_uint32ToIP:
  "To4 (uint32ToIP v) = [ucast (drop_bit 24 v), ucast (drop_bit 16 v), ucast (drop_bit 8 v), ucast v]"
  by (simp add: uint32ToIP_def)

lemma uint32ToIP_inj [simp]: "uint32ToIP v = uint32ToIP w \<longleftrightarrow> v = w"
  by (metis ipToUint32_uint32ToIP)

lemma uint32ToIP_not_nil [simp]: "uint32ToIP v \<noteq> []"
  by (metis length_uint32ToIP list.size(3) zero_neq_numeral)

lemma IP_Equal_uint32ToIP [simp]: "IP_Equal (uint32ToIP v) (uint32ToIP w) \<longleftrightarrow> v = w"
  by (simp add: IP_Equal_def)

lemma list4E:
  assumes "length xs = 4"
  obtains a b c d where "xs = [a, b, c, d]"
  using assms by (auto simp: numeral_eq_Suc length_Suc_conv)

lemma be32_inj: "length xs = 4 \<Longrightarrow> length ys = 4 \<Longrightarrow> be32 xs = be32 ys \<longleftrightarrow> xs = ys"
  by (elim list4E) (metis bytes_be32)

lemma ipToUint32_length4: "length p = 4 \<Longrightarrow> ipToUint32 p = be32 p"
  by (auto simp: ipToUint32_def To4_length4 Let_def)

lemma nextIP_v4: "length p = 4 \<Longrightarrow> nextIP p = uint32ToIP (ipToUint32 p + 1)"
  by (auto simp: nextIP_def ipToUint32_def To4_length4 Let_def)

subsection \<open>Printed addresses\<close>

lemma parse_octet_show [simp]: "parse_octet (show_nat (unat b)) = Some b"
proof -
  have "unat b \<le> 255" using unsigned_less [of b, where ?'a = nat] by simp
  moreover have "list_all is_digit (show_nat (unat b))"
    by (auto simp: list_all_iff dest: show_nat_digits)
  moreover have "length (show_nat n) = 1 \<or> hd (show_nat n) \<noteq> CHR ''0''" for n
    using show_nat_no_leading_zero [of n] by (cases "n < 10") (simp_all add: show_nat.simps [of n])
  ultimately show ?thesis by (simp add: parse_octet_def)
qed

lemma parseIPv4_dotted: "length bs = 4 \<Longrightarrow> parseIPv4 (dotted bs) = Some bs"
proof (elim list4E)
  fix a b c d assume bs: "bs = [a, b, c, d]"
  have "split_on CHR ''.'' (dotted bs) = map (\<lambda>b. show_nat (unat b)) bs"
    unfolding dotted_def by (rule split_on_join) (auto simp: bs hash_free)
  then show ?thesis by (simp add: parseIPv4_def bs)
qed

lemma dotted_inj: "length xs = 4 \<Longrightarrow> length ys = 4 \<Longrightarrow> dotted xs = dotted ys \<longleftrightarrow> xs = ys"
  by (metis option.inject parseIPv4_dotted)

lemma IP_String_v4: "To4 p \<noteq> [] \<Longrightarrow> IP_String p = dotted (To4 p)"
  by (auto simp: IP_String_def To4_def split: if_splits)

lemma IP_String_inj_v4:
  assumes "To4 p \<noteq> []" and "To4 q \<noteq> []"
  shows "IP_String p = IP_String q \<longleftrightarrow> To4 p = To4 q"
proof -
  from assms have "length (To4 p) = 4" "length (To4 q) = 4"
    using length_To4 [of p] length_To4 [of q] by auto
  with assms show ?thesis by (simp add: IP_String_v4 dotted_inj)
qed

lemma IP_String_uint32ToIP_inj [simp]:
  "IP_String (uint32ToIP v) = IP_String (uint32ToIP w) \<longleftrightarrow> v = w"
proof -
  have "To4 (uint32ToIP v) = To4 (uint32ToIP w) \<longleftrightarrow> v = w"
    by (metis To4_uint32ToIP be32_bytes)
  then show ?thesis by (subst IP_String_inj_v4) (simp_all add: To4_uint32ToIP)
qed

subsection \<open>Masks\<close>

lemma mask_byte_facts:
  assumes "n < 8"
  shows "mask_byte n \<noteq> 255" "lead_ones 8 (mask_byte n) = n"
proof -
  have "\<forall>n \<in> set [0..<8]. mask_byte n \<noteq> 255 \<and> lead_ones 8 (mask_byte n) = n"
    by code_simp
  with assms show "mask_byte n \<noteq> 255" "lead_ones 8 (mask_byte n) = n" by auto
qed

lemma mask_byte_0 [simp]: "mask_byte 0 = 0"
  by code_simp

lemma mask_bytes_0 [simp]: "mask_bytes l 0 = replicate l 0"
  by (induction l) auto

lemma length_mask_bytes [simp]: "length (mask_bytes l n) = l"
  by (induction l arbitrary: n) auto

lemma simpleMaskLength_mask_bytes: "n \<le> 8 * l \<Longrightarrow> simpleMaskLength (mask_bytes l n) = Some n"
proof (induction l arbitrary: n)
  case 0
  then show ?case by simp
next
  case (Suc l)
  show ?case
  proof (cases "8 \<le> n")
    case True
    with Suc.prems Suc.IH [of "n - 8"] show ?thesis by simp
  next
    case False
    then show ?thesis
      by (simp add: mask_byte_facts Let_def list_all_iff del: lead_ones.simps)
  qed
qed

lemma Mask_Size_CIDRMask:
  assumes "bits = 32 \<or> bits = 128" and "0 \<le> n" and "n \<le> bits"
  shows "Mask_Size (CIDRMask n bits) = (n, bits)"
proof -
  have "nat n \<le> 8 * (nat bits div 8)" using assms by auto
  then show ?thesis
    using assms by (auto simp: Mask_Size_def CIDRMask_def simpleMaskLength_mask_bytes)
qed

lemma be32_mask_bytes: "n \<le> 32 \<Longrightarrow> be32 (mask_bytes 4 n) = NOT (Bit_Operations.mask (32 - n))"
proof -
  have "\<forall>n \<in> set [0..<33]. be32 (mask_bytes 4 n) = NOT (Bit_Operations.mask (32 - n))"
    by code_simp
  moreover assume "n \<le> 32"
  ultimately show ?thesis by auto
qed

lemma be32_map2_and:
  "length xs = 4 \<Longrightarrow> length ys = 4 \<Longrightarrow> be32 (map2 (\<lambda>a b. a AND b) xs ys) = be32 xs AND be32 ys"
proof (elim list4E)
  fix a b c d a' b' c' d' assume e: "xs = [a, b, c, d]" "ys = [a', b', c', d']"
  show ?thesis
  proof (rule bit_word_eqI)
    fix n assume "n < LENGTH(32)"
    then have "n < 8 \<or> 8 \<le> n \<and> n < 16 \<or> 16 \<le> n \<and> n < 24 \<or> 24 \<le> n \<and> n < 32" by auto
    then show "bit (be32 (map2 (\<lambda>a b. a AND b) xs ys)) n = bit (be32 xs AND be32 ys) n"
      by (elim disjE) (auto simp: e bit_simps dest: bit_imp_le_length)
  qed
qed

text \<open>A parsed IPv4 network: prefix length, mask, and a base address that is a multiple of the
  block size.\<close>

definition wf_net4 :: "IPNet \<Rightarrow> nat \<Rightarrow> bool" where
  "wf_net4 n p \<longleftrightarrow> p \<le> 32 \<and> length (net_ip n) = 4 \<and> net_mask n = mask_bytes 4 p
     \<and> 2 ^ (32 - p) dvd unat (ipToUint32 (net_ip n))"

text \<open>The numbers of the addresses of an IPv4 network.\<close>

definition net_range :: "IPNet \<Rightarrow> nat set" where
  "net_range n = (case Mask_Size (net_mask n) of (ones, bits) \<Rightarrow>
     {unat (ipToUint32 (net_ip n)) ..< unat (ipToUint32 (net_ip n)) + 2 ^ nat (bits - ones)})"

lemma wf_net4_size: "wf_net4 n p \<Longrightarrow> Mask_Size (net_mask n) = (int p, 32)"
  by (simp add: wf_net4_def Mask_Size_def simpleMaskLength_mask_bytes)

lemma wf_net4_range:
  "wf_net4 n p \<Longrightarrow> net_range n =
     {unat (ipToUint32 (net_ip n)) ..< unat (ipToUint32 (net_ip n)) + 2 ^ (32 - p)}"
proof -
  assume n: "wf_net4 n p"
  then have "p \<le> 32" by (simp add: wf_net4_def)
  then show ?thesis by (simp add: net_range_def wf_net4_size [OF n] nat_diff_distrib')
qed

lemma dvd_unat_and_not_mask: "2 ^ k dvd unat (x AND NOT (Bit_Operations.mask k) :: 'a::len word)"
proof -
  have "take_bit k (x AND NOT (Bit_Operations.mask k)) = 0"
    by (rule bit_word_eqI) (auto simp: bit_simps)
  then have "take_bit k (unat (x AND NOT (Bit_Operations.mask k))) = 0"
    by (metis unsigned_0 unsigned_take_bit_eq)
  then show ?thesis by (simp add: take_bit_eq_mod mod_eq_0_iff_dvd)
qed

lemma wf_net4_bound:
  assumes "wf_net4 n p"
  shows "unat (ipToUint32 (net_ip n)) + 2 ^ (32 - p) \<le> 2 ^ 32"
proof -
  let ?b = "unat (ipToUint32 (net_ip n))" and ?k = "32 - p"
  from assms have p: "p \<le> 32" and d: "2 ^ ?k dvd ?b" by (auto simp: wf_net4_def)
  then obtain q where q: "?b = 2 ^ ?k * q" by (auto elim: dvdE)
  have split: "(2::nat) ^ 32 = 2 ^ ?k * 2 ^ p" using p by (simp flip: power_add)
  have "?b < 2 ^ 32" using unsigned_less [of "ipToUint32 (net_ip n)", where ?'a = nat] by simp
  then have "q < 2 ^ p" using q split by (metis nat_mult_less_cancel_disj)
  then have "2 ^ ?k * (q + 1) \<le> 2 ^ ?k * 2 ^ p" by (intro mult_le_mono2) simp
  then show ?thesis unfolding q split by (simp add: algebra_simps)
qed

lemma ParseCIDR_v4:
  assumes "ParseCIDR s = Ret n" and "length (net_mask n) = 4"
  shows "\<exists>p. wf_net4 n p"
proof -
  from assms(1) obtain addr m where c: "cut CHR ''/'' s = Some (addr, m)"
    by (auto simp: ParseCIDR_def Let_def split: option.splits)
  with assms(1) obtain bs where bs: "parse_addr addr = Some bs"
    by (auto simp: ParseCIDR_def Let_def split: option.splits)
  have le: "read_nat m \<le> 8 * length bs"
    using assms(1) by (simp add: ParseCIDR_def c bs Let_def not_less split: if_splits)
  have n: "n = \<lparr>net_ip = IP_Mask (if length bs = 4 then v4InV6Prefix @ bs else bs)
                    (CIDRMask (int (read_nat m)) (int (8 * length bs))),
                net_mask = CIDRMask (int (read_nat m)) (int (8 * length bs))\<rparr>"
    using assms(1) by (simp add: ParseCIDR_def c bs Let_def del: of_nat_mult split: if_splits)
  from assms(2) n have l: "length bs = 4"
    by (auto simp: CIDRMask_def split: if_splits)
  let ?p = "read_nat m"
  from l le have p: "?p \<le> 32" by simp
  have mask: "net_mask n = mask_bytes 4 ?p" using n l p by (simp add: CIDRMask_def)
  have ip: "net_ip n = map2 (\<lambda>a b. a AND b) bs (mask_bytes 4 ?p)"
    using n l p by (simp add: CIDRMask_def IP_Mask_def Let_def)
  have "ipToUint32 (net_ip n) = be32 bs AND NOT (Bit_Operations.mask (32 - ?p))"
    using l p by (simp add: ip ipToUint32_length4 be32_map2_and be32_mask_bytes)
  then have "wf_net4 n ?p"
    using p mask ip l by (simp add: wf_net4_def dvd_unat_and_not_mask)
  then show ?thesis ..
qed

end
