(* ===== verification/Ipam.thy ===== *)
theory Ipam
  imports Complex_Main GoNet
begin

text \<open>
  The node-local address allocator, \<^verbatim>\<open>src/pkg/ipam/ipam.go\<close>: its record, the loop that finds
  the first free bit, and every operation of the type. Time stamps are arguments; a
  \<^verbatim>\<open>range\<close> whose order shows in the result (\<open>Reconcile\<close>) takes the order as an argument;
  every index into the bitmap that Go would check is a branch that panics.

  The lemmas give the representation invariant and its preservation by every operation,
  the refinement of a least-free-offset allocator on a finite map, and what follows for
  the pods: unique addresses inside the block, no leaked bit, failure only when the block
  is full, and an exact reconciliation.
\<close>

subsection \<open>State\<close>

record allocRecord =
  rec_IP :: ip
  rec_PodName :: string
  rec_PodNamespace :: string
  rec_AllocatedAt :: gotime

record NodeAllocator =
  na_PodCIDR :: IPNet
  na_bitmap :: "bool list"
  na_allocated :: "(string, allocRecord) fmap"
  na_baseIP :: ip
  na_blockSize :: int

subsection \<open>Operations\<close>

text \<open>\<^verbatim>\<open>make([]bool, size)\<close> panics on a negative length and above the runtime's allocation limit.\<close>

definition NewNodeAllocator :: "string \<Rightarrow> NodeAllocator outcome" where
  "NewNodeAllocator podCIDR =
     (case ParseCIDR podCIDR of
        Panic e \<Rightarrow> Panic e
      | Err e \<Rightarrow> Err (''invalid pod CIDR: '' @ e)
      | Ret ipnet \<Rightarrow>
          (case Mask_Size (net_mask ipnet) of (ones, bits) \<Rightarrow>
             (case shl_int 1 (bits - ones) of
                Panic e \<Rightarrow> Panic e
              | Err e \<Rightarrow> Err e
              | Ret sz \<Rightarrow>
                  if sz < 0 \<or> 2 ^ 48 < sz
                  then Panic ''runtime error: makeslice: len out of range''
                  else Ret \<lparr>na_PodCIDR = ipnet, na_bitmap = replicate (nat sz) False,
                            na_allocated = fmempty, na_baseIP = net_ip ipnet,
                            na_blockSize = sz\<rparr>)))"

definition pod_key :: "string \<Rightarrow> string \<Rightarrow> string" where
  "pod_key podName podNamespace = podName @ CHR ''/'' # podNamespace"

definition index_panic :: string where
  "index_panic = ''runtime error: index out of range''"

text \<open>The search loop of \<open>Allocate\<close>, from index \<open>i\<close> on.\<close>

function find_free :: "bool list \<Rightarrow> int \<Rightarrow> int \<Rightarrow> int option outcome" where
  "find_free bm sz i =
     (if i < sz then
        (if i = 0 \<or> i = sz - 1 then find_free bm sz (i + 1)
         else if int (length bm) \<le> i then Panic index_panic
         else if \<not> bm ! nat i then Ret (Some i)
         else find_free bm sz (i + 1))
      else Ret None)"
  by pat_completeness auto
termination
  by (relation "measure (\<lambda>(bm, sz, i). nat (sz - i))") auto

definition Allocate :: "gotime \<Rightarrow> NodeAllocator \<Rightarrow> string \<Rightarrow> string \<Rightarrow> NodeAllocator \<times> ip outcome" where
  "Allocate now a podName podNamespace =
     (let key = pod_key podName podNamespace in
      case fmlookup (na_allocated a) key of
        Some record \<Rightarrow> (a, Ret (rec_IP record))
      | None \<Rightarrow>
          (case find_free (na_bitmap a) (na_blockSize a) 0 of
             Ret (Some i) \<Rightarrow>
               let ip = uint32ToIP (ipToUint32 (na_baseIP a) + word_of_int i) in
               (a\<lparr>na_bitmap := (na_bitmap a)[nat i := True],
                  na_allocated := fmupd key
                    \<lparr>rec_IP = ip, rec_PodName = podName, rec_PodNamespace = podNamespace,
                     rec_AllocatedAt = now\<rparr> (na_allocated a)\<rparr>, Ret ip)
           | Ret None \<Rightarrow> (a, Err (''no available IPs in block '' @ IPNet_String (na_PodCIDR a)))
           | Err e \<Rightarrow> (a, Err e)
           | Panic e \<Rightarrow> (a, Panic e)))"

text \<open>Clearing the bit of an address, the common part of \<open>Release\<close> and \<open>Reconcile\<close>; the offset is
  a difference of \<^verbatim>\<open>uint32\<close> values and never negative.\<close>

definition clear_bit :: "NodeAllocator \<Rightarrow> ip \<Rightarrow> bool list outcome" where
  "clear_bit a ip =
     (let offset = uint (ipToUint32 ip - ipToUint32 (na_baseIP a)) in
      if 0 \<le> offset \<and> offset < na_blockSize a then
        (if int (length (na_bitmap a)) \<le> offset then Panic index_panic
         else Ret ((na_bitmap a)[nat offset := False]))
      else Ret (na_bitmap a))"

definition Release :: "NodeAllocator \<Rightarrow> string \<Rightarrow> string \<Rightarrow> NodeAllocator \<times> unit outcome" where
  "Release a podName podNamespace =
     (let key = pod_key podName podNamespace in
      case fmlookup (na_allocated a) key of
        None \<Rightarrow> (a, Ret ())
      | Some record \<Rightarrow>
          (case clear_bit a (rec_IP record) of
             Ret bm \<Rightarrow> (a\<lparr>na_bitmap := bm, na_allocated := fmdrop key (na_allocated a)\<rparr>, Ret ())
           | Err e \<Rightarrow> (a, Err e)
           | Panic e \<Rightarrow> (a, Panic e)))"

definition IsAllocated :: "NodeAllocator \<Rightarrow> ip \<Rightarrow> bool" where
  "IsAllocated a ip \<longleftrightarrow> fBex (fmran (na_allocated a)) (\<lambda>record. IP_Equal (rec_IP record) ip)"

definition GetAllocatedIPs :: "NodeAllocator \<Rightarrow> (string, ip) fmap" where
  "GetAllocatedIPs a = fmmap rec_IP (na_allocated a)"

fun reconcile_loop ::
  "(string, bool) fmap \<Rightarrow> string list \<Rightarrow> NodeAllocator \<Rightarrow> ip list \<Rightarrow> NodeAllocator \<times> ip list outcome"
where
  "reconcile_loop activePods [] a released = (a, Ret released)"
| "reconcile_loop activePods (key # keys) a released =
     (case fmlookup (na_allocated a) key of
        None \<Rightarrow> reconcile_loop activePods keys a released
      | Some record \<Rightarrow>
          if fmlookup activePods key = Some True then reconcile_loop activePods keys a released
          else case clear_bit a (rec_IP record) of
                 Ret bm \<Rightarrow>
                   reconcile_loop activePods keys
                     (a\<lparr>na_bitmap := bm, na_allocated := fmdrop key (na_allocated a)\<rparr>)
                     (released @ [rec_IP record])
               | Err e \<Rightarrow> (a, Err e)
               | Panic e \<Rightarrow> (a, Panic e))"

definition Reconcile ::
  "string list \<Rightarrow> NodeAllocator \<Rightarrow> (string, bool) fmap \<Rightarrow> NodeAllocator \<times> ip list outcome" where
  "Reconcile order a activePods = reconcile_loop activePods order a []"

text \<open>The quotient of two \<^verbatim>\<open>float64\<close> values is the exact rational here; rounding is monotone and
  keeps 0 and 1, so the bounds below carry over.\<close>

definition Utilization :: "NodeAllocator \<Rightarrow> rat" where
  "Utilization a =
     (if na_blockSize a \<le> 2 then 1
      else of_int (map_len (na_allocated a)) / of_int (na_blockSize a - 2))"

definition Available :: "NodeAllocator \<Rightarrow> int" where
  "Available a = int (length (filter (\<lambda>i. \<not> na_bitmap a ! i) [1..<nat (na_blockSize a - 1)]))"

text \<open>The operations as the steps of one machine.\<close>

datatype ipam_op =
    OpAllocate gotime string string
  | OpRelease string string
  | OpReconcile "string list" "(string, bool) fmap"

fun ipam_step :: "NodeAllocator \<Rightarrow> ipam_op \<Rightarrow> NodeAllocator" where
  "ipam_step a (OpAllocate now p n) = fst (Allocate now a p n)"
| "ipam_step a (OpRelease p n) = fst (Release a p n)"
| "ipam_step a (OpReconcile ks act) = fst (Reconcile ks a act)"

subsection \<open>Specification: offsets owned by keys\<close>

definition offset_of :: "NodeAllocator \<Rightarrow> ip \<Rightarrow> nat" where
  "offset_of a ip = unat (ipToUint32 ip - ipToUint32 (na_baseIP a))"

definition abs_alloc :: "NodeAllocator \<Rightarrow> (string, nat) fmap" where
  "abs_alloc a = fmmap (\<lambda>r. offset_of a (rec_IP r)) (na_allocated a)"

definition spec_allocate :: "nat \<Rightarrow> (string, nat) fmap \<Rightarrow> string \<Rightarrow> (string, nat) fmap \<times> nat option" where
  "spec_allocate sz m key =
     (case fmlookup m key of
        Some i \<Rightarrow> (m, Some i)
      | None \<Rightarrow>
          (case find (\<lambda>i. i |\<notin>| fmran m) [1..<sz - 1] of
             Some i \<Rightarrow> (fmupd key i m, Some i)
           | None \<Rightarrow> (m, None)))"

definition ip_at :: "NodeAllocator \<Rightarrow> nat \<Rightarrow> ip" where
  "ip_at a i = uint32ToIP (ipToUint32 (na_baseIP a) + of_nat i)"

text \<open>The invariant: the bitmap has the size of the block; every record's address is the one of
  an offset strictly between network and broadcast address; two keys never share an offset;
  a bit is set exactly when a key owns its offset.\<close>

definition alloc_inv :: "NodeAllocator \<Rightarrow> bool" where
  "alloc_inv a \<longleftrightarrow>
     int (length (na_bitmap a)) = na_blockSize a \<and> na_blockSize a \<le> 2 ^ 32 \<and>
     (\<forall>k r. fmlookup (na_allocated a) k = Some r \<longrightarrow>
        k = pod_key (rec_PodName r) (rec_PodNamespace r) \<and>
        rec_IP r = ip_at a (offset_of a (rec_IP r)) \<and>
        1 \<le> offset_of a (rec_IP r) \<and> offset_of a (rec_IP r) < length (na_bitmap a) - 1) \<and>
     (\<forall>k k' i. fmlookup (abs_alloc a) k = Some i \<longrightarrow> fmlookup (abs_alloc a) k' = Some i \<longrightarrow> k = k') \<and>
     (\<forall>i < length (na_bitmap a). na_bitmap a ! i \<longleftrightarrow> (\<exists>k. fmlookup (abs_alloc a) k = Some i))"

text \<open>The state after giving offset \<open>i\<close> to a pod, and after taking a key's offset back.\<close>

definition alloc_new :: "gotime \<Rightarrow> NodeAllocator \<Rightarrow> string \<Rightarrow> string \<Rightarrow> nat \<Rightarrow> NodeAllocator" where
  "alloc_new now a p n i =
     a\<lparr>na_bitmap := (na_bitmap a)[i := True],
       na_allocated := fmupd (pod_key p n)
         \<lparr>rec_IP = ip_at a i, rec_PodName = p, rec_PodNamespace = n, rec_AllocatedAt = now\<rparr>
         (na_allocated a)\<rparr>"

definition free_key :: "NodeAllocator \<Rightarrow> string \<Rightarrow> allocRecord \<Rightarrow> NodeAllocator" where
  "free_key a key r =
     a\<lparr>na_bitmap := (na_bitmap a)[offset_of a (rec_IP r) := False],
       na_allocated := fmdrop key (na_allocated a)\<rparr>"

subsection \<open>The search loop\<close>

declare find_free.simps [simp del]

lemma find_free_eq:
  "int (length bm) = sz \<Longrightarrow> 0 \<le> i \<Longrightarrow>
   find_free bm sz i = Ret (map_option int (find (\<lambda>k. \<not> bm ! k) [max 1 (nat i)..<nat (sz - 1)]))"
proof (induction bm sz i rule: find_free.induct)
  case (1 bm sz i)
  consider "\<not> i < sz" | "i < sz" "i = 0" | "i < sz" "i \<noteq> 0" "i = sz - 1"
    | "i < sz" "i \<noteq> 0" "i \<noteq> sz - 1" by blast
  then show ?case
  proof cases
    case 4
    with "1.prems" have "[max 1 (nat i)..<nat (sz - 1)] = nat i # [max 1 (nat (i + 1))..<nat (sz - 1)]"
      by (simp add: upt_conv_Cons max_def nat_add_distrib)
    with 4 1 show ?thesis by (simp add: find_free.simps [of bm sz i])
  next
    case 3
    then have "find_free bm sz (i + 1) = Ret None" by (subst find_free.simps) simp
    with 3 1 show ?thesis by (subst find_free.simps) simp
  next
    case 2
    with 1 show ?thesis by (subst find_free.simps) simp
  next
    case 1
    then show ?thesis by (subst find_free.simps) simp
  qed
qed

lemma find_free_start:
  "alloc_inv a \<Longrightarrow> find_free (na_bitmap a) (na_blockSize a) 0 =
     Ret (map_option int (find (\<lambda>k. \<not> na_bitmap a ! k) [1..<length (na_bitmap a) - 1]))"
proof -
  assume "alloc_inv a"
  then have l: "int (length (na_bitmap a)) = na_blockSize a" by (simp add: alloc_inv_def)
  then have "nat (na_blockSize a - 1) = length (na_bitmap a) - 1" by linarith
  with l show ?thesis by (simp add: find_free_eq)
qed

subsection \<open>The invariant\<close>

lemma alloc_invD:
  assumes "alloc_inv a"
  shows "int (length (na_bitmap a)) = na_blockSize a" "length (na_bitmap a) \<le> 2 ^ 32"
  using assms unfolding alloc_inv_def by simp_all

lemma alloc_inv_record:
  assumes "alloc_inv a" and "fmlookup (na_allocated a) k = Some r"
  shows "k = pod_key (rec_PodName r) (rec_PodNamespace r)"
    "rec_IP r = ip_at a (offset_of a (rec_IP r))"
    "1 \<le> offset_of a (rec_IP r)" "offset_of a (rec_IP r) < length (na_bitmap a) - 1"
  using assms unfolding alloc_inv_def by blast+

lemma alloc_inv_unique:
  "alloc_inv a \<Longrightarrow> fmlookup (abs_alloc a) k = Some i \<Longrightarrow> fmlookup (abs_alloc a) k' = Some i \<Longrightarrow> k = k'"
  unfolding alloc_inv_def by blast

lemma alloc_inv_bit:
  "alloc_inv a \<Longrightarrow> i < length (na_bitmap a) \<Longrightarrow>
   na_bitmap a ! i \<longleftrightarrow> (\<exists>k. fmlookup (abs_alloc a) k = Some i)"
  unfolding alloc_inv_def by blast

lemma lookup_abs_alloc:
  "fmlookup (abs_alloc a) k = map_option (\<lambda>r. offset_of a (rec_IP r)) (fmlookup (na_allocated a) k)"
  by (simp add: abs_alloc_def)

lemma offset_of_ip_at: "i < 2 ^ 32 \<Longrightarrow> offset_of a (ip_at a i) = i"
  by (simp add: offset_of_def ip_at_def unsigned_of_nat take_bit_nat_eq_self)

lemma ip_at_inj: "i < 2 ^ 32 \<Longrightarrow> j < 2 ^ 32 \<Longrightarrow> ip_at a i = ip_at a j \<longleftrightarrow> i = j"
  by (metis offset_of_ip_at)

lemma base_cong [simp]:
  "offset_of (a\<lparr>na_bitmap := b\<rparr>) = offset_of a" "offset_of (a\<lparr>na_allocated := m\<rparr>) = offset_of a"
  "ip_at (a\<lparr>na_bitmap := b\<rparr>) = ip_at a" "ip_at (a\<lparr>na_allocated := m\<rparr>) = ip_at a"
  by (simp_all add: offset_of_def ip_at_def fun_eq_iff)

lemma abs_alloc_new:
  "i < 2 ^ 32 \<Longrightarrow> abs_alloc (alloc_new now a p n i) = fmupd (pod_key p n) i (abs_alloc a)"
  by (rule fmap_ext) (simp add: lookup_abs_alloc alloc_new_def offset_of_ip_at)

lemma abs_free_key: "abs_alloc (free_key a k r) = fmdrop k (abs_alloc a)"
  by (rule fmap_ext) (simp add: lookup_abs_alloc free_key_def)

lemma alloc_new_inv:
  assumes inv: "alloc_inv a" and key: "fmlookup (na_allocated a) (pod_key p n) = None"
    and i: "1 \<le> i" "i < length (na_bitmap a) - 1" "\<not> na_bitmap a ! i"
  shows "alloc_inv (alloc_new now a p n i)"
proof -
  note D = alloc_invD [OF inv] alloc_inv_record [OF inv]
  have i32: "i < 2 ^ 32" using i D(2) by linarith
  have fresh: "fmlookup (abs_alloc a) k \<noteq> Some i" for k
    using alloc_inv_bit [OF inv, of i] i by auto
  have off: "offset_of (alloc_new now a p n i) = offset_of a" "ip_at (alloc_new now a p n i) = ip_at a"
    "na_blockSize (alloc_new now a p n i) = na_blockSize a"
    by (simp_all add: alloc_new_def)
  have uniq: "\<forall>k k' j. fmlookup (abs_alloc (alloc_new now a p n i)) k = Some j \<longrightarrow>
      fmlookup (abs_alloc (alloc_new now a p n i)) k' = Some j \<longrightarrow> k = k'"
    using fresh alloc_inv_unique [OF inv] by (simp add: abs_alloc_new [OF i32])
  have bits: "na_bitmap (alloc_new now a p n i) ! j \<longleftrightarrow>
      (\<exists>k. fmlookup (abs_alloc (alloc_new now a p n i)) k = Some j)"
    if "j < length (na_bitmap (alloc_new now a p n i))" for j
  proof (cases "j = i")
    case True
    with that show ?thesis
      unfolding abs_alloc_new [OF i32] by (auto simp: alloc_new_def intro: exI [of _ "pod_key p n"])
  next
    case False
    have "fmlookup (abs_alloc a) (pod_key p n) = None" by (simp add: lookup_abs_alloc key)
    then have "(\<exists>k. fmlookup (fmupd (pod_key p n) i (abs_alloc a)) k = Some j)
        \<longleftrightarrow> (\<exists>k. fmlookup (abs_alloc a) k = Some j)"
      using False by (metis fmupd_lookup option.distinct(1) option.inject)
    with that False alloc_inv_bit [OF inv, of j] show ?thesis
      unfolding abs_alloc_new [OF i32] by (simp add: alloc_new_def)
  qed
  have recs: "\<forall>k r. fmlookup (na_allocated (alloc_new now a p n i)) k = Some r \<longrightarrow>
      k = pod_key (rec_PodName r) (rec_PodNamespace r) \<and>
      rec_IP r = ip_at a (offset_of a (rec_IP r)) \<and>
      1 \<le> offset_of a (rec_IP r) \<and>
      offset_of a (rec_IP r) < length (na_bitmap (alloc_new now a p n i)) - 1"
    using D(3-6) i by (auto simp: alloc_new_def offset_of_ip_at [OF i32])
  have len: "length (na_bitmap (alloc_new now a p n i)) = length (na_bitmap a)"
    by (simp add: alloc_new_def)
  show ?thesis
    unfolding alloc_inv_def off
    using D(1,2) recs uniq bits len by auto
qed

lemma free_key_inv:
  assumes inv: "alloc_inv a" and key: "fmlookup (na_allocated a) k = Some r"
  shows "alloc_inv (free_key a k r)"
proof -
  note D = alloc_invD [OF inv] alloc_inv_record [OF inv]
  let ?i = "offset_of a (rec_IP r)"
  have own: "fmlookup (abs_alloc a) k = Some ?i" by (simp add: lookup_abs_alloc key)
  have off: "offset_of (free_key a k r) = offset_of a" "ip_at (free_key a k r) = ip_at a"
    "na_blockSize (free_key a k r) = na_blockSize a"
    by (simp_all add: free_key_def)
  have len: "length (na_bitmap (free_key a k r)) = length (na_bitmap a)"
    by (simp add: free_key_def)
  have uniq: "\<forall>l l' j. fmlookup (abs_alloc (free_key a k r)) l = Some j \<longrightarrow>
      fmlookup (abs_alloc (free_key a k r)) l' = Some j \<longrightarrow> l = l'"
    using alloc_inv_unique [OF inv] by (simp add: abs_free_key)
  have bits: "na_bitmap (free_key a k r) ! j \<longleftrightarrow> (\<exists>l. fmlookup (abs_alloc (free_key a k r)) l = Some j)"
    if "j < length (na_bitmap (free_key a k r))" for j
  proof (cases "j = ?i")
    case True
    have "\<not> (\<exists>l. fmlookup (fmdrop k (abs_alloc a)) l = Some j)"
      using alloc_inv_unique [OF inv own] True by (metis fmlookup_drop option.distinct(1))
    with that True show ?thesis
      unfolding abs_free_key by (simp add: free_key_def)
  next
    case False
    with own have "fmlookup (abs_alloc a) k \<noteq> Some j" by simp
    with that False alloc_inv_bit [OF inv, of j] show ?thesis
      unfolding abs_free_key by (auto simp: free_key_def)
  qed
  have recs: "\<forall>l q. fmlookup (na_allocated (free_key a k r)) l = Some q \<longrightarrow>
      l = pod_key (rec_PodName q) (rec_PodNamespace q) \<and>
      rec_IP q = ip_at a (offset_of a (rec_IP q)) \<and>
      1 \<le> offset_of a (rec_IP q) \<and> offset_of a (rec_IP q) < length (na_bitmap (free_key a k r)) - 1"
  proof (intro allI impI)
    fix l q assume "fmlookup (na_allocated (free_key a k r)) l = Some q"
    then have "fmlookup (na_allocated a) l = Some q" by (simp add: free_key_def split: if_splits)
    note D(3-6) [OF this]
    then show "l = pod_key (rec_PodName q) (rec_PodNamespace q) \<and>
      rec_IP q = ip_at a (offset_of a (rec_IP q)) \<and>
      1 \<le> offset_of a (rec_IP q) \<and> offset_of a (rec_IP q) < length (na_bitmap (free_key a k r)) - 1"
      unfolding len by blast
  qed
  show ?thesis
    unfolding alloc_inv_def off
    using D(1,2) recs uniq bits len by auto
qed

subsection \<open>The operations under the invariant\<close>

lemma free_key_sel:
  "na_allocated (free_key a k r) = fmdrop k (na_allocated a)"
  "na_PodCIDR (free_key a k r) = na_PodCIDR a" "na_baseIP (free_key a k r) = na_baseIP a"
  "na_blockSize (free_key a k r) = na_blockSize a"
  by (simp_all add: free_key_def)

lemma find_interval:
  "find P [m..<n] = Some i \<Longrightarrow> m \<le> i \<and> i < n \<and> P i"
  by (auto simp: find_Some_iff)

lemma Allocate_cases [consumes 1, case_names old new full]:
  assumes inv: "alloc_inv a"
  obtains r where "fmlookup (na_allocated a) (pod_key p n) = Some r"
      "Allocate now a p n = (a, Ret (rec_IP r))"
  | i where "fmlookup (na_allocated a) (pod_key p n) = None"
      "find (\<lambda>k. \<not> na_bitmap a ! k) [1..<length (na_bitmap a) - 1] = Some i"
      "1 \<le> i" "i < length (na_bitmap a) - 1" "\<not> na_bitmap a ! i"
      "Allocate now a p n = (alloc_new now a p n i, Ret (ip_at a i))"
  | "fmlookup (na_allocated a) (pod_key p n) = None"
      "find (\<lambda>k. \<not> na_bitmap a ! k) [1..<length (na_bitmap a) - 1] = None"
      "Allocate now a p n = (a, Err (''no available IPs in block '' @ IPNet_String (na_PodCIDR a)))"
proof (cases "fmlookup (na_allocated a) (pod_key p n)")
  case (Some r)
  then show ?thesis using that(1) by (simp add: Allocate_def Let_def)
next
  case None
  note free = find_free_start [OF inv]
  show ?thesis
  proof (cases "find (\<lambda>k. \<not> na_bitmap a ! k) [1..<length (na_bitmap a) - 1]")
    case N: None
    with None free show ?thesis using that(3) by (simp add: Allocate_def Let_def)
  next
    case (Some i)
    with None free show ?thesis
      using that(2) [OF None Some] find_interval [OF Some]
      by (simp add: Allocate_def Let_def alloc_new_def ip_at_def)
  qed
qed

lemma clear_bit_eq:
  assumes inv: "alloc_inv a" and key: "fmlookup (na_allocated a) k = Some r"
  shows "clear_bit a (rec_IP r) = Ret ((na_bitmap a)[offset_of a (rec_IP r) := False])"
proof -
  have "int (offset_of a (rec_IP r)) < int (length (na_bitmap a))"
    using alloc_inv_record(4) [OF inv key] by linarith
  moreover have "uint (ipToUint32 (rec_IP r) - ipToUint32 (na_baseIP a)) = int (offset_of a (rec_IP r))"
    by (simp add: offset_of_def)
  ultimately show ?thesis
    using alloc_invD(1) [OF inv] by (simp add: clear_bit_def Let_def)
qed

lemma Release_cases [consumes 1, case_names absent held]:
  assumes "alloc_inv a"
  obtains "fmlookup (na_allocated a) (pod_key p n) = None" "Release a p n = (a, Ret ())"
  | r where "fmlookup (na_allocated a) (pod_key p n) = Some r"
      "Release a p n = (free_key a (pod_key p n) r, Ret ())"
proof (cases "fmlookup (na_allocated a) (pod_key p n)")
  case None
  then show ?thesis using that(1) by (simp add: Release_def Let_def)
next
  case (Some r)
  then show ?thesis
    using that(2) clear_bit_eq [OF assms Some] by (simp add: Release_def Let_def free_key_def)
qed

lemma Allocate_inv: "alloc_inv a \<Longrightarrow> alloc_inv (fst (Allocate now a p n))"
  by (rule Allocate_cases [of a p n now]) (auto intro: alloc_new_inv)

lemma Release_inv: "alloc_inv a \<Longrightarrow> alloc_inv (fst (Release a p n))"
  by (rule Release_cases [of a p n]) (auto intro: free_key_inv)

lemma Allocate_no_panic: "alloc_inv a \<Longrightarrow> snd (Allocate now a p n) \<noteq> Panic e"
  by (rule Allocate_cases [of a p n now]) auto

lemma GetAllocatedIPs_alloc_new:
  "GetAllocatedIPs (alloc_new now a p n i) = fmupd (pod_key p n) (ip_at a i) (GetAllocatedIPs a)"
  by (rule fmap_ext) (simp add: GetAllocatedIPs_def alloc_new_def)

lemma GetAllocatedIPs_free_key: "GetAllocatedIPs (free_key a k r) = fmdrop k (GetAllocatedIPs a)"
  by (rule fmap_ext) (simp add: GetAllocatedIPs_def free_key_def)

lemma lookup_GetAllocatedIPs:
  "fmlookup (GetAllocatedIPs a) k = map_option rec_IP (fmlookup (na_allocated a) k)"
  by (simp add: GetAllocatedIPs_def)

lemma held_unique:
  assumes inv: "alloc_inv a"
    and k: "fmlookup (GetAllocatedIPs a) k = Some ip" "fmlookup (GetAllocatedIPs a) k' = Some ip"
  shows "k = k'"
  using alloc_inv_unique [OF inv, of k "offset_of a ip" k'] k
  by (auto simp: lookup_abs_alloc lookup_GetAllocatedIPs)

lemma reconcile_loop_spec:
  assumes "alloc_inv a"
  shows "\<exists>b rel. reconcile_loop act ks a released = (b, Ret (released @ rel)) \<and> alloc_inv b \<and>
     na_PodCIDR b = na_PodCIDR a \<and> na_baseIP b = na_baseIP a \<and> na_blockSize b = na_blockSize a \<and>
     na_allocated b = fmfilter (\<lambda>k. k \<notin> set ks \<or> fmlookup act k = Some True) (na_allocated a) \<and>
     set rel = {rec_IP r |k r. k \<in> set ks \<and> fmlookup act k \<noteq> Some True \<and>
                  fmlookup (na_allocated a) k = Some r}"
  using assms
proof (induction ks arbitrary: a released)
  case Nil
  then show ?case by (auto intro: fmap_ext)
next
  case (Cons k ks)
  show ?case
  proof (cases "\<exists>r. fmlookup (na_allocated a) k = Some r \<and> fmlookup act k \<noteq> Some True")
    case False
    then have "reconcile_loop act (k # ks) a released = reconcile_loop act ks a released"
      by (auto split: option.splits)
    with Cons.IH [OF Cons.prems, of released] False show ?thesis
      by (auto intro!: fmap_ext) blast+
  next
    case True
    then obtain r where r: "fmlookup (na_allocated a) k = Some r" "fmlookup act k \<noteq> Some True"
      by blast
    from clear_bit_eq [OF Cons.prems r(1)] r
    have step: "reconcile_loop act (k # ks) a released =
        reconcile_loop act ks (free_key a k r) (released @ [rec_IP r])"
      by (simp add: free_key_def)
    from Cons.IH [OF free_key_inv [OF Cons.prems r(1)], of "released @ [rec_IP r]"]
    obtain b rel where b: "reconcile_loop act ks (free_key a k r) (released @ [rec_IP r]) =
          (b, Ret ((released @ [rec_IP r]) @ rel))" "alloc_inv b"
      and same: "na_PodCIDR b = na_PodCIDR a" "na_baseIP b = na_baseIP a" "na_blockSize b = na_blockSize a"
      and al: "na_allocated b = fmfilter (\<lambda>k. k \<notin> set ks \<or> fmlookup act k = Some True)
          (fmdrop k (na_allocated a))"
      and rel: "set rel = {rec_IP r' |l r'. l \<in> set ks \<and> fmlookup act l \<noteq> Some True \<and>
                  fmlookup (fmdrop k (na_allocated a)) l = Some r'}"
      unfolding free_key_sel by blast
    have "na_allocated b = fmfilter (\<lambda>l. l \<notin> set (k # ks) \<or> fmlookup act l = Some True) (na_allocated a)"
      unfolding al by (rule fmap_ext) (auto simp: r(2))
    moreover have "set (rec_IP r # rel) = {rec_IP r' |l r'. l \<in> set (k # ks) \<and>
        fmlookup act l \<noteq> Some True \<and> fmlookup (na_allocated a) l = Some r'}"
      using r by (auto simp: rel split: if_splits)
    ultimately show ?thesis
      using b same step by (intro exI [of _ b] exI [of _ "rec_IP r # rel"]) simp
  qed
qed

subsection \<open>A new allocator\<close>

lemma NewNodeAllocator_Ret:
  assumes "NewNodeAllocator s = Ret a"
  shows "ParseCIDR s = Ret (na_PodCIDR a)" "na_baseIP a = net_ip (na_PodCIDR a)"
    "na_allocated a = fmempty" "na_bitmap a = replicate (nat (na_blockSize a)) False"
    "0 \<le> na_blockSize a" "\<exists>ones bits. Mask_Size (net_mask (na_PodCIDR a)) = (ones, bits) \<and>
       shl_int 1 (bits - ones) = Ret (na_blockSize a)"
  using assms
  by (auto simp: NewNodeAllocator_def split: outcome.splits prod.splits if_splits)

lemma NewNodeAllocator_inv:
  assumes "NewNodeAllocator s = Ret a" and "na_blockSize a \<le> 2 ^ 32"
  shows "alloc_inv a"
  using NewNodeAllocator_Ret [OF assms(1)] assms(2) by (simp add: alloc_inv_def abs_alloc_def)

lemma shl_int_pow: "0 \<le> n \<Longrightarrow> n \<le> 62 \<Longrightarrow> shl_int 1 n = Ret (2 ^ nat n)"
proof -
  assume n: "0 \<le> n" "n \<le> 62"
  then have "(2::int) ^ nat n \<le> 2 ^ 62" by (intro power_increasing) auto
  with n show ?thesis by (simp add: shl_int_def wrap64_def mod_pos_pos_trivial)
qed

lemma NewNodeAllocator_v4:
  assumes new: "NewNodeAllocator s = Ret a" and v4: "length (net_mask (na_PodCIDR a)) = 4"
  obtains p where "wf_net4 (na_PodCIDR a) p" "na_blockSize a = 2 ^ (32 - p)" "alloc_inv a"
proof -
  note N = NewNodeAllocator_Ret [OF new]
  from ParseCIDR_v4 [OF N(1) v4] obtain p where p: "wf_net4 (na_PodCIDR a) p" ..
  then have "p \<le> 32" by (simp add: wf_net4_def)
  with N(6) wf_net4_size [OF p] have sz: "na_blockSize a = 2 ^ (32 - p)"
    by (simp add: shl_int_pow nat_diff_distrib')
  moreover have "(2::int) ^ (32 - p) \<le> 2 ^ 32" by (intro power_increasing) auto
  ultimately show ?thesis using that p NewNodeAllocator_inv [OF new] by simp
qed

lemma ipam_step_frame:
  assumes "alloc_inv a"
  shows "na_PodCIDR (ipam_step a e) = na_PodCIDR a" "na_baseIP (ipam_step a e) = na_baseIP a"
    "na_blockSize (ipam_step a e) = na_blockSize a"
proof -
  have "na_PodCIDR (ipam_step a e) = na_PodCIDR a \<and> na_baseIP (ipam_step a e) = na_baseIP a \<and>
    na_blockSize (ipam_step a e) = na_blockSize a"
  proof (cases e)
    case (OpAllocate t p n)
    with assms show ?thesis
      by (cases rule: Allocate_cases [of a p n t]) (simp_all add: alloc_new_def)
  next
    case (OpRelease p n)
    with assms show ?thesis
      by (cases rule: Release_cases [of a p n]) (simp_all add: free_key_sel)
  next
    case (OpReconcile ks act)
    with reconcile_loop_spec [OF assms, of act ks "[]"] show ?thesis
      by (auto simp: Reconcile_def)
  qed
  then show "na_PodCIDR (ipam_step a e) = na_PodCIDR a" "na_baseIP (ipam_step a e) = na_baseIP a"
    "na_blockSize (ipam_step a e) = na_blockSize a" by blast+
qed

lemma ipam_step_inv: "alloc_inv a \<Longrightarrow> alloc_inv (ipam_step a e)"
proof (cases e)
  case (OpReconcile ks act)
  assume "alloc_inv a"
  with OpReconcile reconcile_loop_spec [of a act ks "[]"] show ?thesis by (auto simp: Reconcile_def)
qed (simp_all add: Allocate_inv Release_inv)

interpretation ipam: machine ipam_step alloc_inv
  by unfold_locales (rule ipam_step_inv)

lemma ipam_run_frame:
  "alloc_inv a \<Longrightarrow> na_PodCIDR (foldl ipam_step a ops) = na_PodCIDR a \<and>
   na_baseIP (foldl ipam_step a ops) = na_baseIP a \<and>
   na_blockSize (foldl ipam_step a ops) = na_blockSize a"
  by (induction ops arbitrary: a) (auto simp: ipam_step_frame ipam_step_inv)

subsection \<open>Counting\<close>

lemma owned_offsets:
  assumes inv: "alloc_inv a"
  shows "{i. 1 \<le> i \<and> i < length (na_bitmap a) - 1 \<and> na_bitmap a ! i} =
    (\<lambda>k. the (fmlookup (abs_alloc a) k)) ` fset (fmdom (na_allocated a))" (is "?L = ?R")
proof
  show "?L \<subseteq> ?R"
  proof
    fix i assume "i \<in> ?L"
    then have "i < length (na_bitmap a)" "na_bitmap a ! i" by auto
    then obtain k where "fmlookup (abs_alloc a) k = Some i"
      using alloc_inv_bit [OF inv, of i] by blast
    then show "i \<in> ?R"
      by (intro image_eqI [of _ _ k]) (auto simp: lookup_abs_alloc fmlookup_dom_iff)
  qed
  show "?R \<subseteq> ?L"
  proof
    fix i assume "i \<in> ?R"
    then obtain k r where r: "fmlookup (na_allocated a) k = Some r" and i: "i = offset_of a (rec_IP r)"
      by (auto simp: lookup_abs_alloc fmlookup_dom_iff)
    then have "fmlookup (abs_alloc a) k = Some i" by (simp add: lookup_abs_alloc)
    with alloc_inv_record(3,4) [OF inv r] alloc_inv_bit [OF inv, of i] i show "i \<in> ?L" by auto
  qed
qed

lemma owned_count:
  assumes inv: "alloc_inv a"
  shows "length (filter (\<lambda>i. na_bitmap a ! i) [1..<length (na_bitmap a) - 1]) =
    fcard (fmdom (na_allocated a))"
proof -
  let ?f = "\<lambda>k. the (fmlookup (abs_alloc a) k)"
  have inj: "inj_on ?f (fset (fmdom (na_allocated a)))"
  proof (rule inj_onI)
    fix x y assume "x \<in> fset (fmdom (na_allocated a))" "y \<in> fset (fmdom (na_allocated a))" "?f x = ?f y"
    then have "fmlookup (abs_alloc a) x = Some (?f x)" "fmlookup (abs_alloc a) y = Some (?f x)"
      by (auto simp: lookup_abs_alloc fmlookup_dom_iff)
    then show "x = y" by (rule alloc_inv_unique [OF inv])
  qed
  have "length (filter (\<lambda>i. na_bitmap a ! i) [1..<length (na_bitmap a) - 1]) =
      card {i. 1 \<le> i \<and> i < length (na_bitmap a) - 1 \<and> na_bitmap a ! i}"
    by (subst distinct_card [symmetric]) (auto intro: arg_cong [where f = card])
  also have "\<dots> = card (fset (fmdom (na_allocated a)))"
    unfolding owned_offsets [OF inv] by (rule card_image [OF inj])
  finally show ?thesis by (simp add: fcard.rep_eq)
qed

lemma Available_eq:
  assumes inv: "alloc_inv a" and "2 \<le> na_blockSize a"
  shows "Available a = na_blockSize a - 2 - map_len (na_allocated a)"
proof -
  let ?xs = "[1..<length (na_bitmap a) - 1]"
  have n: "nat (na_blockSize a - 1) = length (na_bitmap a) - 1"
    using alloc_invD(1) [OF inv] by linarith
  have "length (filter (\<lambda>i. na_bitmap a ! i) ?xs) + length (filter (\<lambda>i. \<not> na_bitmap a ! i) ?xs) =
      length ?xs"
    by (rule sum_length_filter_compl)
  then show ?thesis
    using assms(2) alloc_invD(1) [OF inv]
    unfolding Available_def n map_len_def owned_count [OF inv] by simp
qed

lemma full_iff:
  assumes inv: "alloc_inv a" and "2 \<le> na_blockSize a"
  shows "find (\<lambda>k. \<not> na_bitmap a ! k) [1..<length (na_bitmap a) - 1] = None \<longleftrightarrow>
    map_len (na_allocated a) = na_blockSize a - 2"
proof -
  have n: "nat (na_blockSize a - 1) = length (na_bitmap a) - 1"
    using alloc_invD(1) [OF inv] by linarith
  have "find (\<lambda>k. \<not> na_bitmap a ! k) [1..<length (na_bitmap a) - 1] = None \<longleftrightarrow> Available a = 0"
    unfolding Available_def n by (auto simp: find_None_iff filter_empty_conv)
  then show ?thesis using Available_eq [OF assms] by auto
qed

subsection \<open>The interface to the clients\<close>

text \<open>
  What the checkpoint and the node agent rely on: a pool hands out one address per key,
  keeps the addresses of different keys apart, takes a key's address back, and changes
  nothing when it refuses. The lemmas are the clients' view of one call and of a call
  that is rolled back.
\<close>

locale address_pool =
  fixes pool_inv :: "'s \<Rightarrow> bool"
    and held :: "'s \<Rightarrow> (string, ip) fmap"
    and acquire :: "gotime \<Rightarrow> 's \<Rightarrow> string \<Rightarrow> string \<Rightarrow> 's \<times> ip outcome"
    and give_back :: "'s \<Rightarrow> string \<Rightarrow> string \<Rightarrow> 's \<times> unit outcome"
  assumes acquire_inv: "pool_inv s \<Longrightarrow> pool_inv (fst (acquire t s p n))"
    and give_back_inv: "pool_inv s \<Longrightarrow> pool_inv (fst (give_back s p n))"
    and acquire_total: "pool_inv s \<Longrightarrow> snd (acquire t s p n) \<noteq> Panic e"
    and acquire_held: "pool_inv s \<Longrightarrow> acquire t s p n = (s', Ret x) \<Longrightarrow>
      held s' = fmupd (pod_key p n) x (held s)"
    and acquire_old: "pool_inv s \<Longrightarrow> fmlookup (held s) (pod_key p n) = Some x \<Longrightarrow>
      acquire t s p n = (s, Ret x)"
    and acquire_err: "pool_inv s \<Longrightarrow> acquire t s p n = (s', Err e) \<Longrightarrow>
      s' = s \<and> fmlookup (held s) (pod_key p n) = None"
    and give_back_held: "pool_inv s \<Longrightarrow> held (fst (give_back s p n)) = fmdrop (pod_key p n) (held s)"
    and give_back_total: "pool_inv s \<Longrightarrow> snd (give_back s p n) = Ret ()"
    and held_inj: "pool_inv s \<Longrightarrow> fmlookup (held s) k = Some x \<Longrightarrow> fmlookup (held s) k' = Some x \<Longrightarrow> k = k'"
begin

lemma acquire_fresh:
  assumes "pool_inv s" and "acquire t s p n = (s', Ret x)" and "k \<noteq> pod_key p n"
  shows "fmlookup (held s) k \<noteq> Some x"
proof
  assume k: "fmlookup (held s) k = Some x"
  have inv': "pool_inv s'" using acquire_inv [OF assms(1), of t p n] assms(2) by simp
  have h: "held s' = fmupd (pod_key p n) x (held s)" by (rule acquire_held [OF assms(1,2)])
  with k assms(3) have "fmlookup (held s') k = Some x" by simp
  moreover from h have "fmlookup (held s') (pod_key p n) = Some x" by simp
  ultimately have "k = pod_key p n" by (rule held_inj [OF inv'])
  with assms(3) show False by contradiction
qed

lemma rollback:
  assumes "pool_inv s" and "fmlookup (held s) (pod_key p n) = None" and "acquire t s p n = (s', Ret x)"
  shows "held (fst (give_back s' p n)) = held s"
proof -
  have "pool_inv s'" using acquire_inv [OF assms(1), of t p n] assms(3) by simp
  then have "held (fst (give_back s' p n)) = fmdrop (pod_key p n) (held s')" by (rule give_back_held)
  also have "\<dots> = held s"
    using assms(2) by (auto intro!: fmap_ext simp: acquire_held [OF assms(1,3)])
  finally show ?thesis .
qed

lemma acquire_result:
  assumes "pool_inv s"
  obtains (ok) s' x where "acquire t s p n = (s', Ret x)" "pool_inv s'"
      "held s' = fmupd (pod_key p n) x (held s)"
  | (err) e where "acquire t s p n = (s, Err e)" "fmlookup (held s) (pod_key p n) = None"
proof (cases "snd (acquire t s p n)")
  case (Ret x)
  then have "acquire t s p n = (fst (acquire t s p n), Ret x)" by (simp add: prod_eq_iff)
  then show ?thesis using ok acquire_inv [OF assms] acquire_held [OF assms] by blast
next
  case (Err e)
  then have "acquire t s p n = (fst (acquire t s p n), Err e)" by (simp add: prod_eq_iff)
  then show ?thesis using err acquire_err [OF assms] by metis
next
  case (Panic e)
  with acquire_total [OF assms] show ?thesis by blast
qed

end

interpretation pool: address_pool alloc_inv GetAllocatedIPs Allocate Release
proof
  fix a t p n
  assume inv: "alloc_inv a"
  show "alloc_inv (fst (Allocate t a p n))" using inv by (rule Allocate_inv)
  show "alloc_inv (fst (Release a p n))" using inv by (rule Release_inv)
  show "snd (Allocate t a p n) \<noteq> Panic e" for e using inv by (rule Allocate_no_panic)
  show "GetAllocatedIPs (fst (Release a p n)) = fmdrop (pod_key p n) (GetAllocatedIPs a)"
    using inv by (cases rule: Release_cases [of a p n])
      (auto intro!: fmap_ext simp: GetAllocatedIPs_free_key lookup_GetAllocatedIPs)
  show "snd (Release a p n) = Ret ()"
    using inv by (cases rule: Release_cases [of a p n]) simp_all
  show "b = a \<and> fmlookup (GetAllocatedIPs a) (pod_key p n) = None"
    if "Allocate t a p n = (b, Err e)" for b e
    using inv that by (cases rule: Allocate_cases [of a p n t]) (simp_all add: lookup_GetAllocatedIPs)
  show "GetAllocatedIPs b = fmupd (pod_key p n) x (GetAllocatedIPs a)"
    if "Allocate t a p n = (b, Ret x)" for b x
    using inv that
    by (cases rule: Allocate_cases [of a p n t])
       (auto intro!: fmap_ext simp: lookup_GetAllocatedIPs GetAllocatedIPs_alloc_new)
  show "Allocate t a p n = (a, Ret x)" if "fmlookup (GetAllocatedIPs a) (pod_key p n) = Some x" for x
    using that by (auto simp: lookup_GetAllocatedIPs Allocate_def Let_def)
next
  fix a k k' x
  assume "alloc_inv a" "fmlookup (GetAllocatedIPs a) k = Some x" "fmlookup (GetAllocatedIPs a) k' = Some x"
  then show "k = k'" by (rule held_unique)
qed

lemma held_ip_at:
  assumes inv: "alloc_inv a" and i: "i < length (na_bitmap a)"
  shows "fmlookup (GetAllocatedIPs a) k = Some (ip_at a i) \<longleftrightarrow> fmlookup (abs_alloc a) k = Some i"
proof (cases "fmlookup (na_allocated a) k")
  case (Some r)
  have "i < 2 ^ 32" using i alloc_invD(2) [OF inv] by simp
  then have "rec_IP r = ip_at a i \<longleftrightarrow> offset_of a (rec_IP r) = i"
    using alloc_inv_record(2) [OF inv Some] offset_of_ip_at [of i a] by metis
  then show ?thesis by (simp add: lookup_abs_alloc lookup_GetAllocatedIPs Some)
qed (simp add: lookup_abs_alloc lookup_GetAllocatedIPs)

subsection \<open>Properties\<close>

text \<open>A concrete allocator for the witnesses: the block \<^verbatim>\<open>10.0.0.0/29\<close> and three pods.\<close>

definition ex_alloc :: NodeAllocator where
  "ex_alloc = \<lparr>na_PodCIDR = \<lparr>net_ip = [10, 0, 0, 0], net_mask = [255, 255, 255, 248]\<rparr>,
     na_bitmap = replicate 8 False, na_allocated = fmempty, na_baseIP = [10, 0, 0, 0],
     na_blockSize = 8\<rparr>"

definition ex_ops :: "ipam_op list" where
  "ex_ops = [OpAllocate 1 ''a'' ''ns'', OpAllocate 2 ''b'' ''ns'', OpRelease ''a'' ''ns'',
             OpAllocate 3 ''c'' ''ns'']"

lemma ex_alloc_new: "NewNodeAllocator ''10.0.0.0/29'' = Ret ex_alloc"
  by code_simp

lemma ex_alloc_inv: "alloc_inv ex_alloc"
  by (rule NewNodeAllocator_inv [OF ex_alloc_new]) (simp add: ex_alloc_def)

text \<open>C2. Whatever pods come and go: after any sequence of allocations, releases and
  reconciliations on the allocator of an IPv4 block, an address held by a pod lies in the
  block, is neither its network nor its broadcast address, and no other pod holds it.\<close>

theorem pod_addresses_unique_in_block:
  assumes "NewNodeAllocator cidr = Ret a0" and "length (net_mask (na_PodCIDR a0)) = 4"
    and "fmlookup (GetAllocatedIPs (foldl ipam_step a0 ops)) k = Some x"
  shows "unat (ipToUint32 x) \<in> net_range (na_PodCIDR a0) \<and>
    unat (ipToUint32 x) \<noteq> Min (net_range (na_PodCIDR a0)) \<and>
    unat (ipToUint32 x) \<noteq> Max (net_range (na_PodCIDR a0)) \<and>
    (\<forall>k'. fmlookup (GetAllocatedIPs (foldl ipam_step a0 ops)) k' = Some x \<longrightarrow> k' = k)"
proof -
  let ?a = "foldl ipam_step a0 ops" and ?base = "unat (ipToUint32 (net_ip (na_PodCIDR a0)))"
  from NewNodeAllocator_v4 [OF assms(1,2)] obtain p where wf: "wf_net4 (na_PodCIDR a0) p"
    and sz: "na_blockSize a0 = 2 ^ (32 - p)" and inv0: "alloc_inv a0" .
  note frame = ipam_run_frame [OF inv0, of ops]
  have inv: "alloc_inv ?a" by (rule ipam.run_inv [OF inv0])
  from assms(3) obtain r where r: "fmlookup (na_allocated ?a) k = Some r" and x: "x = rec_IP r"
    by (auto simp: lookup_GetAllocatedIPs)
  define i where "i = offset_of ?a (rec_IP r)"
  have base: "na_baseIP ?a = net_ip (na_PodCIDR a0)"
    using frame NewNodeAllocator_Ret(2) [OF assms(1)] by simp
  have "int (length (na_bitmap ?a)) = int (2 ^ (32 - p))"
    using alloc_invD(1) [OF inv] frame sz by simp
  then have len: "length (na_bitmap ?a) = 2 ^ (32 - p)" by (simp only: of_nat_eq_iff)
  have i: "1 \<le> i" "i < 2 ^ (32 - p) - 1"
    using alloc_inv_record(3,4) [OF inv r] unfolding i_def len .
  have "x = ip_at ?a i" unfolding x i_def by (rule alloc_inv_record(2) [OF inv r])
  then have "ipToUint32 x = ipToUint32 (net_ip (na_PodCIDR a0)) + of_nat i"
    by (simp add: ip_at_def base)
  moreover have "?base + i < 2 ^ 32" using wf_net4_bound [OF wf] i by linarith
  ultimately have num: "unat (ipToUint32 x) = ?base + i"
    by (simp add: unat_word_ariths unsigned_of_nat take_bit_nat_eq_self)
  have range: "net_range (na_PodCIDR a0) = {?base ..< ?base + 2 ^ (32 - p)}" by (rule wf_net4_range [OF wf])
  have "Min {?base ..< ?base + 2 ^ (32 - p)} = ?base" by (intro Min_eqI) auto
  moreover have "Max {?base ..< ?base + 2 ^ (32 - p)} = ?base + 2 ^ (32 - p) - 1" by (intro Max_eqI) (use i in auto)
  ultimately have "?base + i \<in> {?base ..< ?base + 2 ^ (32 - p)} \<and>
      ?base + i \<noteq> Min {?base ..< ?base + 2 ^ (32 - p)} \<and>
      ?base + i \<noteq> Max {?base ..< ?base + 2 ^ (32 - p)}"
    using i by auto
  moreover have "\<forall>k'. fmlookup (GetAllocatedIPs ?a) k' = Some x \<longrightarrow> k' = k"
    using pool.held_inj [OF inv _ assms(3)] by blast
  ultimately show ?thesis unfolding range num by blast
qed

theorem pod_addresses_unique_in_block_witness:
  "fmlookup (GetAllocatedIPs (foldl ipam_step ex_alloc ex_ops)) ''c/ns'' = Some (uint32ToIP 167772161)
   \<and> unat (ipToUint32 (uint32ToIP 167772161)) \<in> net_range (na_PodCIDR ex_alloc)"
proof -
  have h: "fmlookup (GetAllocatedIPs (foldl ipam_step ex_alloc ex_ops)) ''c/ns'' =
      Some (uint32ToIP 167772161)"
    by code_simp
  have "length (net_mask (na_PodCIDR ex_alloc)) = 4" by (simp add: ex_alloc_def)
  from pod_addresses_unique_in_block [OF ex_alloc_new this h] h show ?thesis by blast
qed

text \<open>C16. Nothing leaks: after any sequence of operations a bit of the bitmap is set exactly when
  some pod holds that offset, so the number of available addresses is the usable size minus
  the number of pods, and the utilization is a ratio between 0 and 1.\<close>

theorem bitmap_no_leak:
  assumes "alloc_inv a0" and "2 < na_blockSize a0" and "a = foldl ipam_step a0 ops"
  shows "(\<forall>i < length (na_bitmap a).
        na_bitmap a ! i \<longleftrightarrow> (\<exists>k. fmlookup (GetAllocatedIPs a) k = Some (ip_at a i))) \<and>
    Available a = na_blockSize a0 - 2 - map_len (na_allocated a) \<and>
    0 \<le> Utilization a \<and> Utilization a \<le> 1"
proof -
  have inv: "alloc_inv a" unfolding assms(3) by (rule ipam.run_inv [OF assms(1)])
  have sz: "na_blockSize a = na_blockSize a0"
    using ipam_run_frame [OF assms(1), of ops] by (simp add: assms(3))
  have av: "Available a = na_blockSize a0 - 2 - map_len (na_allocated a)"
    using Available_eq [OF inv] assms(2) by (simp add: sz)
  have "0 \<le> Available a" by (simp add: Available_def)
  then have "(of_int (map_len (na_allocated a)) :: rat) \<le> of_int (na_blockSize a - 2)"
    unfolding of_int_le_iff using av sz by simp
  then have util: "0 \<le> Utilization a \<and> Utilization a \<le> 1"
    using assms(2) sz by (simp add: Utilization_def divide_simps)
  have "na_bitmap a ! i \<longleftrightarrow> (\<exists>k. fmlookup (GetAllocatedIPs a) k = Some (ip_at a i))"
    if i: "i < length (na_bitmap a)" for i
    using alloc_inv_bit [OF inv i] held_ip_at [OF inv i] by simp
  with av util show ?thesis by blast
qed

theorem bitmap_no_leak_witness:
  "na_bitmap (foldl ipam_step ex_alloc ex_ops) = [False, True, True, False, False, False, False, False]
   \<and> Available (foldl ipam_step ex_alloc ex_ops) = 8 - 2 - 2"
proof -
  have "2 < na_blockSize ex_alloc" by (simp add: ex_alloc_def)
  from bitmap_no_leak [OF ex_alloc_inv this refl, of ex_ops]
  have "Available (foldl ipam_step ex_alloc ex_ops) =
      na_blockSize ex_alloc - 2 - map_len (na_allocated (foldl ipam_step ex_alloc ex_ops))"
    by blast
  moreover have "map_len (na_allocated (foldl ipam_step ex_alloc ex_ops)) = 2" by code_simp
  moreover have "na_bitmap (foldl ipam_step ex_alloc ex_ops) =
      [False, True, True, False, False, False, False, False]" by code_simp
  ultimately show ?thesis by (simp add: ex_alloc_def)
qed

text \<open>C10. The bitmap search refines the abstract allocator: an allocation changes the owned offsets
  exactly as giving the pod the least offset that no pod owns (or the offset it already has),
  returns the address of that offset, and fails exactly when the abstract allocator does.\<close>

theorem Allocate_refines_least_free:
  assumes "alloc_inv a"
  shows "(abs_alloc (fst (Allocate now a p n)),
          map_option (offset_of a) (returned (snd (Allocate now a p n)))) =
         spec_allocate (length (na_bitmap a)) (abs_alloc a) (pod_key p n)"
proof -
  have bits: "find (\<lambda>k. \<not> na_bitmap a ! k) [1..<length (na_bitmap a) - 1] =
      find (\<lambda>k. k |\<notin>| fmran (abs_alloc a)) [1..<length (na_bitmap a) - 1]"
    by (rule find_cong [OF refl])
       (auto simp: alloc_inv_bit [OF assms] fmlookup_ran_iff)
  from assms show ?thesis
  proof (cases rule: Allocate_cases [of a p n now])
    case (old r)
    then show ?thesis by (simp add: spec_allocate_def lookup_abs_alloc)
  next
    case (new i)
    have "i < 2 ^ 32" using new(4) alloc_invD(2) [OF assms] by linarith
    moreover have "find (\<lambda>k. k |\<notin>| fmran (abs_alloc a)) [1..<length (na_bitmap a) - 1] = Some i"
      using new(2) unfolding bits .
    ultimately show ?thesis
      using new(1,6) by (simp add: spec_allocate_def lookup_abs_alloc abs_alloc_new offset_of_ip_at)
  next
    case full
    then have "find (\<lambda>k. k |\<notin>| fmran (abs_alloc a)) [1..<length (na_bitmap a) - 1] = None"
      unfolding bits by blast
    with full(1,3) show ?thesis by (simp add: spec_allocate_def lookup_abs_alloc)
  qed
qed

theorem Allocate_refines_least_free_witness:
  "snd (spec_allocate 8 (abs_alloc (foldl ipam_step ex_alloc ex_ops)) (pod_key ''d'' ''ns'')) = Some 3"
proof -
  let ?a = "foldl ipam_step ex_alloc ex_ops"
  have "alloc_inv ?a" by (rule ipam.run_inv [OF ex_alloc_inv])
  from Allocate_refines_least_free [OF this, of 9 "''d''" "''ns''"]
  have "snd (spec_allocate (length (na_bitmap ?a)) (abs_alloc ?a) (pod_key ''d'' ''ns'')) =
      map_option (offset_of ?a) (returned (snd (Allocate 9 ?a ''d'' ''ns'')))"
    by (metis snd_conv)
  moreover have "length (na_bitmap ?a) = 8" by code_simp
  moreover have "map_option (offset_of ?a) (returned (snd (Allocate 9 ?a ''d'' ''ns''))) = Some 3"
    by code_simp
  ultimately show ?thesis by metis
qed

text \<open>C26. An allocation never panics and is refused exactly when the pod has no address yet and
  every usable address of the block is taken; a refusal leaves the allocator as it was.\<close>

theorem Allocate_refused_iff_full:
  assumes "alloc_inv a" and "2 \<le> na_blockSize a"
  shows "(\<nexists>e. snd (Allocate now a p n) = Panic e) \<and>
    ((\<exists>e. snd (Allocate now a p n) = Err e) \<longleftrightarrow>
       fmlookup (na_allocated a) (pod_key p n) = None \<and>
       map_len (na_allocated a) = na_blockSize a - 2) \<and>
    (\<not> is_ret (snd (Allocate now a p n)) \<longrightarrow> fst (Allocate now a p n) = a)"
  using assms(1)
  by (cases rule: Allocate_cases [of a p n now]) (use full_iff [OF assms] in auto)

theorem Allocate_refused_iff_full_witness:
  "\<exists>e. snd (Allocate 9 (foldl ipam_step ex_alloc
      (map (\<lambda>p. OpAllocate 1 p ''ns'') [''a'', ''b'', ''c'', ''d'', ''e'', ''f''])) ''g'' ''ns'') = Err e"
proof -
  let ?a = "foldl ipam_step ex_alloc (map (\<lambda>p. OpAllocate 1 p ''ns'') [''a'', ''b'', ''c'', ''d'', ''e'', ''f''])"
  have inv: "alloc_inv ?a" by (rule ipam.run_inv [OF ex_alloc_inv])
  have sz: "2 \<le> na_blockSize ?a" "na_blockSize ?a - 2 = 6" by code_simp+
  have "fmlookup (na_allocated ?a) (pod_key ''g'' ''ns'') = None" by code_simp
  moreover have "map_len (na_allocated ?a) = 6" by code_simp
  ultimately show ?thesis
    using Allocate_refused_iff_full [OF inv sz(1), of 9 "''g''" "''ns''"] unfolding sz(2) by blast
qed

text \<open>C17. Reconciliation is exact, in whatever order the map is visited: afterwards the allocator
  holds precisely the records of the active pods, it reports precisely the addresses it took
  back, and it never panics.\<close>

theorem Reconcile_exact:
  assumes "alloc_inv a" and "range_order (na_allocated a) order"
  shows "\<exists>b released. Reconcile order a active = (b, Ret released) \<and> alloc_inv b \<and>
    na_allocated b = fmfilter (\<lambda>k. fmlookup active k = Some True) (na_allocated a) \<and>
    set released = {x. \<exists>k. fmlookup (GetAllocatedIPs a) k = Some x \<and> fmlookup active k \<noteq> Some True}"
proof -
  from reconcile_loop_spec [OF assms(1), of active order "[]"]
  obtain b rel where b: "Reconcile order a active = (b, Ret rel)" "alloc_inv b"
    and al: "na_allocated b =
      fmfilter (\<lambda>k. k \<notin> set order \<or> fmlookup active k = Some True) (na_allocated a)"
    and rel: "set rel = {rec_IP r |k r. k \<in> set order \<and> fmlookup active k \<noteq> Some True \<and>
                  fmlookup (na_allocated a) k = Some r}"
    by (auto simp: Reconcile_def)
  have dom: "k \<in> set order \<longleftrightarrow> fmlookup (na_allocated a) k \<noteq> None" for k
    using range_orderD(2) [OF assms(2)] .
  have "na_allocated b = fmfilter (\<lambda>k. fmlookup active k = Some True) (na_allocated a)"
    unfolding al by (rule fmap_ext) (auto simp: dom)
  moreover have "set rel =
      {x. \<exists>k. fmlookup (GetAllocatedIPs a) k = Some x \<and> fmlookup active k \<noteq> Some True}"
    unfolding rel by (auto simp: dom lookup_GetAllocatedIPs)
  ultimately show ?thesis using b by blast
qed

theorem Reconcile_exact_witness:
  "range_order (na_allocated (foldl ipam_step ex_alloc ex_ops)) [''c/ns'', ''b/ns''] \<and>
   (\<exists>b. Reconcile [''c/ns'', ''b/ns''] (foldl ipam_step ex_alloc ex_ops) (fmupd ''b/ns'' True fmempty) =
      (b, Ret [uint32ToIP 167772161]))"
proof -
  let ?a = "foldl ipam_step ex_alloc ex_ops" and ?act = "fmupd ''b/ns'' True fmempty"
  have ord: "range_order (na_allocated ?a) [''c/ns'', ''b/ns'']"
    unfolding range_order_def by code_simp
  from Reconcile_exact [OF ipam.run_inv [OF ex_alloc_inv] ord, of ?act]
  obtain b rel where "Reconcile [''c/ns'', ''b/ns''] ?a ?act = (b, Ret rel)" by blast
  moreover have "snd (Reconcile [''c/ns'', ''b/ns''] ?a ?act) = Ret [uint32ToIP 167772161]"
    by code_simp
  ultimately show ?thesis using ord by auto
qed

end
