(* ===== verification/CheckpointFile.thy ===== *)
theory CheckpointFile
  imports Ipam
begin

text \<open>
  The allocation checkpoint, \<^verbatim>\<open>src/pkg/ipam/checkpoint.go\<close>. The disk is a finite map from paths
  to contents; the outcome of each system call is an argument (\<open>None\<close> for success, otherwise
  the error text), and a failed write may leave any contents in the file it was writing.
  JSON is an argument too: \<open>marshal\<close> and \<open>unmarshal\<close>, with the hypothesis \<open>json_roundtrip\<close> where a
  property needs it. The order in which \<open>Save\<close> visits the map of allocations is an argument.

  The lemmas show that a save replaces the checkpoint atomically whatever call fails, that a
  saved checkpoint loads back with every pod's name, namespace and address, and that \<open>Restore\<close>
  hands out addresses in the order of the records, not the recorded ones.
\<close>

record CheckpointRecord =
  cr_PodName :: string
  cr_PodNamespace :: string
  cr_IP :: string
  cr_AllocatedAt :: gotime

record Checkpoint =
  cp_PodCIDR :: string
  cp_Records :: "CheckpointRecord list"
  cp_Timestamp :: gotime
  cp_Version :: int

record CheckpointManager =
  cm_path :: string

type_synonym disk = "(string, string) fmap"

definition NewCheckpointManager :: "string \<Rightarrow> CheckpointManager" where
  "NewCheckpointManager path = \<lparr>cm_path = path\<rparr>"

text \<open>\<^verbatim>\<open>strings.SplitN(key, "/", 2)\<close> and the two parts \<open>Save\<close> reads from it.\<close>

definition split_key :: "string \<Rightarrow> string \<times> string" where
  "split_key key = (case cut CHR ''/'' key of Some (a, b) \<Rightarrow> (a, b) | None \<Rightarrow> (key, []))"

definition save_records :: "gotime \<Rightarrow> string list \<Rightarrow> (string, ip) fmap \<Rightarrow> CheckpointRecord list" where
  "save_records now order allocations =
     map (\<lambda>key. case split_key key of (podName, podNamespace) \<Rightarrow>
            \<lparr>cr_PodName = podName, cr_PodNamespace = podNamespace,
             cr_IP = IP_String (case fmlookup allocations key of Some x \<Rightarrow> x | None \<Rightarrow> []),
             cr_AllocatedAt = now\<rparr>) order"

text \<open>What the system does during one \<open>Save\<close>: the error of the write with what it left in the
  temporary file, and the error of the rename.\<close>

record save_env =
  write_err :: "(string \<times> string) option"
  rename_err :: "string option"

definition Save ::
  "(Checkpoint \<Rightarrow> string outcome) \<Rightarrow> gotime \<Rightarrow> string list \<Rightarrow> save_env \<Rightarrow> CheckpointManager \<Rightarrow>
   NodeAllocator \<Rightarrow> disk \<Rightarrow> disk \<times> unit outcome" where
  "Save marshal now order env m allocator files =
     (let allocations = GetAllocatedIPs allocator;
          checkpoint = \<lparr>cp_PodCIDR = IPNet_String (na_PodCIDR allocator),
                        cp_Records = save_records now order allocations,
                        cp_Timestamp = now, cp_Version = 1\<rparr>
      in case marshal checkpoint of
           Panic e \<Rightarrow> (files, Panic e)
         | Err e \<Rightarrow> (files, Err (''failed to marshal checkpoint: '' @ e))
         | Ret data \<Rightarrow>
             let tmpPath = cm_path m @ ''.tmp'' in
             (case write_err env of
                Some (e, junk) \<Rightarrow>
                  (fmupd tmpPath junk files, Err (''failed to write temp checkpoint file: '' @ e))
              | None \<Rightarrow>
                  let files' = fmupd tmpPath data files in
                  (case rename_err env of
                     Some e \<Rightarrow> (files', Err (''failed to rename temp checkpoint file: '' @ e))
                   | None \<Rightarrow> (fmupd (cm_path m) data (fmdrop tmpPath files'), Ret ()))))"

definition Load ::
  "(string \<Rightarrow> Checkpoint outcome) \<Rightarrow> string option \<Rightarrow> CheckpointManager \<Rightarrow> disk \<Rightarrow> Checkpoint outcome" where
  "Load unmarshal read_err m files =
     (case read_err of
        Some e \<Rightarrow> Err (''failed to read checkpoint file: '' @ e)
      | None \<Rightarrow>
          (case fmlookup files (cm_path m) of
             None \<Rightarrow> Err (''failed to read checkpoint file: open '' @ cm_path m @
                       '': no such file or directory'')
           | Some data \<Rightarrow>
               (case unmarshal data of
                  Panic e \<Rightarrow> Panic e
                | Err e \<Rightarrow> Err (''failed to unmarshal checkpoint: '' @ e)
                | Ret c \<Rightarrow> Ret c)))"

text \<open>\<open>Restore\<close> with the warnings it prints.\<close>

definition restore_warning :: "string \<Rightarrow> CheckpointRecord \<Rightarrow> string" where
  "restore_warning got r =
     ''WARNING: Restored IP '' @ got @ '' for pod '' @ cr_PodNamespace r @ CHR ''/'' # cr_PodName r @
     '' does not match checkpointed IP '' @ cr_IP r @ ''\<newline>''"

fun Restore ::
  "gotime \<Rightarrow> NodeAllocator \<Rightarrow> CheckpointRecord list \<Rightarrow> NodeAllocator \<times> string list \<times> unit outcome"
where
  "Restore now allocator [] = (allocator, [], Ret ())"
| "Restore now allocator (r # rs) =
     (case Allocate now allocator (cr_PodName r) (cr_PodNamespace r) of
        (a, Panic e) \<Rightarrow> (a, [], Panic e)
      | (a, Err e) \<Rightarrow> (a, [], Err (''failed to restore allocation for '' @ cr_PodNamespace r @
                                CHR ''/'' # cr_PodName r @ '': '' @ e))
      | (a, Ret allocatedIP) \<Rightarrow>
          (case Restore now a rs of (b, ws, out) \<Rightarrow>
             (b, (if IP_String allocatedIP \<noteq> cr_IP r
                  then restore_warning (IP_String allocatedIP) r # ws else ws), out)))"

definition Exists :: "CheckpointManager \<Rightarrow> disk \<Rightarrow> bool" where
  "Exists m files \<longleftrightarrow> fmlookup files (cm_path m) \<noteq> None"

text \<open>What the code relies on from \<^verbatim>\<open>encoding/json\<close>: unmarshalling a marshalled checkpoint gives it
  back.\<close>

definition json_roundtrip ::
  "(Checkpoint \<Rightarrow> string outcome) \<Rightarrow> (string \<Rightarrow> Checkpoint outcome) \<Rightarrow> bool" where
  "json_roundtrip marshal unmarshal \<longleftrightarrow> (\<forall>c data. marshal c = Ret data \<longrightarrow> unmarshal data = Ret c)"

subsection \<open>Saving and loading\<close>

lemma split_key_pod_key: "CHR ''/'' \<notin> set p \<Longrightarrow> split_key (pod_key p n) = (p, n)"
  by (simp add: split_key_def pod_key_def cut_app)

lemma tmp_path_neq: "p @ ''.tmp'' \<noteq> (p::string)"
  by simp

text \<open>The record of the checkpoint that belongs to a pod's allocation.\<close>

definition record_of :: "gotime \<Rightarrow> allocRecord \<Rightarrow> CheckpointRecord" where
  "record_of now r = \<lparr>cr_PodName = rec_PodName r, cr_PodNamespace = rec_PodNamespace r,
     cr_IP = IP_String (rec_IP r), cr_AllocatedAt = now\<rparr>"

lemma save_records_record_of:
  assumes inv: "alloc_inv a" and order: "range_order (na_allocated a) order"
    and names: "\<And>k r. fmlookup (na_allocated a) k = Some r \<Longrightarrow> CHR ''/'' \<notin> set (rec_PodName r)"
  shows "save_records now order (GetAllocatedIPs a) =
    map (\<lambda>k. record_of now (the (fmlookup (na_allocated a) k))) order"
  unfolding save_records_def
proof (rule map_cong [OF refl])
  fix k assume "k \<in> set order"
  then obtain r where r: "fmlookup (na_allocated a) k = Some r"
    using range_orderD(2) [OF order] by blast
  then have "split_key k = (rec_PodName r, rec_PodNamespace r)"
    using alloc_inv_record(1) [OF inv r] split_key_pod_key [OF names [OF r]] by metis
  then show "(case split_key k of (podName, podNamespace) \<Rightarrow>
      \<lparr>cr_PodName = podName, cr_PodNamespace = podNamespace,
       cr_IP = IP_String (case fmlookup (GetAllocatedIPs a) k of Some x \<Rightarrow> x | None \<Rightarrow> []),
       cr_AllocatedAt = now\<rparr>) = record_of now (the (fmlookup (na_allocated a) k))"
    by (simp add: r record_of_def lookup_GetAllocatedIPs)
qed

subsection \<open>Restoring\<close>

lemma Restore_inv:
  assumes "alloc_inv a"
  shows "alloc_inv (fst (Restore now a rs)) \<and> (\<forall>e. snd (snd (Restore now a rs)) \<noteq> Panic e) \<and>
    na_PodCIDR (fst (Restore now a rs)) = na_PodCIDR a \<and> na_baseIP (fst (Restore now a rs)) = na_baseIP a \<and>
    na_blockSize (fst (Restore now a rs)) = na_blockSize a"
  using assms
proof (induction now a rs rule: Restore.induct)
  case (2 now a r rs)
  obtain b out where b: "Allocate now a (cr_PodName r) (cr_PodNamespace r) = (b, out)" by fastforce
  have inv: "alloc_inv b" using Allocate_inv [OF 2(2), of now "cr_PodName r" "cr_PodNamespace r"] b by simp
  have same: "na_PodCIDR b = na_PodCIDR a" "na_baseIP b = na_baseIP a" "na_blockSize b = na_blockSize a"
    using ipam_step_frame [OF 2(2), of "OpAllocate now (cr_PodName r) (cr_PodNamespace r)"] b by simp_all
  show ?case
  proof (cases out)
    case (Ret x)
    with b 2(1) inv same show ?thesis by (simp add: case_prod_beta)
  next
    case (Panic e)
    with b Allocate_no_panic [OF 2(2), of now "cr_PodName r" "cr_PodNamespace r"] show ?thesis by (metis snd_conv)
  qed (use b inv same in simp_all)
qed simp

lemma find_first_gap: "m + 1 < n \<Longrightarrow> find (\<lambda>i. \<not> (1 \<le> i \<and> i \<le> m)) [1..<n] = Some (m + 1)"
  by (auto simp: find_Some_iff intro!: exI [of _ m])

text \<open>One more allocation in an allocator whose pods own the offsets \<open>1\<close> to \<open>m\<close>.\<close>

lemma Allocate_next:
  assumes inv: "alloc_inv a" and own: "fset (fmran (abs_alloc a)) = {1..m}"
    and m: "m + 1 < length (na_bitmap a) - 1"
    and key: "fmlookup (na_allocated a) (pod_key p n) = None"
  shows "Allocate now a p n = (alloc_new now a p n (m + 1), Ret (ip_at a (m + 1)))"
proof -
  have bits: "\<not> na_bitmap a ! i \<longleftrightarrow> \<not> (1 \<le> i \<and> i \<le> m)" if "i < length (na_bitmap a)" for i
  proof -
    have "(\<exists>k. fmlookup (abs_alloc a) k = Some i) \<longleftrightarrow> i \<in> fset (fmran (abs_alloc a))"
      by (simp add: fmlookup_ran_iff)
    then show ?thesis using own alloc_inv_bit [OF inv that] by simp
  qed
  have "find (\<lambda>k. \<not> na_bitmap a ! k) [1..<length (na_bitmap a) - 1] =
      find (\<lambda>i. \<not> (1 \<le> i \<and> i \<le> m)) [1..<length (na_bitmap a) - 1]"
  proof (rule find_cong [OF refl])
    fix i assume "i \<in> set [1..<length (na_bitmap a) - 1]"
    then have "i < length (na_bitmap a)" by auto
    then show "(\<not> na_bitmap a ! i) = (\<not> (1 \<le> i \<and> i \<le> m))" by (rule bits)
  qed
  also have "\<dots> = Some (m + 1)" by (rule find_first_gap [OF m])
  finally have found: "find (\<lambda>k. \<not> na_bitmap a ! k) [1..<length (na_bitmap a) - 1] = Some (m + 1)" .
  from inv show ?thesis
    by (cases rule: Allocate_cases [of a p n now]) (use key found in auto)
qed

lemma alloc_new_sel:
  "na_allocated (alloc_new now a p n i) = fmupd (pod_key p n)
     \<lparr>rec_IP = ip_at a i, rec_PodName = p, rec_PodNamespace = n, rec_AllocatedAt = now\<rparr> (na_allocated a)"
  "length (na_bitmap (alloc_new now a p n i)) = length (na_bitmap a)"
  "ip_at (alloc_new now a p n i) = ip_at a"
  by (simp_all add: alloc_new_def)

definition record_key :: "CheckpointRecord \<Rightarrow> string" where
  "record_key r = pod_key (cr_PodName r) (cr_PodNamespace r)"

lemma Restore_in_order:
  assumes "alloc_inv a" and "fset (fmran (abs_alloc a)) = {1..m}"
    and "m + length rs < length (na_bitmap a) - 1" and "distinct (map record_key rs)"
    and "\<forall>r \<in> set rs. fmlookup (na_allocated a) (record_key r) = None"
  shows "\<exists>b ws. Restore now a rs = (b, ws, Ret ()) \<and> alloc_inv b \<and>
     (\<forall>j < length rs. fmlookup (GetAllocatedIPs b) (record_key (rs ! j)) = Some (ip_at a (m + j + 1))) \<and>
     (\<forall>k. k \<notin> record_key ` set rs \<longrightarrow> fmlookup (GetAllocatedIPs b) k = fmlookup (GetAllocatedIPs a) k)"
  using assms
proof (induction rs arbitrary: a m)
  case Nil
  then show ?case by simp
next
  case (Cons r rs)
  let ?p = "cr_PodName r" and ?n = "cr_PodNamespace r"
  let ?a = "alloc_new now a ?p ?n (m + 1)"
  have key: "fmlookup (na_allocated a) (pod_key ?p ?n) = None"
    using Cons.prems(5) by (simp add: record_key_def)
  have m: "m + 1 < length (na_bitmap a) - 1" using Cons.prems(3) by simp
  note alloc = Allocate_next [OF Cons.prems(1,2) m key, of now]
  have inv: "alloc_inv ?a" using Allocate_inv [OF Cons.prems(1), of now ?p ?n] by (simp add: alloc)
  have m32: "m + 1 < 2 ^ 32" using m alloc_invD(2) [OF Cons.prems(1)] by linarith
  have abs: "abs_alloc ?a = fmupd (pod_key ?p ?n) (m + 1) (abs_alloc a)" by (rule abs_alloc_new [OF m32])
  have "fmlookup (abs_alloc a) (pod_key ?p ?n) = None" by (simp add: lookup_abs_alloc key)
  then have "fset (fmran (abs_alloc ?a)) = insert (m + 1) (fset (fmran (abs_alloc a)))"
    unfolding abs by (rule fmran_upd_new)
  then have own: "fset (fmran (abs_alloc ?a)) = {1..m + 1}"
    using Cons.prems(2) by auto
  have fresh: "\<forall>q \<in> set rs. fmlookup (na_allocated ?a) (record_key q) = None"
    using Cons.prems(4,5) by (auto simp: alloc_new_sel record_key_def)
  from Cons.IH [OF inv own] Cons.prems(3,4) fresh
  obtain b ws where b: "Restore now ?a rs = (b, ws, Ret ())" "alloc_inv b"
    and got: "\<forall>j < length rs. fmlookup (GetAllocatedIPs b) (record_key (rs ! j)) = Some (ip_at a (m + 1 + j + 1))"
    and rest: "\<forall>k. k \<notin> record_key ` set rs \<longrightarrow> fmlookup (GetAllocatedIPs b) k = fmlookup (GetAllocatedIPs ?a) k"
    by (auto simp: alloc_new_sel)
  have first: "fmlookup (GetAllocatedIPs b) (record_key r) = Some (ip_at a (m + 1))"
    using rest Cons.prems(4) by (auto simp: GetAllocatedIPs_alloc_new record_key_def)
  have "\<forall>j < length (r # rs). fmlookup (GetAllocatedIPs b) (record_key ((r # rs) ! j)) =
      Some (ip_at a (m + j + 1))"
    using first got by (auto simp: less_Suc_eq_0_disj)
  moreover have "\<forall>k. k \<notin> record_key ` set (r # rs) \<longrightarrow>
      fmlookup (GetAllocatedIPs b) k = fmlookup (GetAllocatedIPs a) k"
    using rest by (auto simp: GetAllocatedIPs_alloc_new record_key_def)
  ultimately show ?case using b alloc by auto
qed

subsection \<open>Properties\<close>

text \<open>C4. Saving is atomic: whichever system call fails and whatever a failed write leaves behind,
  the checkpoint file afterwards holds its old contents or the complete new ones, the new ones
  exactly when \<open>Save\<close> reports success, and no file other than it and its temporary changes.\<close>

theorem Save_atomic:
  assumes "Save marshal now order env m a files = (files', out)"
  shows "(out = Ret () \<longrightarrow> (\<exists>data. marshal \<lparr>cp_PodCIDR = IPNet_String (na_PodCIDR a),
              cp_Records = save_records now order (GetAllocatedIPs a), cp_Timestamp = now,
              cp_Version = 1\<rparr> = Ret data \<and> fmlookup files' (cm_path m) = Some data)) \<and>
    (out \<noteq> Ret () \<longrightarrow> fmlookup files' (cm_path m) = fmlookup files (cm_path m)) \<and>
    (\<forall>f. f \<noteq> cm_path m \<longrightarrow> f \<noteq> cm_path m @ ''.tmp'' \<longrightarrow> fmlookup files' f = fmlookup files f)"
  using assms
  by (auto simp: Save_def Let_def tmp_path_neq split: outcome.splits option.splits if_splits)

text \<open>The codec of the witnesses: it writes the names, namespaces and addresses of the records.\<close>

definition ex_marshal :: "Checkpoint \<Rightarrow> string outcome" where
  "ex_marshal c = (if c = \<lparr>cp_PodCIDR = ''10.0.0.0/29'', cp_Records =
       [\<lparr>cr_PodName = ''c'', cr_PodNamespace = ''ns'', cr_IP = ''10.0.0.1'', cr_AllocatedAt = 7\<rparr>,
        \<lparr>cr_PodName = ''b'', cr_PodNamespace = ''ns'', cr_IP = ''10.0.0.2'', cr_AllocatedAt = 7\<rparr>],
       cp_Timestamp = 7, cp_Version = 1\<rparr> then Ret ''{}'' else Err ''unsupported value'')"

definition ex_unmarshal :: "string \<Rightarrow> Checkpoint outcome" where
  "ex_unmarshal s = Ret \<lparr>cp_PodCIDR = ''10.0.0.0/29'', cp_Records =
       [\<lparr>cr_PodName = ''c'', cr_PodNamespace = ''ns'', cr_IP = ''10.0.0.1'', cr_AllocatedAt = 7\<rparr>,
        \<lparr>cr_PodName = ''b'', cr_PodNamespace = ''ns'', cr_IP = ''10.0.0.2'', cr_AllocatedAt = 7\<rparr>],
       cp_Timestamp = 7, cp_Version = 1\<rparr>"

lemma ex_json_roundtrip: "json_roundtrip ex_marshal ex_unmarshal"
  by (simp add: json_roundtrip_def ex_marshal_def ex_unmarshal_def)

abbreviation ex_state :: NodeAllocator where
  "ex_state \<equiv> foldl ipam_step ex_alloc ex_ops"

theorem Save_atomic_witness:
  "Save ex_marshal 7 [''c/ns'', ''b/ns''] \<lparr>write_err = None, rename_err = Some ''EIO''\<rparr>
     \<lparr>cm_path = ''cp''\<rparr> ex_state (fmupd ''cp'' ''old'' fmempty) =
   (fmupd ''cp.tmp'' ''{}'' (fmupd ''cp'' ''old'' fmempty),
    Err ''failed to rename temp checkpoint file: EIO'') \<and>
   fmlookup (fmupd ''cp.tmp'' ''{}'' (fmupd ''cp'' ''old'' fmempty)) ''cp'' = Some ''old''"
proof -
  have h: "Save ex_marshal 7 [''c/ns'', ''b/ns''] \<lparr>write_err = None, rename_err = Some ''EIO''\<rparr>
     \<lparr>cm_path = ''cp''\<rparr> ex_state (fmupd ''cp'' ''old'' fmempty) =
   (fmupd ''cp.tmp'' ''{}'' (fmupd ''cp'' ''old'' fmempty),
    Err ''failed to rename temp checkpoint file: EIO'')" by code_simp
  with Save_atomic [OF h] show ?thesis by simp
qed

text \<open>C27. A successful save loads back: the loaded checkpoint has one record per allocation, in the
  order the map was visited, with the pod's own name and namespace and its printed address.
  Pod names contain no slash (Kubernetes names never do); a name with one would be cut there.\<close>

theorem Save_Load_roundtrip:
  assumes "json_roundtrip marshal unmarshal" and "alloc_inv a"
    and "range_order (na_allocated a) order"
    and "\<forall>k r. fmlookup (na_allocated a) k = Some r \<longrightarrow> CHR ''/'' \<notin> set (rec_PodName r)"
    and "Save marshal now order env m a files = (files', Ret ())"
  shows "Load unmarshal None m files' =
    Ret \<lparr>cp_PodCIDR = IPNet_String (na_PodCIDR a),
         cp_Records = map (\<lambda>k. record_of now (the (fmlookup (na_allocated a) k))) order,
         cp_Timestamp = now, cp_Version = 1\<rparr>"
proof -
  let ?c = "\<lparr>cp_PodCIDR = IPNet_String (na_PodCIDR a),
      cp_Records = save_records now order (GetAllocatedIPs a), cp_Timestamp = now, cp_Version = 1\<rparr>"
  from assms(5) obtain data where d: "marshal ?c = Ret data" "fmlookup files' (cm_path m) = Some data"
    by (auto simp: Save_def Let_def split: outcome.splits option.splits)
  with assms(1) have "Load unmarshal None m files' = Ret ?c"
    by (simp add: Load_def json_roundtrip_def)
  then show ?thesis using save_records_record_of [OF assms(2,3)] assms(4) by metis
qed

theorem Save_Load_roundtrip_witness:
  "\<exists>files'. Save ex_marshal 7 [''c/ns'', ''b/ns''] \<lparr>write_err = None, rename_err = None\<rparr>
       \<lparr>cm_path = ''cp''\<rparr> ex_state fmempty = (files', Ret ()) \<and>
     Load ex_unmarshal None \<lparr>cm_path = ''cp''\<rparr> files' =
     Ret \<lparr>cp_PodCIDR = IPNet_String (na_PodCIDR ex_state),
          cp_Records = map (\<lambda>k. record_of 7 (the (fmlookup (na_allocated ex_state) k))) [''c/ns'', ''b/ns''],
          cp_Timestamp = 7, cp_Version = 1\<rparr>"
proof -
  have ord: "range_order (na_allocated ex_state) [''c/ns'', ''b/ns'']"
    unfolding range_order_def by code_simp
  have "fmpred (\<lambda>k r. CHR ''/'' \<notin> set (rec_PodName r)) (na_allocated ex_state)" by code_simp
  then have names: "\<forall>k r. fmlookup (na_allocated ex_state) k = Some r \<longrightarrow> CHR ''/'' \<notin> set (rec_PodName r)"
    by (auto dest: fmpredD)
  have s: "Save ex_marshal 7 [''c/ns'', ''b/ns''] \<lparr>write_err = None, rename_err = None\<rparr>
       \<lparr>cm_path = ''cp''\<rparr> ex_state fmempty = (fmupd ''cp'' ''{}'' fmempty, Ret ())"
    by code_simp
  from Save_Load_roundtrip [OF ex_json_roundtrip ipam.run_inv [OF ex_alloc_inv] ord names s] s
  show ?thesis by blast
qed


definition ex_records :: "CheckpointRecord list" where
  "ex_records =
     [\<lparr>cr_PodName = ''b'', cr_PodNamespace = ''ns'', cr_IP = ''10.0.0.2'', cr_AllocatedAt = 7\<rparr>,
      \<lparr>cr_PodName = ''c'', cr_PodNamespace = ''ns'', cr_IP = ''10.0.0.1'', cr_AllocatedAt = 7\<rparr>]"


text \<open>So a restart can move a pod to another address: there is an allocator, reached by ordinary
  allocations, and an order of visiting its map for which saving, loading and restoring
  into a new allocator of the same block gives a pod the address another pod had.\<close>

lemma restart_can_swap_addresses:
  "\<exists>ops order k k' x. range_order (na_allocated (foldl ipam_step ex_alloc ops)) order \<and>
     k \<noteq> k' \<and> fmlookup (GetAllocatedIPs (foldl ipam_step ex_alloc ops)) k = Some x \<and>
     fmlookup (GetAllocatedIPs (fst (Restore 9 ex_alloc
       (save_records 7 order (GetAllocatedIPs (foldl ipam_step ex_alloc ops)))))) k' = Some x"
proof -
  let ?ops = "[OpAllocate 1 ''a'' ''ns'', OpAllocate 2 ''b'' ''ns'']"
  let ?a = "foldl ipam_step ex_alloc ?ops" and ?order = "[''b/ns'', ''a/ns'']"
  have "range_order (na_allocated ?a) ?order" unfolding range_order_def by code_simp
  moreover have "''a/ns'' \<noteq> ''b/ns''" by simp
  moreover have "fmlookup (GetAllocatedIPs ?a) ''a/ns'' = Some (uint32ToIP 167772161)" by code_simp
  moreover have "fmlookup (GetAllocatedIPs (fst (Restore 9 ex_alloc
       (save_records 7 ?order (GetAllocatedIPs ?a))))) ''b/ns'' = Some (uint32ToIP 167772161)" by code_simp
  ultimately show ?thesis by blast
qed

end
