(* ===== verification/DataplaneMaps.thy ===== *)
theory DataplaneMaps
  imports Complex_Main GoNet
begin

text \<open>
  The pinned eBPF maps, \<^verbatim>\<open>src/pkg/dataplane/maps.go\<close>: the registered maps and their storage, which
  the source simulates as a map from the hexadecimal text of a key to the bytes of the value.

  The lemmas show that a written entry reads back, that writing one key leaves the others
  alone, and which calls report an error.
\<close>

type_synonym MapType = string

definition MapTypeIdentity :: MapType where "MapTypeIdentity = ''identity''"
definition MapTypePolicy :: MapType where "MapTypePolicy = ''policy''"
definition MapTypeConntrack :: MapType where "MapTypeConntrack = ''conntrack''"
definition MapTypeEndpoint :: MapType where "MapTypeEndpoint = ''endpoint''"

record PinnedMap =
  pm_Name :: string
  pm_Type :: MapType
  pm_PinPath :: string
  pm_KeySize :: int
  pm_ValueSize :: int
  pm_MaxEntries :: int

record MapStats =
  ms_Name :: string
  ms_EntryCount :: int
  ms_MaxEntries :: int
  ms_Utilization :: rat

record MapManager =
  mm_basePath :: string
  mm_maps :: "(string, PinnedMap) fmap"
  mm_storage :: "(string, (string, byte list) fmap) fmap"

definition NewMapManager :: "string \<Rightarrow> MapManager" where
  "NewMapManager basePath = \<lparr>mm_basePath = basePath, mm_maps = fmempty, mm_storage = fmempty\<rparr>"

definition DefaultMaps :: "PinnedMap list" where
  "DefaultMaps =
     [\<lparr>pm_Name = ''identity_map'', pm_Type = MapTypeIdentity, pm_PinPath = ''identity_map'',
       pm_KeySize = 4, pm_ValueSize = 4, pm_MaxEntries = 65536\<rparr>,
      \<lparr>pm_Name = ''policy_map'', pm_Type = MapTypePolicy, pm_PinPath = ''policy_map'',
       pm_KeySize = 12, pm_ValueSize = 2, pm_MaxEntries = 65536\<rparr>,
      \<lparr>pm_Name = ''conntrack_map'', pm_Type = MapTypeConntrack, pm_PinPath = ''conntrack_map'',
       pm_KeySize = 4, pm_ValueSize = 4, pm_MaxEntries = 65536\<rparr>,
      \<lparr>pm_Name = ''endpoint_map'', pm_Type = MapTypeEndpoint, pm_PinPath = ''endpoint_map'',
       pm_KeySize = 4, pm_ValueSize = 16, pm_MaxEntries = 65536\<rparr>]"

definition EnsureMap :: "MapManager \<Rightarrow> PinnedMap \<Rightarrow> MapManager \<times> unit outcome" where
  "EnsureMap m pm =
     (m\<lparr>mm_maps := fmupd (pm_Name pm) pm (mm_maps m),
        mm_storage := (if fmlookup (mm_storage m) (pm_Name pm) = None
                       then fmupd (pm_Name pm) fmempty (mm_storage m) else mm_storage m)\<rparr>, Ret ())"

definition DeleteMap :: "MapManager \<Rightarrow> string \<Rightarrow> MapManager \<times> unit outcome" where
  "DeleteMap m name =
     (m\<lparr>mm_maps := fmdrop name (mm_maps m), mm_storage := fmdrop name (mm_storage m)\<rparr>, Ret ())"

definition GetMap :: "MapManager \<Rightarrow> string \<Rightarrow> PinnedMap option" where
  "GetMap m name = fmlookup (mm_maps m) name"

definition RecoverMaps :: "MapManager \<Rightarrow> MapManager \<times> unit outcome" where
  "RecoverMaps m = (m, Ret ())"

definition CleanupStaleMaps :: "MapManager \<Rightarrow> MapManager \<times> unit outcome" where
  "CleanupStaleMaps m =
     (m\<lparr>mm_storage := fmfilter (\<lambda>name. fmlookup (mm_maps m) name \<noteq> None) (mm_storage m)\<rparr>, Ret ())"

definition map_not_found :: "string \<Rightarrow> string" where
  "map_not_found mapName = ''map '' @ mapName @ '' not found''"

definition UpdateMapEntry ::
  "MapManager \<Rightarrow> string \<Rightarrow> byte list \<Rightarrow> byte list \<Rightarrow> MapManager \<times> unit outcome" where
  "UpdateMapEntry m mapName key v =
     (case fmlookup (mm_storage m) mapName of
        None \<Rightarrow> (m, Err (map_not_found mapName))
      | Some s \<Rightarrow>
          (m\<lparr>mm_storage := fmupd mapName (fmupd (hex_bytes key) v s) (mm_storage m)\<rparr>, Ret ()))"

definition DeleteMapEntry :: "MapManager \<Rightarrow> string \<Rightarrow> byte list \<Rightarrow> MapManager \<times> unit outcome" where
  "DeleteMapEntry m mapName key =
     (case fmlookup (mm_storage m) mapName of
        None \<Rightarrow> (m, Err (map_not_found mapName))
      | Some s \<Rightarrow>
          (m\<lparr>mm_storage := fmupd mapName (fmdrop (hex_bytes key) s) (mm_storage m)\<rparr>, Ret ()))"

definition LookupMapEntry :: "MapManager \<Rightarrow> string \<Rightarrow> byte list \<Rightarrow> byte list outcome" where
  "LookupMapEntry m mapName key =
     (case fmlookup (mm_storage m) mapName of
        None \<Rightarrow> Err (map_not_found mapName)
      | Some s \<Rightarrow>
          (case fmlookup s (hex_bytes key) of
             None \<Rightarrow> Err (''key not found in map '' @ mapName)
           | Some v \<Rightarrow> Ret v))"

definition GetMapStats :: "MapManager \<Rightarrow> (string, MapStats) fmap" where
  "GetMapStats m =
     fmmap_keys (\<lambda>name pm.
       let count = (case fmlookup (mm_storage m) name of None \<Rightarrow> 0 | Some s \<Rightarrow> map_len s)
       in \<lparr>ms_Name = name, ms_EntryCount = count, ms_MaxEntries = pm_MaxEntries pm,
           ms_Utilization = (if 0 < pm_MaxEntries pm then of_int count / of_int (pm_MaxEntries pm) else 0)\<rparr>)
       (mm_maps m)"

subsection \<open>Entries\<close>

text \<open>The entry of a key in a map that exists.\<close>

definition entry :: "MapManager \<Rightarrow> string \<Rightarrow> byte list \<Rightarrow> byte list option" where
  "entry m mapName key = (case fmlookup (mm_storage m) mapName of None \<Rightarrow> None | Some s \<Rightarrow> fmlookup s (hex_bytes key))"

definition has_map :: "MapManager \<Rightarrow> string \<Rightarrow> bool" where
  "has_map m mapName \<longleftrightarrow> fmlookup (mm_storage m) mapName \<noteq> None"

lemma LookupMapEntry_eq:
  "has_map m n \<Longrightarrow> LookupMapEntry m n k =
     (case entry m n k of None \<Rightarrow> Err (''key not found in map '' @ n) | Some v \<Rightarrow> Ret v)"
  by (auto simp: has_map_def LookupMapEntry_def entry_def split: option.split)

lemma entry_update:
  "has_map m n \<Longrightarrow> entry (fst (UpdateMapEntry m n k v)) n' k' =
     (if n' = n \<and> k' = k then Some v else entry m n' k')"
  by (auto simp: has_map_def UpdateMapEntry_def entry_def hex_bytes_inj split: option.split)

lemma entry_delete:
  "has_map m n \<Longrightarrow> entry (fst (DeleteMapEntry m n k)) n' k' =
     (if n' = n \<and> k' = k then None else entry m n' k')"
  by (auto simp: has_map_def DeleteMapEntry_def entry_def hex_bytes_inj split: option.split)

lemma has_map_update [simp]: "has_map (fst (UpdateMapEntry m n k v)) n' \<longleftrightarrow> has_map m n'"
  by (auto simp: has_map_def UpdateMapEntry_def split: option.split)

lemma has_map_delete [simp]: "has_map (fst (DeleteMapEntry m n k)) n' \<longleftrightarrow> has_map m n'"
  by (auto simp: has_map_def DeleteMapEntry_def split: option.split)

lemma update_Ret: "has_map m n \<Longrightarrow> snd (UpdateMapEntry m n k v) = Ret ()"
  by (auto simp: has_map_def UpdateMapEntry_def)

lemma entry_missing_map: "\<not> has_map m n \<Longrightarrow> entry m n k = None"
  by (simp add: has_map_def entry_def)

lemma update_missing_map:
  "\<not> has_map m n \<Longrightarrow> UpdateMapEntry m n k v = (m, Err (map_not_found n))"
  by (simp add: has_map_def UpdateMapEntry_def)

end
