(* ===== verification/Dataplane.thy ===== *)
theory Dataplane
  imports DataplaneMaps
begin

text \<open>
  The two data planes, \<^verbatim>\<open>src/pkg/dataplane/loader.go\<close>: the eBPF one, which mirrors its endpoints into
  the pinned maps, and the iptables one it falls back to. The Go interface \<^verbatim>\<open>DataPlane\<close> is the sum
  of the two, its methods dispatch on it. The locale \<open>endpoint_table\<close> states what a client of the
  interface may rely on; it is interpreted on both implementations and on the sum.

  The lemmas show that the identity map the kernel reads holds exactly the identities last set,
  and the places where an implementation does not keep its tables in step.
\<close>

unbundle bit_operations_syntax

record LoaderConfig =
  lc_BPFMountPath :: string
  lc_ProgramDir :: string
  lc_PinPath :: string

record EndpointEntry =
  ep_PodIP :: ip
  ep_IdentityID :: u32
  ep_IfIndex :: int
  ep_MAC :: string
  ep_CreatedAt :: gotime

definition v4_only :: string where
  "v4_only = ''only IPv4 supported''"

text \<open>\<^verbatim>\<open>binary.LittleEndian.PutUint32\<close>.\<close>

definition le32 :: "u32 \<Rightarrow> byte list" where
  "le32 v = [ucast v, ucast (drop_bit 8 v), ucast (drop_bit 16 v), ucast (drop_bit 24 v)]"

definition new_entry :: "gotime \<Rightarrow> ip \<Rightarrow> u32 \<Rightarrow> int \<Rightarrow> EndpointEntry" where
  "new_entry now podIP identityID ifIndex =
     \<lparr>ep_PodIP = podIP, ep_IdentityID = identityID, ep_IfIndex = ifIndex, ep_MAC = [], ep_CreatedAt = now\<rparr>"

subsection \<open>The eBPF data plane\<close>

record EBPFDataPlane =
  ed_config :: LoaderConfig
  ed_loaded :: bool
  ed_attachedInterfaces :: "string fset"
  ed_endpoints :: "(string, EndpointEntry) fmap"
  ed_identityMap :: "(u32, u32) fmap"
  ed_policyEntries :: "string fset"
  ed_programFDs :: "(string, int) fmap"
  ed_mapManager :: MapManager

definition NewEBPFDataPlane :: "LoaderConfig \<Rightarrow> EBPFDataPlane" where
  "NewEBPFDataPlane config =
     \<lparr>ed_config = config, ed_loaded = False, ed_attachedInterfaces = {||}, ed_endpoints = fmempty,
      ed_identityMap = fmempty, ed_policyEntries = {||}, ed_programFDs = fmempty,
      ed_mapManager = NewMapManager (lc_PinPath config)\<rparr>"

definition ed_Init :: "EBPFDataPlane \<Rightarrow> LoaderConfig \<Rightarrow> EBPFDataPlane \<times> unit outcome" where
  "ed_Init e config =
     (e\<lparr>ed_config := (if lc_BPFMountPath config = [] then config\<lparr>lc_BPFMountPath := ''/sys/fs/bpf''\<rparr>
                      else config)\<rparr>, Ret ())"

definition ed_LoadPrograms :: "EBPFDataPlane \<Rightarrow> EBPFDataPlane \<times> unit outcome" where
  "ed_LoadPrograms e =
     (e\<lparr>ed_loaded := True,
        ed_programFDs := fmupd ''cni_tc_egress'' 101 (fmupd ''cni_tc_ingress'' 100 (ed_programFDs e)),
        ed_mapManager := foldl (\<lambda>m pm. fst (EnsureMap m pm)) (ed_mapManager e) DefaultMaps\<rparr>, Ret ())"

definition ed_AttachToExistingMaps :: "EBPFDataPlane \<Rightarrow> EBPFDataPlane \<times> unit outcome" where
  "ed_AttachToExistingMaps e =
     (case RecoverMaps (ed_mapManager e) of (m, out) \<Rightarrow> (e\<lparr>ed_mapManager := m\<rparr>, out))"

definition ed_AttachToInterface :: "EBPFDataPlane \<Rightarrow> string \<Rightarrow> EBPFDataPlane \<times> unit outcome" where
  "ed_AttachToInterface e ifName =
     (e\<lparr>ed_attachedInterfaces := finsert ifName (ed_attachedInterfaces e)\<rparr>, Ret ())"

definition ed_DetachFromInterface :: "EBPFDataPlane \<Rightarrow> string \<Rightarrow> EBPFDataPlane \<times> unit outcome" where
  "ed_DetachFromInterface e ifName =
     (e\<lparr>ed_attachedInterfaces := ed_attachedInterfaces e |-| {|ifName|}\<rparr>, Ret ())"

text \<open>The value of the endpoint map: interface index, identity, and eight zero bytes.\<close>

definition endpoint_info :: "int \<Rightarrow> u32 \<Rightarrow> byte list" where
  "endpoint_info ifIndex identityID = le32 (word_of_int ifIndex) @ le32 identityID @ replicate 8 0"

text \<open>The errors of the two map updates are dropped by the source.\<close>

definition ed_AddPodEndpoint ::
  "gotime \<Rightarrow> EBPFDataPlane \<Rightarrow> ip \<Rightarrow> u32 \<Rightarrow> int \<Rightarrow> EBPFDataPlane \<times> unit outcome" where
  "ed_AddPodEndpoint now e podIP identityID ifIndex =
     (let p4 = To4 podIP in
      if p4 = [] then (e, Err v4_only)
      else
        let m1 = fst (UpdateMapEntry (ed_mapManager e) ''identity_map'' p4 (le32 identityID));
            m2 = fst (UpdateMapEntry m1 ''endpoint_map'' p4 (endpoint_info ifIndex identityID))
        in (e\<lparr>ed_endpoints := fmupd (IP_String podIP) (new_entry now podIP identityID ifIndex) (ed_endpoints e),
              ed_identityMap := fmupd (be32 p4) identityID (ed_identityMap e),
              ed_mapManager := m2\<rparr>, Ret ()))"

definition ed_RemovePodEndpoint :: "EBPFDataPlane \<Rightarrow> ip \<Rightarrow> EBPFDataPlane \<times> unit outcome" where
  "ed_RemovePodEndpoint e podIP =
     (let p4 = To4 podIP in
      if p4 = [] then (e, Err v4_only)
      else
        let m1 = fst (DeleteMapEntry (ed_mapManager e) ''identity_map'' p4);
            m2 = fst (DeleteMapEntry m1 ''endpoint_map'' p4)
        in (e\<lparr>ed_endpoints := fmdrop (IP_String podIP) (ed_endpoints e),
              ed_identityMap := fmdrop (be32 p4) (ed_identityMap e),
              ed_mapManager := m2\<rparr>, Ret ()))"

definition ed_Close :: "EBPFDataPlane \<Rightarrow> EBPFDataPlane \<times> unit outcome" where
  "ed_Close e = (e\<lparr>ed_attachedInterfaces := {||}, ed_loaded := False\<rparr>, Ret ())"

definition ed_IsHealthy :: "EBPFDataPlane \<Rightarrow> bool" where
  "ed_IsHealthy e = ed_loaded e"

definition GetEndpoints :: "EBPFDataPlane \<Rightarrow> (string, EndpointEntry) fmap" where
  "GetEndpoints e = ed_endpoints e"

definition GetIdentityMap :: "EBPFDataPlane \<Rightarrow> (u32, u32) fmap" where
  "GetIdentityMap e = ed_identityMap e"

definition UpdateIdentity :: "EBPFDataPlane \<Rightarrow> ip \<Rightarrow> u32 \<Rightarrow> EBPFDataPlane \<times> unit outcome" where
  "UpdateIdentity e podIP newIdentityID =
     (let p4 = To4 podIP in
      if p4 = [] then (e, Err v4_only)
      else
        let eps = (case fmlookup (ed_endpoints e) (IP_String podIP) of
                     None \<Rightarrow> ed_endpoints e
                   | Some en \<Rightarrow> fmupd (IP_String podIP) (en\<lparr>ep_IdentityID := newIdentityID\<rparr>) (ed_endpoints e))
        in case UpdateMapEntry (ed_mapManager e) ''identity_map'' p4 (le32 newIdentityID) of
             (m, out) \<Rightarrow> (e\<lparr>ed_endpoints := eps,
                           ed_identityMap := fmupd (be32 p4) newIdentityID (ed_identityMap e),
                           ed_mapManager := m\<rparr>, out))"

subsection \<open>The iptables data plane\<close>

record IptablesRule =
  ir_Chain :: string
  ir_Rule :: string
  ir_Position :: int

record IptablesDataPlane =
  it_config :: LoaderConfig
  it_chains :: "(string, IptablesRule list) fmap"
  it_endpoints :: "(string, EndpointEntry) fmap"
  it_running :: bool

definition NewIptablesDataPlane :: "LoaderConfig \<Rightarrow> IptablesDataPlane" where
  "NewIptablesDataPlane config =
     \<lparr>it_config = config, it_chains = fmempty, it_endpoints = fmempty, it_running = False\<rparr>"

definition it_Init :: "IptablesDataPlane \<Rightarrow> LoaderConfig \<Rightarrow> IptablesDataPlane \<times> unit outcome" where
  "it_Init i config = (i\<lparr>it_config := config\<rparr>, Ret ())"

definition it_LoadPrograms :: "IptablesDataPlane \<Rightarrow> IptablesDataPlane \<times> unit outcome" where
  "it_LoadPrograms i =
     (i\<lparr>it_running := True, it_chains := fmupd ''COORDINO-FORWARD'' [] (it_chains i)\<rparr>, Ret ())"

definition it_AttachToExistingMaps :: "IptablesDataPlane \<Rightarrow> IptablesDataPlane \<times> unit outcome" where
  "it_AttachToExistingMaps i = (i, Ret ())"

definition it_AttachToInterface :: "IptablesDataPlane \<Rightarrow> string \<Rightarrow> IptablesDataPlane \<times> unit outcome" where
  "it_AttachToInterface i ifName = (i, Ret ())"

definition it_DetachFromInterface :: "IptablesDataPlane \<Rightarrow> string \<Rightarrow> IptablesDataPlane \<times> unit outcome" where
  "it_DetachFromInterface i ifName = (i, Ret ())"

definition chain_rules :: "IptablesDataPlane \<Rightarrow> string \<Rightarrow> IptablesRule list" where
  "chain_rules i c = (case fmlookup (it_chains i) c of None \<Rightarrow> [] | Some rs \<Rightarrow> rs)"

definition accept_rule :: "ip \<Rightarrow> IptablesRule" where
  "accept_rule podIP = \<lparr>ir_Chain = ''COORDINO-FORWARD'',
     ir_Rule = ''-s '' @ IP_String podIP @ '' -j ACCEPT'', ir_Position = 0\<rparr>"

definition it_AddPodEndpoint ::
  "gotime \<Rightarrow> IptablesDataPlane \<Rightarrow> ip \<Rightarrow> u32 \<Rightarrow> int \<Rightarrow> IptablesDataPlane \<times> unit outcome" where
  "it_AddPodEndpoint now i podIP identityID ifIndex =
     (i\<lparr>it_endpoints := fmupd (IP_String podIP) (new_entry now podIP identityID ifIndex) (it_endpoints i),
        it_chains := fmupd ''COORDINO-FORWARD''
          (chain_rules i ''COORDINO-FORWARD'' @ [accept_rule podIP]) (it_chains i)\<rparr>, Ret ())"

definition it_RemovePodEndpoint :: "IptablesDataPlane \<Rightarrow> ip \<Rightarrow> IptablesDataPlane \<times> unit outcome" where
  "it_RemovePodEndpoint i podIP =
     (i\<lparr>it_endpoints := fmdrop (IP_String podIP) (it_endpoints i)\<rparr>, Ret ())"

definition it_Close :: "IptablesDataPlane \<Rightarrow> IptablesDataPlane \<times> unit outcome" where
  "it_Close i = (i\<lparr>it_running := False\<rparr>, Ret ())"

definition it_IsHealthy :: "IptablesDataPlane \<Rightarrow> bool" where
  "it_IsHealthy i = it_running i"

text \<open>\<open>DetectKernelSupport\<close>: the outcome of each system call is an argument (whether the BPF file
  system and the BTF file are there, and the contents of \<^verbatim>\<open>/proc/version\<close> if it can be read).\<close>

fun contains_sub :: "string \<Rightarrow> string \<Rightarrow> bool" where
  "contains_sub [] sub = (sub = [])"
| "contains_sub (c # cs) sub = (take (length sub) (c # cs) = sub \<or> contains_sub cs sub)"

definition DetectKernelSupport :: "bool \<Rightarrow> string option \<Rightarrow> bool \<Rightarrow> bool \<times> string" where
  "DetectKernelSupport bpffs version btf =
     (if \<not> bpffs then (False, ''BPF filesystem not mounted at /sys/fs/bpf'')
      else case version of
             None \<Rightarrow> (False, ''Could not read /proc/version'')
           | Some v \<Rightarrow>
               if \<not> contains_sub v ''Linux'' then (False, ''Not a Linux kernel'')
               else if \<not> btf then (False, ''BTF not supported by kernel'')
               else (True, []))"

subsection \<open>The interface\<close>

datatype DataPlane = DpEBPF EBPFDataPlane | DpIptables IptablesDataPlane

fun dp_Init :: "DataPlane \<Rightarrow> LoaderConfig \<Rightarrow> DataPlane \<times> unit outcome" where
  "dp_Init (DpEBPF e) c = apfst DpEBPF (ed_Init e c)"
| "dp_Init (DpIptables i) c = apfst DpIptables (it_Init i c)"

fun dp_LoadPrograms :: "DataPlane \<Rightarrow> DataPlane \<times> unit outcome" where
  "dp_LoadPrograms (DpEBPF e) = apfst DpEBPF (ed_LoadPrograms e)"
| "dp_LoadPrograms (DpIptables i) = apfst DpIptables (it_LoadPrograms i)"

fun dp_AttachToExistingMaps :: "DataPlane \<Rightarrow> DataPlane \<times> unit outcome" where
  "dp_AttachToExistingMaps (DpEBPF e) = apfst DpEBPF (ed_AttachToExistingMaps e)"
| "dp_AttachToExistingMaps (DpIptables i) = apfst DpIptables (it_AttachToExistingMaps i)"

fun dp_AddPodEndpoint :: "gotime \<Rightarrow> DataPlane \<Rightarrow> ip \<Rightarrow> u32 \<Rightarrow> int \<Rightarrow> DataPlane \<times> unit outcome" where
  "dp_AddPodEndpoint now (DpEBPF e) p i x = apfst DpEBPF (ed_AddPodEndpoint now e p i x)"
| "dp_AddPodEndpoint now (DpIptables d) p i x = apfst DpIptables (it_AddPodEndpoint now d p i x)"

fun dp_RemovePodEndpoint :: "DataPlane \<Rightarrow> ip \<Rightarrow> DataPlane \<times> unit outcome" where
  "dp_RemovePodEndpoint (DpEBPF e) p = apfst DpEBPF (ed_RemovePodEndpoint e p)"
| "dp_RemovePodEndpoint (DpIptables d) p = apfst DpIptables (it_RemovePodEndpoint d p)"

fun dp_Close :: "DataPlane \<Rightarrow> DataPlane \<times> unit outcome" where
  "dp_Close (DpEBPF e) = apfst DpEBPF (ed_Close e)"
| "dp_Close (DpIptables i) = apfst DpIptables (it_Close i)"

fun dp_IsHealthy :: "DataPlane \<Rightarrow> bool" where
  "dp_IsHealthy (DpEBPF e) = ed_IsHealthy e"
| "dp_IsHealthy (DpIptables i) = it_IsHealthy i"

fun dp_endpoints :: "DataPlane \<Rightarrow> (string, EndpointEntry) fmap" where
  "dp_endpoints (DpEBPF e) = ed_endpoints e"
| "dp_endpoints (DpIptables i) = it_endpoints i"

subsection \<open>What a client may rely on\<close>

text \<open>The contract of the endpoint operations on IPv4 addresses: both succeed, an addition makes one
  entry, a removal drops it, and nothing else of the table changes.\<close>

locale endpoint_table =
  fixes add :: "gotime \<Rightarrow> 's \<Rightarrow> ip \<Rightarrow> u32 \<Rightarrow> int \<Rightarrow> 's \<times> unit outcome"
    and remove :: "'s \<Rightarrow> ip \<Rightarrow> 's \<times> unit outcome"
    and table :: "'s \<Rightarrow> (string, EndpointEntry) fmap"
  assumes add_v4: "To4 p \<noteq> [] \<Longrightarrow> snd (add now s p i x) = Ret () \<and>
      table (fst (add now s p i x)) = fmupd (IP_String p) (new_entry now p i x) (table s)"
    and remove_v4: "To4 p \<noteq> [] \<Longrightarrow> snd (remove s p) = Ret () \<and>
      table (fst (remove s p)) = fmdrop (IP_String p) (table s)"
begin

text \<open>Adding an address that has no entry and removing it gives the table back.\<close>

lemma add_remove:
  assumes "To4 p \<noteq> []" and "fmlookup (table s) (IP_String p) = None"
  shows "table (fst (remove (fst (add now s p i x)) p)) = table s"
proof -
  have "table (fst (remove (fst (add now s p i x)) p)) =
      fmdrop (IP_String p) (fmupd (IP_String p) (new_entry now p i x) (table s))"
    using add_v4 [OF assms(1), of now s i x] remove_v4 [OF assms(1), of "fst (add now s p i x)"] by simp
  also have "\<dots> = table s" using assms(2) by (auto intro!: fmap_ext)
  finally show ?thesis .
qed

text \<open>The entry of another address is not touched.\<close>

lemma other_untouched:
  assumes "To4 p \<noteq> []" and "To4 q \<noteq> []" and "To4 p \<noteq> To4 q"
  shows "fmlookup (table (fst (add now s p i x))) (IP_String q) = fmlookup (table s) (IP_String q)"
    and "fmlookup (table (fst (remove s p))) (IP_String q) = fmlookup (table s) (IP_String q)"
  using add_v4 [OF assms(1), of now s i x] remove_v4 [OF assms(1), of s] IP_String_inj_v4 [OF assms(1,2)] assms(3)
  by simp_all

text \<open>Programming a list of endpoints leaves an entry for each of them.\<close>

lemma add_all:
  assumes "\<forall>(p, i) \<in> set es. To4 p \<noteq> []" and "distinct (map (To4 \<circ> fst) es)" and "(p, i) \<in> set es"
  shows "\<exists>en. fmlookup (table (foldl (\<lambda>s (p, i). fst (add now s p i 0)) s es)) (IP_String p) = Some en \<and>
    ep_IdentityID en = i"
  using assms
proof (induction es rule: rev_induct)
  case (snoc e es)
  obtain q j where e: "e = (q, j)" by (cases e)
  let ?s = "foldl (\<lambda>s (p, i). fst (add now s p i 0)) s es"
  have q: "To4 q \<noteq> []" using snoc.prems(1) by (simp add: e)
  show ?case
  proof (cases "(p, i) = (q, j)")
    case True
    then show ?thesis using add_v4 [OF q, of now ?s j 0] by (simp add: e new_entry_def)
  next
    case False
    then have m: "(p, i) \<in> set es" using snoc.prems(3) e by auto
    then have "To4 p \<noteq> To4 q" using snoc.prems(2) e by force
    moreover have "To4 p \<noteq> []" using snoc.prems(1) m by auto
    ultimately have "fmlookup (table (fst (add now ?s q j 0))) (IP_String p) = fmlookup (table ?s) (IP_String p)"
      using other_untouched(1) [OF q] by metis
    then show ?thesis using snoc.IH snoc.prems(1,2) m by (simp add: e)
  qed
qed simp

end

interpretation ebpf: endpoint_table ed_AddPodEndpoint ed_RemovePodEndpoint ed_endpoints
  by unfold_locales (simp_all add: ed_AddPodEndpoint_def ed_RemovePodEndpoint_def Let_def)

interpretation iptables: endpoint_table it_AddPodEndpoint it_RemovePodEndpoint it_endpoints
  by unfold_locales (simp_all add: it_AddPodEndpoint_def it_RemovePodEndpoint_def)

interpretation dataplane: endpoint_table dp_AddPodEndpoint dp_RemovePodEndpoint dp_endpoints
proof unfold_locales
  fix p :: ip and now :: gotime and s :: DataPlane and i :: u32 and x :: int
  assume "To4 p \<noteq> []"
  then show "snd (dp_AddPodEndpoint now s p i x) = Ret () \<and>
      dp_endpoints (fst (dp_AddPodEndpoint now s p i x)) = fmupd (IP_String p) (new_entry now p i x) (dp_endpoints s)"
    using ebpf.add_v4 iptables.add_v4 by (cases s) simp_all
next
  fix p :: ip and s :: DataPlane
  assume "To4 p \<noteq> []"
  then show "snd (dp_RemovePodEndpoint s p) = Ret () \<and>
      dp_endpoints (fst (dp_RemovePodEndpoint s p)) = fmdrop (IP_String p) (dp_endpoints s)"
    using ebpf.remove_v4 iptables.remove_v4 by (cases s) simp_all
qed

subsection \<open>The maps the kernel reads\<close>

datatype ed_op =
    OpAddEndpoint gotime ip u32 int
  | OpRemoveEndpoint ip
  | OpUpdateIdentity ip u32

fun ed_step :: "EBPFDataPlane \<Rightarrow> ed_op \<Rightarrow> EBPFDataPlane" where
  "ed_step e (OpAddEndpoint now p i x) = fst (ed_AddPodEndpoint now e p i x)"
| "ed_step e (OpRemoveEndpoint p) = fst (ed_RemovePodEndpoint e p)"
| "ed_step e (OpUpdateIdentity p i) = fst (UpdateIdentity e p i)"

text \<open>The identity last set for the four bytes of an address.\<close>

fun last_identity :: "byte list \<Rightarrow> u32 option \<Rightarrow> ed_op \<Rightarrow> u32 option" where
  "last_identity k o' (OpAddEndpoint now p i x) = (if To4 p = k then Some i else o')"
| "last_identity k o' (OpRemoveEndpoint p) = (if To4 p = k then None else o')"
| "last_identity k o' (OpUpdateIdentity p i) = (if To4 p = k then Some i else o')"

definition maps_loaded :: "EBPFDataPlane \<Rightarrow> bool" where
  "maps_loaded e \<longleftrightarrow> has_map (ed_mapManager e) ''identity_map'' \<and> has_map (ed_mapManager e) ''endpoint_map''"

lemma LoadPrograms_loaded: "maps_loaded (fst (ed_LoadPrograms e))"
  by (auto simp: maps_loaded_def ed_LoadPrograms_def DefaultMaps_def EnsureMap_def has_map_def)

lemma LoadPrograms_entries: "entry (ed_mapManager (fst (ed_LoadPrograms (NewEBPFDataPlane c)))) n k = None"
  by (simp add: ed_LoadPrograms_def NewEBPFDataPlane_def NewMapManager_def DefaultMaps_def EnsureMap_def entry_def)

text \<open>The identity map of the kernel holds what the program's own table holds.\<close>

definition ed_agree :: "EBPFDataPlane \<Rightarrow> bool" where
  "ed_agree e \<longleftrightarrow> maps_loaded e \<and> (\<forall>k. length k = 4 \<longrightarrow>
     entry (ed_mapManager e) ''identity_map'' k = map_option le32 (fmlookup (ed_identityMap e) (be32 k)))"

lemmas ed_op_defs = ed_AddPodEndpoint_def ed_RemovePodEndpoint_def UpdateIdentity_def Let_def case_prod_beta

lemma To4_length: "To4 p \<noteq> [] \<Longrightarrow> length (To4 p) = 4"
  using length_To4 [of p] by auto

lemma ed_step_identityMap:
  assumes "length k = 4"
  shows "fmlookup (ed_identityMap (ed_step e op)) (be32 k) =
    last_identity k (fmlookup (ed_identityMap e) (be32 k)) op"
proof -
  have "k \<noteq> []" using assms by auto
  then show ?thesis using assms by (cases op) (auto simp: ed_op_defs be32_inj To4_length)
qed

lemma ed_step_agree:
  assumes "ed_agree e"
  shows "ed_agree (ed_step e op)"
proof -
  have l: "maps_loaded e" using assms by (simp add: ed_agree_def)
  then have "maps_loaded (ed_step e op)" by (cases op) (auto simp: maps_loaded_def ed_op_defs)
  moreover have "entry (ed_mapManager (ed_step e op)) ''identity_map'' k =
      map_option le32 (last_identity k (fmlookup (ed_identityMap e) (be32 k)) op)" if k: "length k = 4" for k
  proof -
    have "k \<noteq> []" using k by auto
    moreover have "entry (ed_mapManager e) ''identity_map'' k = map_option le32 (fmlookup (ed_identityMap e) (be32 k))"
      using assms k by (simp add: ed_agree_def)
    ultimately show ?thesis
      using l by (cases op) (auto simp: maps_loaded_def ed_op_defs entry_update entry_delete)
  qed
  ultimately show ?thesis by (simp add: ed_agree_def ed_step_identityMap)
qed

interpretation ebpf_maps: machine ed_step ed_agree
  by unfold_locales (rule ed_step_agree)

lemma ed_run_identityMap:
  "length k = 4 \<Longrightarrow> fmlookup (ed_identityMap (foldl ed_step e ops)) (be32 k) =
     foldl (last_identity k) (fmlookup (ed_identityMap e) (be32 k)) ops"
  by (induction ops arbitrary: e) (simp_all add: ed_step_identityMap)

lemma LoadPrograms_agree: "ed_agree (fst (ed_LoadPrograms (NewEBPFDataPlane c)))"
proof -
  have "ed_identityMap (fst (ed_LoadPrograms (NewEBPFDataPlane c))) = fmempty"
    by (simp add: ed_LoadPrograms_def NewEBPFDataPlane_def)
  then show ?thesis by (simp add: ed_agree_def LoadPrograms_loaded LoadPrograms_entries)
qed

subsection \<open>Properties\<close>

text \<open>C20. Once the programs are loaded, the identity map the kernel reads is exact: after any sequence
  of adding and removing endpoints and updating identities, a look-up of an IPv4 address yields the
  little-endian bytes of the identity last set for it, and an error when it was removed last or
  never set; the program's own copy of the map says the same.\<close>

theorem kernel_identity_map_exact:
  assumes "length k = 4"
  shows "LookupMapEntry (ed_mapManager (foldl ed_step (fst (ed_LoadPrograms (NewEBPFDataPlane c))) ops))
      ''identity_map'' k =
    (case foldl (last_identity k) None ops of
       None \<Rightarrow> Err ''key not found in map identity_map'' | Some i \<Rightarrow> Ret (le32 i)) \<and>
    fmlookup (GetIdentityMap (foldl ed_step (fst (ed_LoadPrograms (NewEBPFDataPlane c))) ops)) (be32 k) =
      foldl (last_identity k) None ops"
proof -
  let ?e = "fst (ed_LoadPrograms (NewEBPFDataPlane c))"
  have agree: "ed_agree (foldl ed_step ?e ops)" by (rule ebpf_maps.run_inv [OF LoadPrograms_agree])
  have "fmlookup (ed_identityMap ?e) (be32 k) = None" by (simp add: ed_LoadPrograms_def NewEBPFDataPlane_def)
  then have m: "fmlookup (ed_identityMap (foldl ed_step ?e ops)) (be32 k) = foldl (last_identity k) None ops"
    using ed_run_identityMap [OF assms, of ?e ops] by simp
  then show ?thesis
    using agree assms by (auto simp: ed_agree_def maps_loaded_def LookupMapEntry_eq GetIdentityMap_def split: option.split)
qed

definition ex_ed_ops :: "ed_op list" where
  "ex_ed_ops = [OpAddEndpoint 0 [10, 0, 0, 1] 5 2, OpAddEndpoint 0 (IPv4 10 0 0 2) 6 3,
     OpUpdateIdentity (IPv4 10 0 0 1) 258, OpRemoveEndpoint [10, 0, 0, 2]]"

definition ex_config :: LoaderConfig where
  "ex_config = \<lparr>lc_BPFMountPath = [], lc_ProgramDir = [], lc_PinPath = ''p''\<rparr>"

theorem kernel_identity_map_exact_witness:
  "LookupMapEntry (ed_mapManager (foldl ed_step (fst (ed_LoadPrograms (NewEBPFDataPlane ex_config))) ex_ed_ops))
     ''identity_map'' [10, 0, 0, 1] = Ret [2, 1, 0, 0] \<and>
   LookupMapEntry (ed_mapManager (foldl ed_step (fst (ed_LoadPrograms (NewEBPFDataPlane ex_config))) ex_ed_ops))
     ''identity_map'' [10, 0, 0, 2] = Err ''key not found in map identity_map''"
proof -
  have l: "length [10, 0, 0, 1 :: byte] = 4" "length [10, 0, 0, 2 :: byte] = 4" by simp_all
  have "foldl (last_identity [10, 0, 0, 1]) None ex_ed_ops = Some 258"
    "foldl (last_identity [10, 0, 0, 2]) None ex_ed_ops = None" "le32 258 = [2, 1, 0, 0]" by code_simp+
  then show ?thesis
    using kernel_identity_map_exact [OF l(1), of ex_config ex_ed_ops]
      kernel_identity_map_exact [OF l(2), of ex_config ex_ed_ops] by simp
qed



text \<open>The iptables data plane never removes a rule: after an endpoint was added and removed, the
  forward chain still accepts its address, and every further addition of the same address appends
  the same rule once more.\<close>

lemma iptables_rules_stay:
  "accept_rule p \<in> set (chain_rules (fst (it_RemovePodEndpoint (fst (it_AddPodEndpoint now i p d x)) p))
     ''COORDINO-FORWARD'') \<and>
   count_list (chain_rules (fst (it_AddPodEndpoint now' (fst (it_AddPodEndpoint now i p d x)) p d' x'))
     ''COORDINO-FORWARD'') (accept_rule p) =
   count_list (chain_rules i ''COORDINO-FORWARD'') (accept_rule p) + 2"
  by (simp add: it_RemovePodEndpoint_def it_AddPodEndpoint_def chain_rules_def)

text \<open>Updating an identity reaches only one of the two kernel maps: after an endpoint was added
  and its identity changed, the identity map has the new identity and the endpoint map still the
  old one.\<close>

lemma UpdateIdentity_leaves_endpoint_map:
  assumes "maps_loaded e" and "To4 p \<noteq> []"
  shows "entry (ed_mapManager (fst (UpdateIdentity (fst (ed_AddPodEndpoint now e p i x)) p j)))
      ''identity_map'' (To4 p) = Some (le32 j) \<and>
    entry (ed_mapManager (fst (UpdateIdentity (fst (ed_AddPodEndpoint now e p i x)) p j)))
      ''endpoint_map'' (To4 p) = Some (endpoint_info x i)"
  using assms by (simp add: ed_op_defs maps_loaded_def entry_update)

lemma UpdateIdentity_leaves_endpoint_map_witness:
  "entry (ed_mapManager (fst (UpdateIdentity (fst (ed_AddPodEndpoint 0
       (fst (ed_LoadPrograms (NewEBPFDataPlane ex_config))) [10, 0, 0, 1] 5 2)) [10, 0, 0, 1] 9)))
     ''endpoint_map'' [10, 0, 0, 1] = Some [2, 0, 0, 0, 5, 0, 0, 0, 0, 0, 0, 0, 0, 0, 0, 0]"
proof -
  have t: "To4 [10, 0, 0, 1] \<noteq> []" "To4 [10, 0, 0, 1] = [10, 0, 0, 1]" by code_simp+
  have "endpoint_info 2 5 = [2, 0, 0, 0, 5, 0, 0, 0, 0, 0, 0, 0, 0, 0, 0, 0]" by code_simp
  then show ?thesis
    using UpdateIdentity_leaves_endpoint_map [OF LoadPrograms_loaded t(1), of 0 "NewEBPFDataPlane ex_config" 5 2 9] t(2)
    by simp
qed

end
