(* ===== verification/Sha256.thy ===== *)
theory Sha256
  imports Prelude "HOL-Library.List_Lexorder" "HOL-Library.Char_ord"
begin

text \<open>
  \<^verbatim>\<open>crypto/sha256\<close> as the label hashes of the policy engine use it: the digest of a byte slice
  (FIPS 180-4), and the canonical text of a label set that \<^verbatim>\<open>hashLabels\<close> of
  \<^verbatim>\<open>src/pkg/policy/identity.go\<close> and \<^verbatim>\<open>src/pkg/policy/selector_cache.go\<close> feeds to it. The components take the
  digest as an argument \<open>H\<close>, so that their theorems hold for every digest and say explicitly
  where they rely on the absence of collisions; the program passes \<open>sha256\<close>.

  The lemmas show that two label sets with the same canonical text are equal, provided no key
  has an equals sign and no value has a semicolon, as Kubernetes demands of labels.
\<close>

unbundle bit_operations_syntax

subsection \<open>The digest\<close>

definition sha_K :: "u32 list" where
  "sha_K = [
     1116352408, 1899447441, 3049323471, 3921009573, 961987163, 1508970993,
     2453635748, 2870763221, 3624381080, 310598401, 607225278, 1426881987,
     1925078388, 2162078206, 2614888103, 3248222580, 3835390401, 4022224774,
     264347078, 604807628, 770255983, 1249150122, 1555081692, 1996064986,
     2554220882, 2821834349, 2952996808, 3210313671, 3336571891, 3584528711,
     113926993, 338241895, 666307205, 773529912, 1294757372, 1396182291,
     1695183700, 1986661051, 2177026350, 2456956037, 2730485921, 2820302411,
     3259730800, 3345764771, 3516065817, 3600352804, 4094571909, 275423344,
     430227734, 506948616, 659060556, 883997877, 958139571, 1322822218,
     1537002063, 1747873779, 1955562222, 2024104815, 2227730452, 2361852424,
     2428436474, 2756734187, 3204031479, 3329325298]"

definition sha_init :: "u32 list" where
  "sha_init = [
     1779033703, 3144134277, 1013904242, 2773480762, 1359893119, 2600822924,
     528734635, 1541459225]"

definition rotr :: "nat \<Rightarrow> u32 \<Rightarrow> u32" where
  "rotr n x = drop_bit n x OR push_bit (32 - n) x"

definition be_word :: "byte list \<Rightarrow> u32" where
  "be_word bs = foldl (\<lambda>w b. push_bit 8 w OR ucast b) 0 bs"

fun words_of :: "byte list \<Rightarrow> u32 list" where
  "words_of (a # b # c # d # bs) = be_word [a, b, c, d] # words_of bs"
| "words_of _ = []"

text \<open>Padding: a one bit, zeros, and the length in bits as 64 big-endian bits.\<close>

definition sha_pad :: "byte list \<Rightarrow> byte list" where
  "sha_pad m =
     (let l = length m; z = (119 - l mod 64) mod 64; n = (of_nat l :: 64 word) * 8
      in m @ [0x80] @ replicate z 0 @ map (\<lambda>i. ucast (drop_bit (56 - 8 * i) n)) [0..<8])"

text \<open>The message schedule, kept with the newest word first.\<close>

fun sha_schedule :: "nat \<Rightarrow> u32 list \<Rightarrow> u32 list" where
  "sha_schedule 0 w = w"
| "sha_schedule (Suc n) w =
     (let x = w ! 14; y = w ! 1;
          s0 = rotr 7 x XOR rotr 18 x XOR drop_bit 3 x;
          s1 = rotr 17 y XOR rotr 19 y XOR drop_bit 10 y
      in sha_schedule n ((w ! 15 + s0 + w ! 6 + s1) # w))"

fun sha_round :: "u32 list \<Rightarrow> u32 \<times> u32 \<Rightarrow> u32 list" where
  "sha_round [a, b, c, d, e, f, g, h] (k, w) =
     (let t1 = h + (rotr 6 e XOR rotr 11 e XOR rotr 25 e) + ((e AND f) XOR (NOT e AND g)) + k + w;
          t2 = (rotr 2 a XOR rotr 13 a XOR rotr 22 a) + ((a AND b) XOR (a AND c) XOR (b AND c))
      in [t1 + t2, a, b, c, d + t1, e, f, g])"
| "sha_round st _ = st"

definition sha_block :: "u32 list \<Rightarrow> byte list \<Rightarrow> u32 list" where
  "sha_block st blk =
     (let w = rev (sha_schedule 48 (rev (words_of blk)))
      in map2 (+) st (foldl sha_round st (zip sha_K w)))"

function sha_blocks :: "u32 list \<Rightarrow> byte list \<Rightarrow> u32 list" where
  "sha_blocks st bs = (if bs = [] then st else sha_blocks (sha_block st (take 64 bs)) (drop 64 bs))"
  by pat_completeness auto

termination sha_blocks
  by (relation "measure (\<lambda>(_, bs). length bs)") auto

definition sha256 :: "byte list \<Rightarrow> byte list" where
  "sha256 m = concat (map (\<lambda>w. map (\<lambda>i. ucast (drop_bit (24 - 8 * i) w)) [0..<4])
                          (sha_blocks sha_init (sha_pad m)))"

text \<open>\<^verbatim>\<open>[]byte(s)\<close>.\<close>

definition bytes_of :: "string \<Rightarrow> byte list" where
  "bytes_of s = map of_char s"

subsection \<open>The canonical text of a label set\<close>

text \<open>The keys of a map in the order of \<^verbatim>\<open>sort.Strings\<close>: whatever order the \<^verbatim>\<open>range\<close> collects them
  in, sorting gives this list.\<close>

definition label_keys :: "labels \<Rightarrow> string list" where
  "label_keys ls = sorted_list_of_fset (fmdom ls)"

definition label_value :: "labels \<Rightarrow> string \<Rightarrow> string" where
  "label_value ls k = (case fmlookup ls k of Some v \<Rightarrow> v | None \<Rightarrow> [])"

definition label_text :: "labels \<Rightarrow> string" where
  "label_text ls = concat (map (\<lambda>k. k @ ''='' @ label_value ls k @ '';'') (label_keys ls))"

text \<open>No key has an equals sign, no value a semicolon.\<close>

definition valid_labels :: "labels \<Rightarrow> bool" where
  "valid_labels ls \<longleftrightarrow> fmpred (\<lambda>k v. CHR ''='' \<notin> set k \<and> CHR '';'' \<notin> set v) ls"

lemma sort_range_order: "range_order ls ks \<Longrightarrow> sort ks = label_keys ls"
proof -
  assume r: "range_order ls ks"
  then have "set ks = fset (fmdom ls)" by (metis range_order_def fset_of_list.rep_eq)
  then have "label_keys ls = sorted_list_of_set (set ks)"
    by (simp add: label_keys_def sorted_list_of_fset.rep_eq)
  then show ?thesis
    using range_orderD(1) [OF r] by (metis sorted_list_of_set_sort_remdups distinct_remdups_id)
qed

lemma enc_pairs_inj:
  assumes "\<forall>(k, v) \<in> set ps. CHR ''='' \<notin> set k \<and> CHR '';'' \<notin> set v"
    and "\<forall>(k, v) \<in> set qs. CHR ''='' \<notin> set k \<and> CHR '';'' \<notin> set v"
    and "concat (map (\<lambda>(k, v). k @ ''='' @ v @ '';'') ps) = concat (map (\<lambda>(k, v). k @ ''='' @ v @ '';'') qs)"
  shows "ps = qs"
  using assms
proof (induction ps arbitrary: qs)
  case Nil
  then show ?case by (cases qs) auto
next
  case (Cons p ps)
  obtain k v where p: "p = (k, v)" by (cases p)
  from Cons.prems obtain k' v' qs' where q: "qs = (k', v') # qs'" by (cases qs) (auto simp: p)
  let ?enc = "\<lambda>xs. concat (map (\<lambda>(k, v). k @ ''='' @ v @ '';'') xs)"
  have "k @ CHR ''='' # (v @ CHR '';'' # ?enc ps) = k' @ CHR ''='' # (v' @ CHR '';'' # ?enc qs')"
    using Cons.prems(3) by (simp add: p q)
  then have "k = k'" and v: "v @ CHR '';'' # ?enc ps = v' @ CHR '';'' # ?enc qs'"
    using append_sep_eq [of "CHR ''=''" k k'] Cons.prems(1,2) by (auto simp: p q)
  from v have "v = v'" and e: "?enc ps = ?enc qs'"
    using append_sep_eq [of "CHR '';''" v v'] Cons.prems(1,2) by (auto simp: p q)
  have "ps = qs'" by (rule Cons.IH [OF _ _ e]) (use Cons.prems(1,2) in \<open>simp_all add: p q\<close>)
  with \<open>k = k'\<close> \<open>v = v'\<close> show ?case by (simp add: p q)
qed

lemma label_text_pairs:
  "label_text ls = concat (map (\<lambda>(k, v). k @ ''='' @ v @ '';'')
     (map (\<lambda>k. (k, label_value ls k)) (label_keys ls)))"
  by (simp add: label_text_def comp_def)

lemma set_label_keys: "set (label_keys ls) = fset (fmdom ls)"
  by (simp add: label_keys_def)

lemma label_text_inj:
  assumes "valid_labels a" and "valid_labels b" and "label_text a = label_text b"
  shows "a = b"
proof -
  have ok: "\<forall>(k, v) \<in> set (map (\<lambda>k. (k, label_value ls k)) (label_keys ls)).
      CHR ''='' \<notin> set k \<and> CHR '';'' \<notin> set v" if "valid_labels ls" for ls
    using that by (auto simp: valid_labels_def set_label_keys label_value_def fmlookup_dom_iff fmpred_iff)
  have ps: "map (\<lambda>k. (k, label_value a k)) (label_keys a) = map (\<lambda>k. (k, label_value b k)) (label_keys b)"
    (is "?A = ?B")
    by (rule enc_pairs_inj [OF ok [OF assms(1)] ok [OF assms(2)]])
       (use assms(3) in \<open>simp only: label_text_pairs\<close>)
  have map_of: "fmlookup ls = map_of (map (\<lambda>k. (k, label_value ls k)) (label_keys ls))" for ls
    by (rule ext)
       (auto simp: map_of_map_restrict set_label_keys label_value_def restrict_map_def fmlookup_dom_iff
         split: option.splits)
  show ?thesis by (rule fmap_ext) (metis map_of ps)
qed

text \<open>What the code relies on from the digest: no two of the texts hashed so far collide, and a
  digest is not empty.\<close>

definition collision_free :: "(byte list \<Rightarrow> byte list) \<Rightarrow> labels set \<Rightarrow> bool" where
  "collision_free H X \<longleftrightarrow>
     (\<forall>a \<in> X. valid_labels a \<and> H (bytes_of (label_text a)) \<noteq> [] \<and>
       (\<forall>b \<in> X. H (bytes_of (label_text a)) = H (bytes_of (label_text b)) \<longrightarrow>
          bytes_of (label_text a) = bytes_of (label_text b)))"

lemma bytes_of_inj: "bytes_of a = bytes_of b \<longleftrightarrow> a = b"
proof -
  have "inj (of_char :: char \<Rightarrow> byte)"
  proof (rule injI)
    fix c d :: char assume "(of_char c :: byte) = of_char d"
    moreover have "unat (of_char x :: byte) = of_char x" for x
    proof -
      have "unat (of_nat (of_char x) :: byte) = of_char x"
        by (simp only: unsigned_of_nat take_bit_eq_mod) simp
      then show ?thesis by (simp add: of_nat_of_char)
    qed
    ultimately have "(of_char c :: nat) = of_char d" by metis
    then show "c = d" by simp
  qed
  then show ?thesis unfolding bytes_of_def by (simp add: inj_map_eq_map)
qed

lemma collision_freeD:
  assumes "collision_free H X" and "a \<in> X" and "b \<in> X"
  shows "hex_bytes (H (bytes_of (label_text a))) = hex_bytes (H (bytes_of (label_text b))) \<longleftrightarrow> a = b"
  using assms label_text_inj unfolding collision_free_def hex_bytes_inj by (metis bytes_of_inj)

lemma collision_free_nonempty:
  "collision_free H X \<Longrightarrow> a \<in> X \<Longrightarrow> hex_bytes (H (bytes_of (label_text a))) \<noteq> []"
  by (cases "H (bytes_of (label_text a))") (auto simp: collision_free_def)

end
