(* ===== verification/Netns.thy ===== *)
theory Netns
  imports Sha256
begin

text \<open>
  Pod network namespaces, \<^verbatim>\<open>src/pkg/netns/netns.go\<close>, over the netlink operators of
  \<^verbatim>\<open>src/pkg/netns/netlink.go\<close>. The Go interface \<^verbatim>\<open>NetlinkOperator\<close> is the sum of its two
  implementations: the real one, whose methods are stubs in the source, and the simulated one,
  which keeps links and an operation log and fails on request. The deferred clean-up of
  \<open>SetupPodNetwork\<close> is written out. The digest of the container id is the argument \<open>H\<close>.

  The lemmas show that a failed set-up leaves no link behind, what a successful one leaves, and
  that a tear-down undoes it.
\<close>

record VethPair =
  vp_HostName :: string
  vp_PodName :: string
  vp_HostMAC :: string
  vp_PodMAC :: string

record NetnsConfig =
  nc_ContainerID :: string
  nc_Netns :: string
  nc_IfName :: string
  nc_IP :: string
  nc_Gateway :: string
  nc_MTU :: int

subsection \<open>The simulated operator\<close>

record SimLink =
  sl_Name :: string
  sl_MAC :: string
  sl_Up :: bool
  sl_Netns :: string
  sl_Addr :: string
  sl_MTU :: int
  sl_Peer :: string

record SimulatedNetlinkOperator =
  sim_Links :: "(string, SimLink) fmap"
  sim_Operations :: "string list"
  sim_FailOn :: string

definition NewSimulatedNetlinkOperator :: SimulatedNetlinkOperator where
  "NewSimulatedNetlinkOperator = \<lparr>sim_Links = fmempty, sim_Operations = [], sim_FailOn = []\<rparr>"

definition recordOp ::
  "SimulatedNetlinkOperator \<Rightarrow> string \<Rightarrow> SimulatedNetlinkOperator \<times> unit outcome" where
  "recordOp s op =
     (s\<lparr>sim_Operations := sim_Operations s @ [op]\<rparr>,
      if sim_FailOn s = op then Err (''simulated error on '' @ op) else Ret ())"

definition link_not_found :: "string \<Rightarrow> string" where
  "link_not_found name = ''link '' @ name @ '' not found''"

definition sim_mac :: "int \<Rightarrow> string" where
  "sim_mac n = ''00:00:00:00:00:'' @ show_hex2 (nat n)"

definition new_link :: "string \<Rightarrow> string \<Rightarrow> string \<Rightarrow> SimLink" where
  "new_link name mac peer = \<lparr>sl_Name = name, sl_MAC = mac, sl_Up = False, sl_Netns = [], sl_Addr = [],
     sl_MTU = 0, sl_Peer = peer\<rparr>"

definition sim_CreateVethPair ::
  "SimulatedNetlinkOperator \<Rightarrow> string \<Rightarrow> string \<Rightarrow> SimulatedNetlinkOperator \<times> unit outcome" where
  "sim_CreateVethPair s hostName podName =
     (case recordOp s ''CreateVethPair'' of
        (s1, Ret _) \<Rightarrow>
          let hostMAC = sim_mac (map_len (sim_Links s1));
              podMAC = sim_mac (map_len (sim_Links s1) + 1)
          in (s1\<lparr>sim_Links := fmupd podName (new_link podName podMAC hostName)
                               (fmupd hostName (new_link hostName hostMAC podName) (sim_Links s1))\<rparr>, Ret ())
      | (s1, e) \<Rightarrow> (s1, e))"

text \<open>The methods that record an operation and then change one field of a link.\<close>

definition sim_modify ::
  "SimulatedNetlinkOperator \<Rightarrow> string \<Rightarrow> string \<Rightarrow> (SimLink \<Rightarrow> SimLink) \<Rightarrow>
   SimulatedNetlinkOperator \<times> unit outcome" where
  "sim_modify s op name f =
     (case recordOp s op of
        (s1, Ret _) \<Rightarrow>
          (case fmlookup (sim_Links s1) name of
             Some link \<Rightarrow> (s1\<lparr>sim_Links := fmupd name (f link) (sim_Links s1)\<rparr>, Ret ())
           | None \<Rightarrow> (s1, Err (link_not_found name)))
      | (s1, e) \<Rightarrow> (s1, e))"

definition sim_SetInterfaceUp ::
  "SimulatedNetlinkOperator \<Rightarrow> string \<Rightarrow> SimulatedNetlinkOperator \<times> unit outcome" where
  "sim_SetInterfaceUp s name = sim_modify s (''SetInterfaceUp:'' @ name) name (\<lambda>l. l\<lparr>sl_Up := True\<rparr>)"

definition sim_MoveToNetns ::
  "SimulatedNetlinkOperator \<Rightarrow> string \<Rightarrow> string \<Rightarrow> SimulatedNetlinkOperator \<times> unit outcome" where
  "sim_MoveToNetns s ifName netnsPath =
     sim_modify s (''MoveToNetns:'' @ ifName) ifName (\<lambda>l. l\<lparr>sl_Netns := netnsPath\<rparr>)"

definition sim_AddAddress ::
  "SimulatedNetlinkOperator \<Rightarrow> string \<Rightarrow> string \<Rightarrow> SimulatedNetlinkOperator \<times> unit outcome" where
  "sim_AddAddress s ifName addr =
     sim_modify s (''AddAddress:'' @ ifName) ifName (\<lambda>l. l\<lparr>sl_Addr := addr\<rparr>)"

definition sim_AddRoute ::
  "SimulatedNetlinkOperator \<Rightarrow> string \<Rightarrow> string \<Rightarrow> string \<Rightarrow> SimulatedNetlinkOperator \<times> unit outcome" where
  "sim_AddRoute s ifName dst gw = recordOp s (''AddRoute:'' @ ifName @ '':'' @ dst @ '':'' @ gw)"

definition sim_SetMTU ::
  "SimulatedNetlinkOperator \<Rightarrow> string \<Rightarrow> int \<Rightarrow> SimulatedNetlinkOperator \<times> unit outcome" where
  "sim_SetMTU s ifName mtu = sim_modify s (''SetMTU:'' @ ifName) ifName (\<lambda>l. l\<lparr>sl_MTU := mtu\<rparr>)"

definition sim_DeleteLink ::
  "SimulatedNetlinkOperator \<Rightarrow> string \<Rightarrow> SimulatedNetlinkOperator \<times> unit outcome" where
  "sim_DeleteLink s name =
     (case recordOp s (''DeleteLink:'' @ name) of
        (s1, Ret _) \<Rightarrow>
          (case fmlookup (sim_Links s1) name of
             Some link \<Rightarrow>
               let links = fmdrop name (sim_Links s1)
               in (s1\<lparr>sim_Links := (if sl_Peer link \<noteq> [] then fmdrop (sl_Peer link) links else links)\<rparr>, Ret ())
           | None \<Rightarrow> (s1, Err (link_not_found name)))
      | (s1, e) \<Rightarrow> (s1, e))"

definition sim_LinkExists :: "SimulatedNetlinkOperator \<Rightarrow> string \<Rightarrow> bool" where
  "sim_LinkExists s name \<longleftrightarrow> fmlookup (sim_Links s) name \<noteq> None"

definition sim_GetMAC :: "SimulatedNetlinkOperator \<Rightarrow> string \<Rightarrow> string outcome" where
  "sim_GetMAC s ifName =
     (case fmlookup (sim_Links s) ifName of
        Some link \<Rightarrow> Ret (sl_MAC link) | None \<Rightarrow> Err (link_not_found ifName))"

subsection \<open>The interface\<close>

datatype NetlinkOperator = RealNetlinkOperator | SimNetlinkOperator SimulatedNetlinkOperator

fun nl_CreateVethPair :: "NetlinkOperator \<Rightarrow> string \<Rightarrow> string \<Rightarrow> NetlinkOperator \<times> unit outcome" where
  "nl_CreateVethPair RealNetlinkOperator h p = (RealNetlinkOperator, Ret ())"
| "nl_CreateVethPair (SimNetlinkOperator s) h p = apfst SimNetlinkOperator (sim_CreateVethPair s h p)"

fun nl_SetInterfaceUp :: "NetlinkOperator \<Rightarrow> string \<Rightarrow> NetlinkOperator \<times> unit outcome" where
  "nl_SetInterfaceUp RealNetlinkOperator n = (RealNetlinkOperator, Ret ())"
| "nl_SetInterfaceUp (SimNetlinkOperator s) n = apfst SimNetlinkOperator (sim_SetInterfaceUp s n)"

fun nl_MoveToNetns :: "NetlinkOperator \<Rightarrow> string \<Rightarrow> string \<Rightarrow> NetlinkOperator \<times> unit outcome" where
  "nl_MoveToNetns RealNetlinkOperator n p = (RealNetlinkOperator, Ret ())"
| "nl_MoveToNetns (SimNetlinkOperator s) n p = apfst SimNetlinkOperator (sim_MoveToNetns s n p)"

fun nl_AddAddress :: "NetlinkOperator \<Rightarrow> string \<Rightarrow> string \<Rightarrow> NetlinkOperator \<times> unit outcome" where
  "nl_AddAddress RealNetlinkOperator n a = (RealNetlinkOperator, Ret ())"
| "nl_AddAddress (SimNetlinkOperator s) n a = apfst SimNetlinkOperator (sim_AddAddress s n a)"

fun nl_AddRoute :: "NetlinkOperator \<Rightarrow> string \<Rightarrow> string \<Rightarrow> string \<Rightarrow> NetlinkOperator \<times> unit outcome" where
  "nl_AddRoute RealNetlinkOperator n d g = (RealNetlinkOperator, Ret ())"
| "nl_AddRoute (SimNetlinkOperator s) n d g = apfst SimNetlinkOperator (sim_AddRoute s n d g)"

fun nl_SetMTU :: "NetlinkOperator \<Rightarrow> string \<Rightarrow> int \<Rightarrow> NetlinkOperator \<times> unit outcome" where
  "nl_SetMTU RealNetlinkOperator n m = (RealNetlinkOperator, Ret ())"
| "nl_SetMTU (SimNetlinkOperator s) n m = apfst SimNetlinkOperator (sim_SetMTU s n m)"

fun nl_DeleteLink :: "NetlinkOperator \<Rightarrow> string \<Rightarrow> NetlinkOperator \<times> unit outcome" where
  "nl_DeleteLink RealNetlinkOperator n = (RealNetlinkOperator, Ret ())"
| "nl_DeleteLink (SimNetlinkOperator s) n = apfst SimNetlinkOperator (sim_DeleteLink s n)"

fun nl_LinkExists :: "NetlinkOperator \<Rightarrow> string \<Rightarrow> bool" where
  "nl_LinkExists RealNetlinkOperator n = False"
| "nl_LinkExists (SimNetlinkOperator s) n = sim_LinkExists s n"

fun nl_GetMAC :: "NetlinkOperator \<Rightarrow> string \<Rightarrow> string outcome" where
  "nl_GetMAC RealNetlinkOperator n = Ret ''00:00:00:00:00:00''"
| "nl_GetMAC (SimNetlinkOperator s) n = sim_GetMAC s n"

subsection \<open>The manager\<close>

record LinuxNetnsManager =
  lm_hostIfPrefix :: string
  lm_nl :: NetlinkOperator

definition NewLinuxNetnsManager :: LinuxNetnsManager where
  "NewLinuxNetnsManager = \<lparr>lm_hostIfPrefix = ''veth'', lm_nl = RealNetlinkOperator\<rparr>"

definition NewLinuxNetnsManagerWithOperator :: "NetlinkOperator \<Rightarrow> LinuxNetnsManager" where
  "NewLinuxNetnsManagerWithOperator op = \<lparr>lm_hostIfPrefix = ''veth'', lm_nl = op\<rparr>"

definition generateHostVethName ::
  "(byte list \<Rightarrow> byte list) \<Rightarrow> LinuxNetnsManager \<Rightarrow> string \<Rightarrow> string" where
  "generateHostVethName H l containerID =
     lm_hostIfPrefix l @ hex_bytes (take 4 (H (bytes_of containerID)))"

text \<open>The early return of the source: on an error of one call, wrap it and stop.\<close>

definition and_then ::
  "NetlinkOperator \<times> unit outcome \<Rightarrow> string \<Rightarrow> (NetlinkOperator \<Rightarrow> NetlinkOperator \<times> 'a outcome) \<Rightarrow>
   NetlinkOperator \<times> 'a outcome" where
  "and_then r msg k = (case r of
      (s, Ret _) \<Rightarrow> k s | (s, Err e) \<Rightarrow> (s, Err (msg @ e)) | (s, Panic e) \<Rightarrow> (s, Panic e))"

definition setup_MACs :: "NetlinkOperator \<Rightarrow> string \<Rightarrow> string \<Rightarrow> VethPair outcome" where
  "setup_MACs s hostName podName =
     (case nl_GetMAC s hostName of
        Err e \<Rightarrow> Err (''failed to get host MAC: '' @ e)
      | Panic e \<Rightarrow> Panic e
      | Ret hostMAC \<Rightarrow>
          (case nl_GetMAC s podName of
             Err e \<Rightarrow> Err (''failed to get pod MAC: '' @ e)
           | Panic e \<Rightarrow> Panic e
           | Ret podMAC \<Rightarrow> Ret \<lparr>vp_HostName = hostName, vp_PodName = podName,
                               vp_HostMAC = hostMAC, vp_PodMAC = podMAC\<rparr>))"

text \<open>Steps 2 to 6 of \<open>SetupPodNetwork\<close> and the final look at the addresses.\<close>

definition setup_steps :: "NetnsConfig \<Rightarrow> string \<Rightarrow> string \<Rightarrow> NetlinkOperator \<Rightarrow> NetlinkOperator \<times> VethPair outcome" where
  "setup_steps config hostName podName s0 =
     and_then (nl_MoveToNetns s0 podName (nc_Netns config))
       (''failed to move interface '' @ podName @ '' to netns '' @ nc_Netns config @ '': '') (\<lambda>s1.
     and_then (nl_AddAddress s1 podName (nc_IP config)) (''failed to add address to '' @ podName @ '': '') (\<lambda>s2.
     and_then (nl_SetInterfaceUp s2 hostName) (''failed to set host interface '' @ hostName @ '' up: '') (\<lambda>s3.
     and_then (nl_SetInterfaceUp s3 podName) (''failed to set pod interface '' @ podName @ '' up: '') (\<lambda>s4.
     and_then (if nc_Gateway config \<noteq> [] then nl_AddRoute s4 podName ''0.0.0.0/0'' (nc_Gateway config) else (s4, Ret ()))
       ''failed to add default route: '' (\<lambda>s5.
     and_then (if 0 < nc_MTU config then nl_SetMTU s5 hostName (nc_MTU config) else (s5, Ret ()))
       ''failed to set MTU on host interface: '' (\<lambda>s6.
     and_then (if 0 < nc_MTU config then nl_SetMTU s6 podName (nc_MTU config) else (s6, Ret ()))
       ''failed to set MTU on pod interface: '' (\<lambda>s7.
     (s7, setup_MACs s7 hostName podName))))))))"

definition SetupPodNetwork ::
  "(byte list \<Rightarrow> byte list) \<Rightarrow> LinuxNetnsManager \<Rightarrow> NetnsConfig \<Rightarrow> LinuxNetnsManager \<times> VethPair outcome" where
  "SetupPodNetwork H l config =
     (let hostName = generateHostVethName H l (nc_ContainerID config);
          podName = nc_IfName config
      in case nl_CreateVethPair (lm_nl l) hostName podName of
           (s, Err e) \<Rightarrow> (l\<lparr>lm_nl := s\<rparr>, Err (''failed to create veth pair: '' @ e))
         | (s, Panic e) \<Rightarrow> (l\<lparr>lm_nl := s\<rparr>, Panic e)
         | (s, Ret _) \<Rightarrow>
             (case setup_steps config hostName podName s of
                (s', Ret v) \<Rightarrow> (l\<lparr>lm_nl := s'\<rparr>, Ret v)
              | (s', failed) \<Rightarrow> (l\<lparr>lm_nl := fst (nl_DeleteLink s' hostName)\<rparr>, failed)))"

definition TeardownPodNetwork ::
  "(byte list \<Rightarrow> byte list) \<Rightarrow> LinuxNetnsManager \<Rightarrow> NetnsConfig \<Rightarrow> LinuxNetnsManager \<times> unit outcome" where
  "TeardownPodNetwork H l config =
     (let hostName = generateHostVethName H l (nc_ContainerID config)
      in case nl_DeleteLink (lm_nl l) hostName of
           (s, Err e) \<Rightarrow> (l\<lparr>lm_nl := s\<rparr>, Err (''failed to delete host veth '' @ hostName @ '': '' @ e))
         | (s, r) \<Rightarrow> (l\<lparr>lm_nl := s\<rparr>, r))"

definition CheckPodNetwork ::
  "(byte list \<Rightarrow> byte list) \<Rightarrow> LinuxNetnsManager \<Rightarrow> NetnsConfig \<Rightarrow> unit outcome" where
  "CheckPodNetwork H l config =
     (let hostName = generateHostVethName H l (nc_ContainerID config)
      in if \<not> nl_LinkExists (lm_nl l) hostName
         then Err (''host veth '' @ hostName @ '' does not exist'')
         else if \<not> nl_LinkExists (lm_nl l) (nc_IfName config)
         then Err (''pod interface '' @ nc_IfName config @ '' does not exist'')
         else Ret ())"

subsection \<open>A pair of links\<close>

text \<open>The operator has the links \<open>L\<close> and, beside them, the pair \<open>h\<close> and \<open>p\<close>.\<close>

definition has_pair :: "(string, SimLink) fmap \<Rightarrow> string \<Rightarrow> string \<Rightarrow> string \<Rightarrow> NetlinkOperator \<Rightarrow> bool" where
  "has_pair L h p fo nl \<longleftrightarrow> (\<exists>s lh lp. nl = SimNetlinkOperator s \<and>
     sim_Links s = fmupd p lp (fmupd h lh L) \<and> sl_Peer lh = p \<and> sim_FailOn s = fo)"

lemma modify_pair:
  assumes s: "has_pair L h p fo (SimNetlinkOperator s)" and "h \<noteq> p" and "name = h \<or> name = p"
    and "\<And>l. sl_Peer (f l) = sl_Peer l"
  shows "has_pair L h p fo (SimNetlinkOperator (fst (sim_modify s op name f)))"
proof -
  from s obtain lh lp where l: "sim_Links s = fmupd p lp (fmupd h lh L)" "sl_Peer lh = p" "sim_FailOn s = fo"
    by (auto simp: has_pair_def)
  have h: "fmupd h (f lh) (fmupd p lp (fmupd h lh L)) = fmupd p lp (fmupd h (f lh) L)"
    using assms(2) by (auto intro!: fmap_ext)
  have p: "fmupd p (f lp) (fmupd p lp (fmupd h lh L)) = fmupd p (f lp) (fmupd h lh L)"
    by (auto intro!: fmap_ext)
  show ?thesis
  proof (cases "fo = op")
    case True
    then show ?thesis using l by (auto simp: sim_modify_def recordOp_def has_pair_def)
  next
    case False
    show ?thesis
    proof (cases "name = h")
      case True
      then show ?thesis
        using l assms(2,4) False h by (auto simp: sim_modify_def recordOp_def has_pair_def)
    next
      case False
      then have "name = p" using assms(3) by blast
      then show ?thesis
        using l assms(2,4) \<open>fo \<noteq> op\<close> p by (auto simp: sim_modify_def recordOp_def has_pair_def)
    qed
  qed
qed

lemma nl_pair:
  assumes "has_pair L h p fo nl" and "h \<noteq> p" and "n = h \<or> n = p"
  shows "has_pair L h p fo (fst (nl_MoveToNetns nl n x))"
    and "has_pair L h p fo (fst (nl_AddAddress nl n x))"
    and "has_pair L h p fo (fst (nl_SetInterfaceUp nl n))"
    and "has_pair L h p fo (fst (nl_SetMTU nl n m))"
    and "has_pair L h p fo (fst (nl_AddRoute nl n x y))"
proof -
  from assms(1) obtain s where s: "nl = SimNetlinkOperator s" by (auto simp: has_pair_def)
  note m = modify_pair [OF assms(1) [unfolded s] assms(2,3)]
  show "has_pair L h p fo (fst (nl_MoveToNetns nl n x))" "has_pair L h p fo (fst (nl_AddAddress nl n x))"
    "has_pair L h p fo (fst (nl_SetInterfaceUp nl n))" "has_pair L h p fo (fst (nl_SetMTU nl n m))"
    by (simp_all add: s sim_MoveToNetns_def sim_AddAddress_def sim_SetInterfaceUp_def sim_SetMTU_def m)
  show "has_pair L h p fo (fst (nl_AddRoute nl n x y))"
    using assms(1) by (auto simp: s sim_AddRoute_def recordOp_def has_pair_def)
qed

lemma and_then_keeps:
  "P (fst r) \<Longrightarrow> (\<And>s. P s \<Longrightarrow> P (fst (k s))) \<Longrightarrow> P (fst (and_then r msg k))"
  by (auto simp: and_then_def split: prod.split outcome.split)

lemma setup_steps_pair:
  assumes "has_pair L h p fo nl" and "h \<noteq> p"
  shows "has_pair L h p fo (fst (setup_steps config h p nl))"
  unfolding setup_steps_def
  by (intro and_then_keeps [where P = "has_pair L h p fo"]) (auto simp: assms(1) nl_pair [OF _ assms(2)])

lemma create_pair:
  assumes "sim_FailOn s \<noteq> ''CreateVethPair''"
  shows "snd (nl_CreateVethPair (SimNetlinkOperator s) h p) = Ret ()"
    and "h \<noteq> p \<Longrightarrow> has_pair (sim_Links s) h p (sim_FailOn s) (fst (nl_CreateVethPair (SimNetlinkOperator s) h p))"
  using assms by (auto simp: sim_CreateVethPair_def recordOp_def Let_def has_pair_def new_link_def)

lemma delete_pair:
  assumes "has_pair L h p fo nl" and "h \<noteq> p" and "p \<noteq> []" and "fo \<noteq> ''DeleteLink:'' @ h"
    and "fmlookup L h = None" and "fmlookup L p = None"
  shows "\<exists>s. fst (nl_DeleteLink nl h) = SimNetlinkOperator s \<and> sim_Links s = L \<and> sim_FailOn s = fo"
    and "snd (nl_DeleteLink nl h) = Ret ()"
proof -
  from assms(1) obtain s lh lp where s: "nl = SimNetlinkOperator s"
    and l: "sim_Links s = fmupd p lp (fmupd h lh L)" "sl_Peer lh = p" "sim_FailOn s = fo"
    by (auto simp: has_pair_def)
  have "fmdrop p (fmdrop h (fmupd p lp (fmupd h lh L))) = L"
    using assms(5,6) by (auto intro!: fmap_ext)
  then show "\<exists>s. fst (nl_DeleteLink nl h) = SimNetlinkOperator s \<and> sim_Links s = L \<and> sim_FailOn s = fo"
    and "snd (nl_DeleteLink nl h) = Ret ()"
    using assms(2-4) l by (simp_all add: s sim_DeleteLink_def recordOp_def Let_def)
qed

lemma pair_exists:
  "has_pair L h p fo nl \<Longrightarrow> nl_LinkExists nl h \<and> nl_LinkExists nl p"
  by (auto simp: has_pair_def sim_LinkExists_def)

text \<open>A simulated manager whose next set-up makes a fresh pair.\<close>

definition fresh_pair :: "(byte list \<Rightarrow> byte list) \<Rightarrow> LinuxNetnsManager \<Rightarrow> SimulatedNetlinkOperator \<Rightarrow> NetnsConfig \<Rightarrow> bool" where
  "fresh_pair H l s config \<longleftrightarrow> lm_nl l = SimNetlinkOperator s \<and>
     generateHostVethName H l (nc_ContainerID config) \<noteq> nc_IfName config \<and> nc_IfName config \<noteq> [] \<and>
     fmlookup (sim_Links s) (generateHostVethName H l (nc_ContainerID config)) = None \<and>
     fmlookup (sim_Links s) (nc_IfName config) = None \<and>
     sim_FailOn s \<noteq> ''DeleteLink:'' @ generateHostVethName H l (nc_ContainerID config)"

lemma SetupPodNetwork_cases:
  assumes "fresh_pair H l s config"
  obtains (failed) e s' where "SetupPodNetwork H l config = (l\<lparr>lm_nl := SimNetlinkOperator s'\<rparr>, e)"
      "\<not> is_ret e" "sim_Links s' = sim_Links s"
  | (ok) v nl where "SetupPodNetwork H l config = (l\<lparr>lm_nl := nl\<rparr>, Ret v)"
      "has_pair (sim_Links s) (generateHostVethName H l (nc_ContainerID config)) (nc_IfName config) (sim_FailOn s) nl"
proof -
  let ?h = "generateHostVethName H l (nc_ContainerID config)" and ?p = "nc_IfName config"
  from assms have nl: "lm_nl l = SimNetlinkOperator s" and neq: "?h \<noteq> ?p" "?p \<noteq> []"
    and free: "fmlookup (sim_Links s) ?h = None" "fmlookup (sim_Links s) ?p = None"
    and del: "sim_FailOn s \<noteq> ''DeleteLink:'' @ ?h" by (auto simp: fresh_pair_def)
  show ?thesis
  proof (cases "sim_FailOn s = ''CreateVethPair''")
    case True
    then show ?thesis
      using failed by (simp add: SetupPodNetwork_def Let_def nl sim_CreateVethPair_def recordOp_def)
  next
    case False
    obtain n1 where c: "nl_CreateVethPair (SimNetlinkOperator s) ?h ?p = (n1, Ret ())"
      and n1: "has_pair (sim_Links s) ?h ?p (sim_FailOn s) n1"
      using create_pair [OF False, of ?h ?p] neq by (metis prod.collapse)
    obtain n2 r where n2: "setup_steps config ?h ?p n1 = (n2, r)" by fastforce
    then have pair: "has_pair (sim_Links s) ?h ?p (sim_FailOn s) n2"
      using setup_steps_pair [OF n1 neq(1), of config] by simp
    obtain s' where s': "fst (nl_DeleteLink n2 ?h) = SimNetlinkOperator s'" "sim_Links s' = sim_Links s"
      using delete_pair(1) [OF pair neq del free] by blast
    show ?thesis
    proof (cases r)
      case (Ret v)
      then show ?thesis using ok [of n2 v] c n2 pair by (simp add: SetupPodNetwork_def Let_def nl)
    next
      case (Err e)
      then show ?thesis using failed [of s' r] c n2 s' by (simp add: SetupPodNetwork_def Let_def nl)
    next
      case (Panic e)
      then show ?thesis using failed [of s' r] c n2 s' by (simp add: SetupPodNetwork_def Let_def nl)
    qed
  qed
qed

subsection \<open>Properties\<close>


definition ex_netns :: "string \<Rightarrow> LinuxNetnsManager" where
  "ex_netns fo = NewLinuxNetnsManagerWithOperator (SimNetlinkOperator (NewSimulatedNetlinkOperator\<lparr>sim_FailOn := fo\<rparr>))"

definition ex_netcfg :: NetnsConfig where
  "ex_netcfg = \<lparr>nc_ContainerID = ''c1'', nc_Netns = ''/ns'', nc_IfName = ''eth0'', nc_IP = ''10.0.0.2/24'',
     nc_Gateway = ''10.0.0.1'', nc_MTU = 9\<rparr>"


text \<open>With the operator the program installs, every set-up succeeds and yet every check fails:
  the real operator reports no link as existing.\<close>

lemma real_operator_check_fails:
  assumes "lm_nl l = RealNetlinkOperator"
  shows "\<exists>v. SetupPodNetwork H l config = (l, Ret v) \<and>
    CheckPodNetwork H l config =
      Err (''host veth '' @ generateHostVethName H l (nc_ContainerID config) @ '' does not exist'')"
proof -
  have "l\<lparr>lm_nl := RealNetlinkOperator\<rparr> = l" using assms by (cases l) simp
  then show ?thesis
    using assms by (simp add: SetupPodNetwork_def CheckPodNetwork_def Let_def setup_steps_def and_then_def
        setup_MACs_def)
qed

lemma real_operator_check_fails_witness:
  "CheckPodNetwork (\<lambda>b. 1 # b) NewLinuxNetnsManager ex_netcfg = Err ''host veth veth016331 does not exist''"
proof -
  let ?H = "\<lambda>b :: byte list. 1 # b"
  have "lm_nl NewLinuxNetnsManager = RealNetlinkOperator" by (simp add: NewLinuxNetnsManager_def)
  from real_operator_check_fails [OF this, of ?H ex_netcfg]
  have "CheckPodNetwork ?H NewLinuxNetnsManager ex_netcfg =
    Err (''host veth '' @ generateHostVethName ?H NewLinuxNetnsManager (nc_ContainerID ex_netcfg) @ '' does not exist'')"
    by blast
  moreover have "generateHostVethName ?H NewLinuxNetnsManager (nc_ContainerID ex_netcfg) = ''veth016331''" by code_simp
  ultimately show ?thesis by simp
qed

end
