(* ===== verification/Routing.thy ===== *)
theory Routing
  imports Prelude
begin

text \<open>
  The routing back ends, \<^verbatim>\<open>src/pkg/routing/routing.go\<close>, \<^verbatim>\<open>bgp.go\<close> and \<^verbatim>\<open>vxlan.go\<close>: both keep the nodes of the
  cluster by name and the routes by destination network. The Go interface \<^verbatim>\<open>RoutingBackend\<close> is
  the sum of the two. The order in which a \<^verbatim>\<open>range\<close> visits a map is an argument where it shows in
  the result. The locale \<open>route_table\<close> states what a client may rely on; both back ends and the sum
  interpret it.

  The lemmas show that a reconciliation installs exactly the wanted routes as long as no known
  node changes its network, and what goes wrong when one does.
\<close>

type_synonym Mode = string

definition ModeBGP :: Mode where "ModeBGP = ''bgp''"
definition ModeVXLAN :: Mode where "ModeVXLAN = ''vxlan''"
definition ModeCloudVPC :: Mode where "ModeCloudVPC = ''cloud-vpc''"

record PodRoute =
  rt_DestCIDR :: string
  rt_NextHop :: string
  rt_NodeName :: string
  rt_Interface :: string

record NodeInfo =
  ni_Name :: string
  ni_PodCIDR :: string
  ni_NodeIP :: string
  ni_PublicIP :: string

text \<open>The map \<open>newNodeMap\<close> of both \<open>SyncRoutes\<close>: the last node of each name, the local one left out.\<close>

fun node_map :: "string \<Rightarrow> NodeInfo list \<Rightarrow> (string, NodeInfo) fmap \<Rightarrow> (string, NodeInfo) fmap" where
  "node_map local [] m = m"
| "node_map local (n # ns) m = node_map local ns (if ni_Name n = local then m else fmupd (ni_Name n) n m)"

subsection \<open>BGP\<close>

record BGPConfig =
  bc_LocalASN :: u32
  bc_RouterID :: string
  bc_PeerASN :: u32
  bc_PeerAddress :: string
  bc_HoldTime :: int

record BGPPeer =
  bp_NodeInfo :: NodeInfo
  bp_State :: string
  bp_Uptime :: gotime
  bp_RoutesRx :: int
  bp_RoutesTx :: int

record BGPBackend =
  bb_config :: BGPConfig
  bb_localNode :: NodeInfo
  bb_peers :: "(string, BGPPeer) fmap"
  bb_routes :: "(string, PodRoute) fmap"
  bb_running :: bool

definition no_node :: NodeInfo where
  "no_node = \<lparr>ni_Name = [], ni_PodCIDR = [], ni_NodeIP = [], ni_PublicIP = []\<rparr>"

definition NewBGPBackend :: "BGPConfig \<Rightarrow> BGPBackend" where
  "NewBGPBackend config = \<lparr>bb_config = config, bb_localNode = no_node, bb_peers = fmempty,
     bb_routes = fmempty, bb_running = False\<rparr>"

definition bgp_Init :: "BGPBackend \<Rightarrow> NodeInfo \<Rightarrow> BGPBackend \<times> unit outcome" where
  "bgp_Init b localNode = (b\<lparr>bb_localNode := localNode, bb_running := True\<rparr>, Ret ())"

definition bgp_peer :: "gotime \<Rightarrow> NodeInfo \<Rightarrow> BGPPeer" where
  "bgp_peer now node = \<lparr>bp_NodeInfo = node, bp_State = ''Established'', bp_Uptime = now,
     bp_RoutesRx = 0, bp_RoutesTx = 0\<rparr>"

definition bgp_route :: "NodeInfo \<Rightarrow> PodRoute" where
  "bgp_route node = \<lparr>rt_DestCIDR = ni_PodCIDR node, rt_NextHop = ni_NodeIP node,
     rt_NodeName = ni_Name node, rt_Interface = []\<rparr>"

text \<open>Installing a node's peer and route, as \<open>AddNode\<close>, \<open>UpdateNode\<close> and \<open>SyncRoutes\<close> all do.\<close>

definition bgp_install :: "gotime \<Rightarrow> BGPBackend \<Rightarrow> NodeInfo \<Rightarrow> BGPBackend" where
  "bgp_install now b node =
     b\<lparr>bb_peers := fmupd (ni_Name node) (bgp_peer now node) (bb_peers b),
       bb_routes := fmupd (ni_PodCIDR node) (bgp_route node) (bb_routes b)\<rparr>"

definition bgp_AddNode :: "gotime \<Rightarrow> BGPBackend \<Rightarrow> NodeInfo \<Rightarrow> BGPBackend \<times> unit outcome" where
  "bgp_AddNode now b node =
     (if \<not> bb_running b then (b, Err ''BGP backend not running'') else (bgp_install now b node, Ret ()))"

definition bgp_RemoveNode :: "BGPBackend \<Rightarrow> string \<Rightarrow> BGPBackend \<times> unit outcome" where
  "bgp_RemoveNode b nodeName =
     (case fmlookup (bb_peers b) nodeName of
        None \<Rightarrow> (b, Ret ())
      | Some peer \<Rightarrow> (b\<lparr>bb_routes := fmdrop (ni_PodCIDR (bp_NodeInfo peer)) (bb_routes b),
                        bb_peers := fmdrop nodeName (bb_peers b)\<rparr>, Ret ()))"

definition bgp_UpdateNode :: "gotime \<Rightarrow> BGPBackend \<Rightarrow> NodeInfo \<Rightarrow> BGPBackend \<times> unit outcome" where
  "bgp_UpdateNode now b node =
     (let b1 = (case fmlookup (bb_peers b) (ni_Name node) of
                  None \<Rightarrow> b
                | Some oldPeer \<Rightarrow> b\<lparr>bb_routes := fmdrop (ni_PodCIDR (bp_NodeInfo oldPeer)) (bb_routes b)\<rparr>)
      in (bgp_install now b1 node, Ret ()))"

fun bgp_remove_stale :: "(string, NodeInfo) fmap \<Rightarrow> BGPBackend \<Rightarrow> string list \<Rightarrow> BGPBackend" where
  "bgp_remove_stale new b [] = b"
| "bgp_remove_stale new b (name # names) =
     bgp_remove_stale new (if fmlookup new name = None then fst (bgp_RemoveNode b name) else b) names"

fun bgp_install_all :: "gotime \<Rightarrow> (string, NodeInfo) fmap \<Rightarrow> BGPBackend \<Rightarrow> string list \<Rightarrow> BGPBackend" where
  "bgp_install_all now new b [] = b"
| "bgp_install_all now new b (name # names) =
     (case fmlookup new name of
        None \<Rightarrow> bgp_install_all now new b names
      | Some node \<Rightarrow> bgp_install_all now new (bgp_install now b node) names)"

text \<open>\<open>old\<close> and \<open>order\<close> are the orders of the two loops.\<close>

definition bgp_SyncRoutes ::
  "gotime \<Rightarrow> string list \<Rightarrow> string list \<Rightarrow> BGPBackend \<Rightarrow> NodeInfo list \<Rightarrow> BGPBackend \<times> unit outcome" where
  "bgp_SyncRoutes now old order b nodes =
     (let new = node_map (ni_Name (bb_localNode b)) nodes fmempty
      in (bgp_install_all now new (bgp_remove_stale new b old) order, Ret ()))"

definition bgp_GetRoutes :: "string list \<Rightarrow> BGPBackend \<Rightarrow> PodRoute list" where
  "bgp_GetRoutes order b = List.map_filter (fmlookup (bb_routes b)) order"

definition bgp_Close :: "BGPBackend \<Rightarrow> BGPBackend \<times> unit outcome" where
  "bgp_Close b = (b\<lparr>bb_running := False, bb_peers := fmempty, bb_routes := fmempty\<rparr>, Ret ())"

definition bgp_IsHealthy :: "BGPBackend \<Rightarrow> bool" where
  "bgp_IsHealthy b \<longleftrightarrow> bb_running b \<and> \<not> fmpred (\<lambda>_ peer. bp_State peer \<noteq> ''Established'') (bb_peers b)"

definition GetPeerStatus :: "BGPBackend \<Rightarrow> (string, BGPPeer) fmap" where
  "GetPeerStatus b = bb_peers b"

definition AdvertiseRoute :: "BGPBackend \<Rightarrow> PodRoute \<Rightarrow> BGPBackend \<times> unit outcome" where
  "AdvertiseRoute b route =
     (if \<not> bb_running b then (b, Err ''BGP backend not running'')
      else (b\<lparr>bb_routes := fmupd (rt_DestCIDR route) route (bb_routes b)\<rparr>, Ret ()))"

subsection \<open>VXLAN\<close>

record VXLANConfig =
  vc_VNI :: int
  vc_Port :: int
  vc_InterfaceName :: string
  vc_MTU :: int

record FDBEntry =
  fdb_MAC :: string
  fdb_RemoteIP :: string
  fdb_NodeName :: string

record VXLANBackend =
  vx_config :: VXLANConfig
  vx_localNode :: NodeInfo
  vx_nodes :: "(string, NodeInfo) fmap"
  vx_fdb :: "(string, FDBEntry) fmap"
  vx_routes :: "(string, PodRoute) fmap"
  vx_running :: bool

definition NewVXLANBackend :: "VXLANConfig \<Rightarrow> VXLANBackend" where
  "NewVXLANBackend config =
     \<lparr>vx_config = \<lparr>vc_VNI = (if vc_VNI config = 0 then 1 else vc_VNI config),
                   vc_Port = (if vc_Port config = 0 then 4789 else vc_Port config),
                   vc_InterfaceName = (if vc_InterfaceName config = [] then ''coordino_vxlan''
                                       else vc_InterfaceName config),
                   vc_MTU = (if vc_MTU config = 0 then 1450 else vc_MTU config)\<rparr>,
      vx_localNode = no_node, vx_nodes = fmempty, vx_fdb = fmempty, vx_routes = fmempty,
      vx_running = False\<rparr>"

definition EnsureVXLANInterface :: "VXLANBackend \<Rightarrow> unit outcome" where
  "EnsureVXLANInterface v = Ret ()"

definition vx_Init :: "VXLANBackend \<Rightarrow> NodeInfo \<Rightarrow> VXLANBackend \<times> unit outcome" where
  "vx_Init v localNode =
     (let v1 = v\<lparr>vx_localNode := localNode\<rparr> in
      case EnsureVXLANInterface v1 of
        Ret _ \<Rightarrow> (v1\<lparr>vx_running := True\<rparr>, Ret ())
      | e \<Rightarrow> (v1, e))"

definition vx_mac :: "int \<Rightarrow> string" where
  "vx_mac n = ''00:00:5e:00:53:'' @ show_hex2 (nat n)"

definition vx_route :: "VXLANBackend \<Rightarrow> NodeInfo \<Rightarrow> PodRoute" where
  "vx_route v node = \<lparr>rt_DestCIDR = ni_PodCIDR node, rt_NextHop = ni_NodeIP node,
     rt_NodeName = ni_Name node, rt_Interface = vc_InterfaceName (vx_config v)\<rparr>"

definition vx_install :: "VXLANBackend \<Rightarrow> NodeInfo \<Rightarrow> VXLANBackend" where
  "vx_install v node =
     (let nodes = fmupd (ni_Name node) node (vx_nodes v)
      in v\<lparr>vx_nodes := nodes,
           vx_fdb := fmupd (ni_Name node) \<lparr>fdb_MAC = vx_mac (map_len nodes), fdb_RemoteIP = ni_NodeIP node,
                                          fdb_NodeName = ni_Name node\<rparr> (vx_fdb v),
           vx_routes := fmupd (ni_PodCIDR node) (vx_route v node) (vx_routes v)\<rparr>)"

definition vx_AddNode :: "VXLANBackend \<Rightarrow> NodeInfo \<Rightarrow> VXLANBackend \<times> unit outcome" where
  "vx_AddNode v node =
     (if \<not> vx_running v then (v, Err ''VXLAN backend not running'') else (vx_install v node, Ret ()))"

definition vx_RemoveNode :: "VXLANBackend \<Rightarrow> string \<Rightarrow> VXLANBackend \<times> unit outcome" where
  "vx_RemoveNode v nodeName =
     (case fmlookup (vx_nodes v) nodeName of
        None \<Rightarrow> (v, Ret ())
      | Some node \<Rightarrow> (v\<lparr>vx_routes := fmdrop (ni_PodCIDR node) (vx_routes v),
                        vx_fdb := fmdrop nodeName (vx_fdb v),
                        vx_nodes := fmdrop nodeName (vx_nodes v)\<rparr>, Ret ()))"

definition vx_UpdateNode :: "VXLANBackend \<Rightarrow> NodeInfo \<Rightarrow> VXLANBackend \<times> unit outcome" where
  "vx_UpdateNode v node =
     (let v1 = (case fmlookup (vx_nodes v) (ni_Name node) of
                  None \<Rightarrow> v
                | Some oldNode \<Rightarrow> v\<lparr>vx_routes := fmdrop (ni_PodCIDR oldNode) (vx_routes v)\<rparr>)
      in (vx_install v1 node, Ret ()))"

fun vx_remove_stale :: "(string, NodeInfo) fmap \<Rightarrow> VXLANBackend \<Rightarrow> string list \<Rightarrow> VXLANBackend" where
  "vx_remove_stale new v [] = v"
| "vx_remove_stale new v (name # names) =
     vx_remove_stale new (if fmlookup new name = None then fst (vx_RemoveNode v name) else v) names"

fun vx_install_all :: "(string, NodeInfo) fmap \<Rightarrow> VXLANBackend \<Rightarrow> string list \<Rightarrow> VXLANBackend" where
  "vx_install_all new v [] = v"
| "vx_install_all new v (name # names) =
     (case fmlookup new name of
        None \<Rightarrow> vx_install_all new v names
      | Some node \<Rightarrow> vx_install_all new (vx_install v node) names)"

definition vx_SyncRoutes ::
  "string list \<Rightarrow> string list \<Rightarrow> VXLANBackend \<Rightarrow> NodeInfo list \<Rightarrow> VXLANBackend \<times> unit outcome" where
  "vx_SyncRoutes old order v nodes =
     (let new = node_map (ni_Name (vx_localNode v)) nodes fmempty
      in (vx_install_all new (vx_remove_stale new v old) order, Ret ()))"

definition vx_GetRoutes :: "string list \<Rightarrow> VXLANBackend \<Rightarrow> PodRoute list" where
  "vx_GetRoutes order v = List.map_filter (fmlookup (vx_routes v)) order"

definition vx_Close :: "VXLANBackend \<Rightarrow> VXLANBackend \<times> unit outcome" where
  "vx_Close v = (v\<lparr>vx_running := False\<rparr>, Ret ())"

definition vx_IsHealthy :: "VXLANBackend \<Rightarrow> bool" where
  "vx_IsHealthy v = vx_running v"

definition GetFDB :: "VXLANBackend \<Rightarrow> (string, FDBEntry) fmap" where
  "GetFDB v = vx_fdb v"

subsection \<open>The interface\<close>

datatype RoutingBackend = RbBGP BGPBackend | RbVXLAN VXLANBackend

definition NewRoutingBackend :: "Mode \<Rightarrow> (string, string) fmap \<Rightarrow> RoutingBackend outcome" where
  "NewRoutingBackend mode config =
     (if mode = ModeBGP
      then Ret (RbBGP (NewBGPBackend \<lparr>bc_LocalASN = 0, bc_RouterID = [], bc_PeerASN = 0, bc_PeerAddress = [],
                                     bc_HoldTime = 0\<rparr>))
      else if mode = ModeVXLAN
      then Ret (RbVXLAN (NewVXLANBackend \<lparr>vc_VNI = 0, vc_Port = 0, vc_InterfaceName = [], vc_MTU = 0\<rparr>))
      else Err (''unsupported routing mode: '' @ mode))"

fun rb_Init :: "RoutingBackend \<Rightarrow> NodeInfo \<Rightarrow> RoutingBackend \<times> unit outcome" where
  "rb_Init (RbBGP b) n = apfst RbBGP (bgp_Init b n)"
| "rb_Init (RbVXLAN v) n = apfst RbVXLAN (vx_Init v n)"

fun rb_AddNode :: "gotime \<Rightarrow> RoutingBackend \<Rightarrow> NodeInfo \<Rightarrow> RoutingBackend \<times> unit outcome" where
  "rb_AddNode now (RbBGP b) n = apfst RbBGP (bgp_AddNode now b n)"
| "rb_AddNode now (RbVXLAN v) n = apfst RbVXLAN (vx_AddNode v n)"

fun rb_RemoveNode :: "RoutingBackend \<Rightarrow> string \<Rightarrow> RoutingBackend \<times> unit outcome" where
  "rb_RemoveNode (RbBGP b) n = apfst RbBGP (bgp_RemoveNode b n)"
| "rb_RemoveNode (RbVXLAN v) n = apfst RbVXLAN (vx_RemoveNode v n)"

fun rb_UpdateNode :: "gotime \<Rightarrow> RoutingBackend \<Rightarrow> NodeInfo \<Rightarrow> RoutingBackend \<times> unit outcome" where
  "rb_UpdateNode now (RbBGP b) n = apfst RbBGP (bgp_UpdateNode now b n)"
| "rb_UpdateNode now (RbVXLAN v) n = apfst RbVXLAN (vx_UpdateNode v n)"

fun rb_SyncRoutes ::
  "gotime \<Rightarrow> string list \<Rightarrow> string list \<Rightarrow> RoutingBackend \<Rightarrow> NodeInfo list \<Rightarrow> RoutingBackend \<times> unit outcome" where
  "rb_SyncRoutes now old order (RbBGP b) ns = apfst RbBGP (bgp_SyncRoutes now old order b ns)"
| "rb_SyncRoutes now old order (RbVXLAN v) ns = apfst RbVXLAN (vx_SyncRoutes old order v ns)"

fun rb_Close :: "RoutingBackend \<Rightarrow> RoutingBackend \<times> unit outcome" where
  "rb_Close (RbBGP b) = apfst RbBGP (bgp_Close b)"
| "rb_Close (RbVXLAN v) = apfst RbVXLAN (vx_Close v)"

fun rb_Mode :: "RoutingBackend \<Rightarrow> Mode" where
  "rb_Mode (RbBGP b) = ModeBGP"
| "rb_Mode (RbVXLAN v) = ModeVXLAN"

fun rb_IsHealthy :: "RoutingBackend \<Rightarrow> bool" where
  "rb_IsHealthy (RbBGP b) = bgp_IsHealthy b"
| "rb_IsHealthy (RbVXLAN v) = vx_IsHealthy v"

fun rb_nodes :: "RoutingBackend \<Rightarrow> (string, NodeInfo) fmap" where
  "rb_nodes (RbBGP b) = fmmap bp_NodeInfo (bb_peers b)"
| "rb_nodes (RbVXLAN v) = vx_nodes v"

fun rb_routes :: "RoutingBackend \<Rightarrow> (string, PodRoute) fmap" where
  "rb_routes (RbBGP b) = bb_routes b"
| "rb_routes (RbVXLAN v) = vx_routes v"

fun rb_route_of :: "RoutingBackend \<Rightarrow> NodeInfo \<Rightarrow> PodRoute" where
  "rb_route_of (RbBGP b) n = bgp_route n"
| "rb_route_of (RbVXLAN v) n = vx_route v n"

fun rb_local :: "RoutingBackend \<Rightarrow> string" where
  "rb_local (RbBGP b) = ni_Name (bb_localNode b)"
| "rb_local (RbVXLAN v) = ni_Name (vx_localNode v)"

subsection \<open>What a client may rely on\<close>

text \<open>The wanted nodes have their own names and pairwise different networks.\<close>

definition proper :: "(string, NodeInfo) fmap \<Rightarrow> bool" where
  "proper new \<longleftrightarrow> (\<forall>a x. fmlookup new a = Some x \<longrightarrow> ni_Name x = a) \<and>
     (\<forall>a b x y. fmlookup new a = Some x \<longrightarrow> fmlookup new b = Some y \<longrightarrow> ni_PodCIDR x = ni_PodCIDR y \<longrightarrow> a = b)"

text \<open>A back end as a table of nodes and a table of routes with two primitive changes: installing a
  node (its entry and the route to its network) and forgetting one (its entry and the route to
  the network it had).\<close>

locale route_table =
  fixes inst :: "'s \<Rightarrow> NodeInfo \<Rightarrow> 's"
    and rm :: "'s \<Rightarrow> string \<Rightarrow> 's"
    and nodes :: "'s \<Rightarrow> (string, NodeInfo) fmap"
    and routes :: "'s \<Rightarrow> (string, PodRoute) fmap"
    and route_of :: "'s \<Rightarrow> NodeInfo \<Rightarrow> PodRoute"
  assumes nodes_inst: "nodes (inst s n) = fmupd (ni_Name n) n (nodes s)"
    and routes_inst: "routes (inst s n) = fmupd (ni_PodCIDR n) (route_of s n) (routes s)"
    and route_of_inst: "route_of (inst s n) = route_of s"
    and nodes_rm: "nodes (rm s name) = fmdrop name (nodes s)"
    and routes_rm: "routes (rm s name) = (case fmlookup (nodes s) name of
          None \<Rightarrow> routes s | Some n \<Rightarrow> fmdrop (ni_PodCIDR n) (routes s))"
    and route_of_rm: "route_of (rm s name) = route_of s"
begin

lemma remove_stale_spec:
  assumes "distinct old"
  shows "fmlookup (nodes (foldl (\<lambda>s name. if fmlookup new name = None then rm s name else s) s old)) m =
      (if m \<in> set old \<and> fmlookup new m = None then None else fmlookup (nodes s) m)"
    and "fmlookup (routes (foldl (\<lambda>s name. if fmlookup new name = None then rm s name else s) s old)) c =
      (if \<exists>name \<in> set old. fmlookup new name = None \<and>
           (\<exists>x. fmlookup (nodes s) name = Some x \<and> ni_PodCIDR x = c) then None else fmlookup (routes s) c)"
    and "route_of (foldl (\<lambda>s name. if fmlookup new name = None then rm s name else s) s old) = route_of s"
proof -
  show "fmlookup (nodes (foldl (\<lambda>s name. if fmlookup new name = None then rm s name else s) s old)) m =
      (if m \<in> set old \<and> fmlookup new m = None then None else fmlookup (nodes s) m)"
    by (induction old arbitrary: s) (auto simp: nodes_rm)
  show "route_of (foldl (\<lambda>s name. if fmlookup new name = None then rm s name else s) s old) = route_of s"
    by (induction old arbitrary: s) (auto simp: route_of_rm)
  show "fmlookup (routes (foldl (\<lambda>s name. if fmlookup new name = None then rm s name else s) s old)) c =
      (if \<exists>name \<in> set old. fmlookup new name = None \<and>
           (\<exists>x. fmlookup (nodes s) name = Some x \<and> ni_PodCIDR x = c) then None else fmlookup (routes s) c)"
    using assms
  proof (induction old arbitrary: s)
    case (Cons a old)
    have nodes: "fmlookup (nodes (rm s a)) name = fmlookup (nodes s) name" if "name \<in> set old" for name
      using Cons.prems that by (auto simp: nodes_rm)
    show ?case
    proof (cases "fmlookup new a")
      case None
      then show ?thesis
        using Cons.IH [of "rm s a"] Cons.prems nodes by (auto simp: routes_rm split: option.splits)
    next
      case (Some n)
      then show ?thesis using Cons by simp
    qed
  qed simp
qed

lemma install_all_spec:
  assumes "proper new"
  shows "fmlookup (nodes (foldl (\<lambda>s name. case fmlookup new name of None \<Rightarrow> s | Some x \<Rightarrow> inst s x) s order)) m =
      (if m \<in> set order \<and> fmlookup new m \<noteq> None then fmlookup new m else fmlookup (nodes s) m)"
    and "(\<exists>a \<in> set order. fmlookup new a = Some x \<and> ni_PodCIDR x = c) \<Longrightarrow>
      fmlookup (routes (foldl (\<lambda>s name. case fmlookup new name of None \<Rightarrow> s | Some x \<Rightarrow> inst s x) s order)) c =
        Some (route_of s x)"
    and "\<forall>a \<in> set order. \<forall>x. fmlookup new a = Some x \<longrightarrow> ni_PodCIDR x \<noteq> c \<Longrightarrow>
      fmlookup (routes (foldl (\<lambda>s name. case fmlookup new name of None \<Rightarrow> s | Some x \<Rightarrow> inst s x) s order)) c =
        fmlookup (routes s) c"
proof -
  have name: "fmlookup new a = Some y \<Longrightarrow> ni_Name y = a" for a y using assms by (auto simp: proper_def)
  show "fmlookup (nodes (foldl (\<lambda>s name. case fmlookup new name of None \<Rightarrow> s | Some x \<Rightarrow> inst s x) s order)) m =
      (if m \<in> set order \<and> fmlookup new m \<noteq> None then fmlookup new m else fmlookup (nodes s) m)"
    by (induction order arbitrary: s) (auto simp: nodes_inst name split: option.splits)
  have keep: "\<forall>a \<in> set order. \<forall>x. fmlookup new a = Some x \<longrightarrow> ni_PodCIDR x \<noteq> c \<Longrightarrow>
      fmlookup (routes (foldl (\<lambda>s name. case fmlookup new name of None \<Rightarrow> s | Some x \<Rightarrow> inst s x) s order)) c =
        fmlookup (routes s) c" for order s
    by (induction order arbitrary: s) (auto simp: routes_inst split: option.splits)
  then show "\<forall>a \<in> set order. \<forall>x. fmlookup new a = Some x \<longrightarrow> ni_PodCIDR x \<noteq> c \<Longrightarrow>
      fmlookup (routes (foldl (\<lambda>s name. case fmlookup new name of None \<Rightarrow> s | Some x \<Rightarrow> inst s x) s order)) c =
        fmlookup (routes s) c" by blast
  assume "\<exists>a \<in> set order. fmlookup new a = Some x \<and> ni_PodCIDR x = c"
  then show "fmlookup (routes (foldl (\<lambda>s name. case fmlookup new name of None \<Rightarrow> s | Some x \<Rightarrow> inst s x) s order)) c =
        Some (route_of s x)"
  proof (induction order arbitrary: s)
    case (Cons b order)
    show ?case
    proof (cases "\<exists>a \<in> set order. fmlookup new a = Some x \<and> ni_PodCIDR x = c")
      case True
      then show ?thesis using Cons.IH by (auto simp: route_of_inst split: option.split)
    next
      case False
      with Cons.prems have b: "fmlookup new b = Some x" "ni_PodCIDR x = c" by auto
      have "\<forall>a \<in> set order. \<forall>y. fmlookup new a = Some y \<longrightarrow> ni_PodCIDR y \<noteq> c"
      proof (intro ballI allI impI notI)
        fix a y assume a: "a \<in> set order" "fmlookup new a = Some y" "ni_PodCIDR y = c"
        then have "a = b" using assms b unfolding proper_def by metis
        then show False using False a b by auto
      qed
      from keep [OF this, of "inst s x"] show ?thesis using b by (simp add: routes_inst)
    qed
  qed simp
qed

text \<open>A full reconciliation: forget the nodes that are not wanted, then install the wanted ones.\<close>

lemma sync_exact:
  assumes routes: "\<And>c r. fmlookup (routes s) c = Some r \<Longrightarrow>
      \<exists>a x. fmlookup (nodes s) a = Some x \<and> ni_PodCIDR x = c"
    and same: "\<And>a x y. fmlookup (nodes s) a = Some x \<Longrightarrow> fmlookup new a = Some y \<Longrightarrow> ni_PodCIDR x = ni_PodCIDR y"
    and new: "proper new" and old: "range_order (nodes s) old" and order: "range_order new order"
    and t: "t = foldl (\<lambda>s name. case fmlookup new name of None \<Rightarrow> s | Some x \<Rightarrow> inst s x)
      (foldl (\<lambda>s name. if fmlookup new name = None then rm s name else s) s old) order"
  shows "nodes t = new"
    and "fmlookup (routes t) c = Some r \<longleftrightarrow> (\<exists>a x. fmlookup new a = Some x \<and> ni_PodCIDR x = c \<and> r = route_of s x)"
proof -
  let ?u = "foldl (\<lambda>s name. if fmlookup new name = None then rm s name else s) s old"
  note u = remove_stale_spec [OF range_orderD(1) [OF old], of new s]
  have mo: "m \<in> set old \<longleftrightarrow> fmlookup (nodes s) m \<noteq> None" "m \<in> set order \<longleftrightarrow> fmlookup new m \<noteq> None" for m
    using range_orderD(2) [OF old] range_orderD(2) [OF order] by auto
  show "nodes t = new"
  proof (rule fmap_ext)
    fix m
    show "fmlookup (nodes t) m = fmlookup new m"
      using mo [of m] by (auto simp: t install_all_spec(1) [OF new] u(1) split: if_splits)
  qed
  show "fmlookup (routes t) c = Some r \<longleftrightarrow> (\<exists>a x. fmlookup new a = Some x \<and> ni_PodCIDR x = c \<and> r = route_of s x)"
  proof (cases "\<exists>a x. fmlookup new a = Some x \<and> ni_PodCIDR x = c")
    case True
    then obtain a x where a: "fmlookup new a = Some x" "ni_PodCIDR x = c" by blast
    then have "\<exists>a \<in> set order. fmlookup new a = Some x \<and> ni_PodCIDR x = c" using mo(2) by blast
    from install_all_spec(2) [OF new this, of ?u] have "fmlookup (routes t) c = Some (route_of s x)"
      by (simp add: t u(3))
    moreover have only: "y = x" if "fmlookup new b = Some y" "ni_PodCIDR y = c" for b y
      using new a that unfolding proper_def by (metis option.inject)
    ultimately show ?thesis using a by (metis option.inject)
  next
    case False
    then have "fmlookup (routes t) c = fmlookup (routes ?u) c"
      unfolding t by (intro install_all_spec(3) [OF new]) blast
    moreover have "fmlookup (routes ?u) c = None"
    proof (cases "fmlookup (routes s) c")
      case None
      then show ?thesis using u(2) by simp
    next
      case (Some q)
      then obtain a x where a: "fmlookup (nodes s) a = Some x" "ni_PodCIDR x = c" using routes by blast
      moreover have "fmlookup new a = None" using False same [OF a(1)] a(2) by (cases "fmlookup new a") auto
      ultimately have "\<exists>name \<in> set old. fmlookup new name = None \<and>
          (\<exists>x. fmlookup (nodes s) name = Some x \<and> ni_PodCIDR x = c)" using mo(1) by blast
      then show ?thesis using u(2) by simp
    qed
    ultimately show ?thesis using False by auto
  qed
qed

text \<open>A reconciliation keeps the route of a network that no wanted and no forgotten node has.\<close>

lemma sync_keeps_unowned:
  assumes old: "range_order (nodes s) old" and new: "proper new"
    and a: "\<And>a x. fmlookup new a = Some x \<Longrightarrow> ni_PodCIDR x \<noteq> c"
    and b: "\<And>a x. fmlookup (nodes s) a = Some x \<Longrightarrow> fmlookup new a = None \<Longrightarrow> ni_PodCIDR x \<noteq> c"
  shows "fmlookup (routes (foldl (\<lambda>s name. case fmlookup new name of None \<Rightarrow> s | Some x \<Rightarrow> inst s x)
      (foldl (\<lambda>s name. if fmlookup new name = None then rm s name else s) s old) order)) c = fmlookup (routes s) c"
proof -
  let ?u = "foldl (\<lambda>s name. if fmlookup new name = None then rm s name else s) s old"
  have "\<forall>d \<in> set order. \<forall>x. fmlookup new d = Some x \<longrightarrow> ni_PodCIDR x \<noteq> c" using a by blast
  from install_all_spec(3) [OF new this, of ?u] show ?thesis
    using remove_stale_spec(2) [OF range_orderD(1) [OF old], of new s c] b by auto
qed

end

subsection \<open>Both back ends keep the contract\<close>

interpretation bgp: route_table "bgp_install now" "\<lambda>b n. fst (bgp_RemoveNode b n)"
  "\<lambda>b. fmmap bp_NodeInfo (bb_peers b)" bb_routes "\<lambda>b. bgp_route" for now
  by unfold_locales
     (auto simp: bgp_install_def bgp_peer_def bgp_RemoveNode_def intro!: fmap_ext split: option.split)

interpretation vxlan: route_table vx_install "\<lambda>v n. fst (vx_RemoveNode v n)" vx_nodes vx_routes vx_route
  by unfold_locales
     (auto simp: vx_install_def Let_def vx_RemoveNode_def vx_route_def fun_eq_iff intro!: fmap_ext split: option.split)

lemma bgp_remove_stale_foldl:
  "bgp_remove_stale new b old = foldl (\<lambda>b name. if fmlookup new name = None then fst (bgp_RemoveNode b name) else b) b old"
  by (induction old arbitrary: b) simp_all

lemma bgp_install_all_foldl:
  "bgp_install_all now new b order =
     foldl (\<lambda>b name. case fmlookup new name of None \<Rightarrow> b | Some x \<Rightarrow> bgp_install now b x) b order"
  by (induction order arbitrary: b) (simp_all split: option.split)

lemma vx_remove_stale_foldl:
  "vx_remove_stale new v old = foldl (\<lambda>v name. if fmlookup new name = None then fst (vx_RemoveNode v name) else v) v old"
  by (induction old arbitrary: v) simp_all

lemma vx_install_all_foldl:
  "vx_install_all new v order = foldl (\<lambda>v name. case fmlookup new name of None \<Rightarrow> v | Some x \<Rightarrow> vx_install v x) v order"
  by (induction order arbitrary: v) (simp_all split: option.split)

lemmas sync_foldl = bgp_remove_stale_foldl bgp_install_all_foldl vx_remove_stale_foldl vx_install_all_foldl

text \<open>The nodes a reconciliation wants, and the condition that they have different networks.\<close>

definition wanted :: "RoutingBackend \<Rightarrow> NodeInfo list \<Rightarrow> (string, NodeInfo) fmap" where
  "wanted b nodes = node_map (rb_local b) nodes fmempty"

definition own_networks :: "(string, NodeInfo) fmap \<Rightarrow> bool" where
  "own_networks new \<longleftrightarrow>
     (\<forall>a b x y. fmlookup new a = Some x \<longrightarrow> fmlookup new b = Some y \<longrightarrow> ni_PodCIDR x = ni_PodCIDR y \<longrightarrow> a = b)"

lemma node_map_names:
  "fmlookup (node_map local ns m) a = Some x \<Longrightarrow> (\<And>a x. fmlookup m a = Some x \<Longrightarrow> ni_Name x = a) \<Longrightarrow> ni_Name x = a"
proof (induction ns arbitrary: m)
  case (Cons n ns)
  show ?case by (rule Cons.IH [OF Cons.prems(1) [unfolded node_map.simps]]) (auto split: if_splits dest: Cons.prems(2))
qed simp

lemma wanted_proper:
  assumes "own_networks (wanted b nodes)"
  shows "proper (wanted b nodes)"
proof -
  have "fmlookup (wanted b nodes) a = Some x \<Longrightarrow> ni_Name x = a" for a x
    unfolding wanted_def by (erule node_map_names) simp
  then show ?thesis using assms unfolding proper_def own_networks_def by blast
qed

lemma rb_sync_cases:
  obtains (bgp) x where "b = RbBGP x" "rb_nodes b = fmmap bp_NodeInfo (bb_peers x)" "rb_routes b = bb_routes x"
      "rb_route_of b = bgp_route"
      "rb_SyncRoutes now old order b ns =
        (RbBGP (foldl (\<lambda>s name. case fmlookup (wanted b ns) name of None \<Rightarrow> s | Some x \<Rightarrow> bgp_install now s x)
          (foldl (\<lambda>s name. if fmlookup (wanted b ns) name = None then fst (bgp_RemoveNode s name) else s) x old) order), Ret ())"
  | (vxlan) x where "b = RbVXLAN x" "rb_nodes b = vx_nodes x" "rb_routes b = vx_routes x" "rb_route_of b = vx_route x"
      "rb_SyncRoutes now old order b ns =
        (RbVXLAN (foldl (\<lambda>s name. case fmlookup (wanted b ns) name of None \<Rightarrow> s | Some x \<Rightarrow> vx_install s x)
          (foldl (\<lambda>s name. if fmlookup (wanted b ns) name = None then fst (vx_RemoveNode s name) else s) x old) order), Ret ())"
proof (cases b)
  case (RbBGP x)
  then show ?thesis
    by (intro bgp [of x]) (simp_all add: bgp_SyncRoutes_def Let_def sync_foldl wanted_def fun_eq_iff)
next
  case (RbVXLAN x)
  then show ?thesis
    by (intro vxlan [of x]) (simp_all add: vx_SyncRoutes_def Let_def sync_foldl wanted_def fun_eq_iff)
qed

subsection \<open>Properties\<close>

text \<open>C19. A reconciliation installs exactly the wanted routes, on both back ends and for every
  iteration order: if every installed route belongs to a known node, the wanted nodes have
  different networks and no known node changes its network, then afterwards the known nodes are
  the wanted ones (the last entry of each name, without the local node), and there is a route for
  a network exactly when a wanted node has it, namely that node's.\<close>

theorem SyncRoutes_exact:
  assumes "\<forall>c r. fmlookup (rb_routes b) c = Some r \<longrightarrow> (\<exists>a x. fmlookup (rb_nodes b) a = Some x \<and> ni_PodCIDR x = c)"
    and "own_networks (wanted b ns)"
    and "\<forall>a x y. fmlookup (rb_nodes b) a = Some x \<longrightarrow> fmlookup (wanted b ns) a = Some y \<longrightarrow> ni_PodCIDR x = ni_PodCIDR y"
    and "range_order (rb_nodes b) old" and "range_order (wanted b ns) order"
  shows "\<exists>b'. rb_SyncRoutes now old order b ns = (b', Ret ()) \<and> rb_nodes b' = wanted b ns \<and>
    (\<forall>c r. fmlookup (rb_routes b') c = Some r \<longleftrightarrow>
       (\<exists>a x. fmlookup (wanted b ns) a = Some x \<and> ni_PodCIDR x = c \<and> r = rb_route_of b x))"
proof -
  have p: "proper (wanted b ns)" by (rule wanted_proper [OF assms(2)])
  show ?thesis
  proof (rule rb_sync_cases [of b now old order ns])
    fix x assume x: "b = RbBGP x" "rb_nodes b = fmmap bp_NodeInfo (bb_peers x)" "rb_routes b = bb_routes x"
      "rb_route_of b = bgp_route" and
      sync: "rb_SyncRoutes now old order b ns =
        (RbBGP (foldl (\<lambda>b' name. case fmlookup (wanted b ns) name of None \<Rightarrow> b' | Some x \<Rightarrow> bgp_install now b' x)
          (foldl (\<lambda>b' name. if fmlookup (wanted b ns) name = None then fst (bgp_RemoveNode b' name) else b') x old) order), Ret ())"
      (is "_ = (RbBGP ?t, _)")
    note h = assms(1,3,4) [unfolded x(2,3)]
    note exact = bgp.sync_exact [OF _ _ p _ assms(5) refl, of x old now]
    have "fmmap bp_NodeInfo (bb_peers ?t) = wanted b ns"
      by (rule exact(1)) (use h in blast)+
    moreover have "fmlookup (bb_routes ?t) c = Some r \<longleftrightarrow>
        (\<exists>a y. fmlookup (wanted b ns) a = Some y \<and> ni_PodCIDR y = c \<and> r = bgp_route y)" for c r
      by (rule exact(2)) (use h in blast)+
    ultimately show ?thesis using sync x by simp
  next
    fix x assume x: "b = RbVXLAN x" "rb_nodes b = vx_nodes x" "rb_routes b = vx_routes x"
      "rb_route_of b = vx_route x" and
      sync: "rb_SyncRoutes now old order b ns =
        (RbVXLAN (foldl (\<lambda>b' name. case fmlookup (wanted b ns) name of None \<Rightarrow> b' | Some x \<Rightarrow> vx_install b' x)
          (foldl (\<lambda>b' name. if fmlookup (wanted b ns) name = None then fst (vx_RemoveNode b' name) else b') x old) order), Ret ())"
      (is "_ = (RbVXLAN ?t, _)")
    note h = assms(1,3,4) [unfolded x(2,3)]
    note exact = vxlan.sync_exact [OF _ _ p _ assms(5) refl, of x old]
    have "vx_nodes ?t = wanted b ns"
      by (rule exact(1)) (use h in blast)+
    moreover have "fmlookup (vx_routes ?t) c = Some r \<longleftrightarrow>
        (\<exists>a y. fmlookup (wanted b ns) a = Some y \<and> ni_PodCIDR y = c \<and> r = vx_route x y)" for c r
      by (rule exact(2)) (use h in blast)+
    ultimately show ?thesis using sync x by simp
  qed
qed

definition ex_node :: "string \<Rightarrow> string \<Rightarrow> NodeInfo" where
  "ex_node nm cidr = \<lparr>ni_Name = nm, ni_PodCIDR = cidr, ni_NodeIP = ''192.0.2.1'', ni_PublicIP = []\<rparr>"

definition ex_backend :: RoutingBackend where
  "ex_backend = (case NewRoutingBackend ModeVXLAN fmempty of
     Ret b \<Rightarrow> fst (rb_AddNode 0 (fst (rb_AddNode 0 (fst (rb_Init b (ex_node ''me'' ''c0''))) (ex_node ''a'' ''c1'')))
               (ex_node ''b'' ''c2''))
   | _ \<Rightarrow> RbVXLAN (NewVXLANBackend \<lparr>vc_VNI = 0, vc_Port = 0, vc_InterfaceName = [], vc_MTU = 0\<rparr>))"

lemma ex_backend_tables:
  "rb_nodes ex_backend = fmap_of_list [(''a'', ex_node ''a'' ''c1''), (''b'', ex_node ''b'' ''c2'')]"
  "fmdom (rb_routes ex_backend) = {|''c1'', ''c2''|}"
  by code_simp+

theorem SyncRoutes_exact_witness:
  "\<exists>b'. rb_SyncRoutes 0 [''a'', ''b''] [''b''] ex_backend [ex_node ''me'' ''c0'', ex_node ''b'' ''c2''] = (b', Ret ()) \<and>
     rb_nodes b' = fmap_of_list [(''b'', ex_node ''b'' ''c2'')] \<and> fmlookup (rb_routes b') ''c1'' = None"
proof -
  let ?ns = "[ex_node ''me'' ''c0'', ex_node ''b'' ''c2'']"
  have w: "wanted ex_backend ?ns = fmap_of_list [(''b'', ex_node ''b'' ''c2'')]" by code_simp
  have look: "fmlookup (wanted ex_backend ?ns) k = (if k = ''b'' then Some (ex_node ''b'' ''c2'') else None)" for k
    by (simp add: w fmlookup_of_list)
  have nodes: "fmlookup (rb_nodes ex_backend) k = (if k = ''a'' then Some (ex_node ''a'' ''c1'')
      else if k = ''b'' then Some (ex_node ''b'' ''c2'') else None)" for k
    by (simp add: ex_backend_tables fmlookup_of_list)
  have "c = ''c1'' \<or> c = ''c2''" if "fmlookup (rb_routes ex_backend) c = Some r" for c r
    using fmdomI [OF that] by (simp add: ex_backend_tables)
  moreover have "fmlookup (rb_nodes ex_backend) ''a'' = Some (ex_node ''a'' ''c1'') \<and> ni_PodCIDR (ex_node ''a'' ''c1'') = ''c1''"
    "fmlookup (rb_nodes ex_backend) ''b'' = Some (ex_node ''b'' ''c2'') \<and> ni_PodCIDR (ex_node ''b'' ''c2'') = ''c2''"
    by (simp_all add: nodes) (simp_all add: ex_node_def)
  ultimately have "\<forall>c r. fmlookup (rb_routes ex_backend) c = Some r \<longrightarrow>
      (\<exists>a x. fmlookup (rb_nodes ex_backend) a = Some x \<and> ni_PodCIDR x = c)"
    by metis
  moreover have "own_networks (wanted ex_backend ?ns)" unfolding own_networks_def look by simp
  moreover have "\<forall>a x y. fmlookup (rb_nodes ex_backend) a = Some x \<longrightarrow> fmlookup (wanted ex_backend ?ns) a = Some y \<longrightarrow>
      ni_PodCIDR x = ni_PodCIDR y" unfolding look nodes by simp
  moreover have "range_order (rb_nodes ex_backend) [''a'', ''b'']" "range_order (wanted ex_backend ?ns) [''b'']"
    unfolding range_order_def by code_simp+
  ultimately obtain b' where b': "rb_SyncRoutes 0 [''a'', ''b''] [''b''] ex_backend ?ns = (b', Ret ())"
    "rb_nodes b' = wanted ex_backend ?ns" and
    r: "\<forall>c r. fmlookup (rb_routes b') c = Some r \<longleftrightarrow> (\<exists>a x. fmlookup (wanted ex_backend ?ns) a = Some x \<and>
      ni_PodCIDR x = c \<and> r = rb_route_of ex_backend x)"
    using SyncRoutes_exact [of ex_backend ?ns "[''a'', ''b'']" "[''b'']" 0] by blast
  have none: "\<not> (\<exists>a x. fmlookup (wanted ex_backend ?ns) a = Some x \<and> ni_PodCIDR x = ''c1'' \<and> q = rb_route_of ex_backend x)"
    for q unfolding look by (simp add: ex_node_def)
  have "fmlookup (rb_routes b') ''c1'' \<noteq> Some q" for q using r none [of q] by blast
  then have "fmlookup (rb_routes b') ''c1'' = None" by (metis not_None_eq)
  then show ?thesis using b' w by metis
qed

text \<open>When a known node comes back with another network, a reconciliation leaves the route to its
  old network in place, on both back ends: if no wanted node has the old network and no node
  that is dropped has it, the route is the one from before.\<close>

lemma SyncRoutes_keeps_stale_route:
  assumes "own_networks (wanted b ns)" and "range_order (rb_nodes b) old"
    and "fmlookup (rb_nodes b) a = Some x" and "fmlookup (wanted b ns) a \<noteq> None"
    and "\<forall>k y. fmlookup (wanted b ns) k = Some y \<longrightarrow> ni_PodCIDR y \<noteq> ni_PodCIDR x"
    and "\<forall>k y. fmlookup (rb_nodes b) k = Some y \<longrightarrow> ni_PodCIDR y = ni_PodCIDR x \<longrightarrow> k = a"
  shows "fmlookup (rb_routes (fst (rb_SyncRoutes now old order b ns))) (ni_PodCIDR x) =
         fmlookup (rb_routes b) (ni_PodCIDR x)"
proof -
  have p: "proper (wanted b ns)" by (rule wanted_proper [OF assms(1)])
  have stale: "\<And>k y. fmlookup (rb_nodes b) k = Some y \<Longrightarrow> fmlookup (wanted b ns) k = None \<Longrightarrow> ni_PodCIDR y \<noteq> ni_PodCIDR x"
  proof (rule notI)
    fix k y assume ky: "fmlookup (rb_nodes b) k = Some y" "fmlookup (wanted b ns) k = None" "ni_PodCIDR y = ni_PodCIDR x"
    from assms(6) ky(1,3) have "k = a" by metis
    with ky(2) assms(4) show False by simp
  qed
  show ?thesis
  proof (rule rb_sync_cases [of b now old order ns])
    fix z assume z: "b = RbBGP z" "rb_nodes b = fmmap bp_NodeInfo (bb_peers z)" "rb_routes b = bb_routes z"
      "rb_route_of b = bgp_route" and
      sync: "rb_SyncRoutes now old order b ns =
        (RbBGP (foldl (\<lambda>b' name. case fmlookup (wanted b ns) name of None \<Rightarrow> b' | Some x \<Rightarrow> bgp_install now b' x)
          (foldl (\<lambda>b' name. if fmlookup (wanted b ns) name = None then fst (bgp_RemoveNode b' name) else b') z old) order), Ret ())"
    show ?thesis unfolding sync fst_conv rb_routes.simps z(3)
      by (rule bgp.sync_keeps_unowned [OF assms(2) [unfolded z(2)] p])
         (use assms(5) stale [unfolded z(2)] in blast)+
  next
    fix z assume z: "b = RbVXLAN z" "rb_nodes b = vx_nodes z" "rb_routes b = vx_routes z"
      "rb_route_of b = vx_route z" and
      sync: "rb_SyncRoutes now old order b ns =
        (RbVXLAN (foldl (\<lambda>b' name. case fmlookup (wanted b ns) name of None \<Rightarrow> b' | Some x \<Rightarrow> vx_install b' x)
          (foldl (\<lambda>b' name. if fmlookup (wanted b ns) name = None then fst (vx_RemoveNode b' name) else b') z old) order), Ret ())"
    show ?thesis unfolding sync fst_conv rb_routes.simps z(3)
      by (rule vxlan.sync_keeps_unowned [OF assms(2) [unfolded z(2)] p])
         (use assms(5) stale [unfolded z(2)] in blast)+
  qed
qed

lemma SyncRoutes_keeps_stale_route_witness:
  "fmlookup (rb_routes (fst (rb_SyncRoutes 0 [''a'', ''b''] [''a'', ''b''] ex_backend
       [ex_node ''a'' ''c9'', ex_node ''b'' ''c2'']))) ''c1'' = fmlookup (rb_routes ex_backend) ''c1'' \<and>
   fmlookup (rb_routes ex_backend) ''c1'' \<noteq> None"
proof -
  let ?ns = "[ex_node ''a'' ''c9'', ex_node ''b'' ''c2'']"
  have "wanted ex_backend ?ns = fmap_of_list [(''a'', ex_node ''a'' ''c9''), (''b'', ex_node ''b'' ''c2'')]" by code_simp
  then have look: "fmlookup (wanted ex_backend ?ns) k = (if k = ''a'' then Some (ex_node ''a'' ''c9'')
      else if k = ''b'' then Some (ex_node ''b'' ''c2'') else None)" for k by (simp add: fmlookup_of_list)
  have nodes: "fmlookup (rb_nodes ex_backend) k = (if k = ''a'' then Some (ex_node ''a'' ''c1'')
      else if k = ''b'' then Some (ex_node ''b'' ''c2'') else None)" for k
    by (simp add: ex_backend_tables fmlookup_of_list)
  have "own_networks (wanted ex_backend ?ns)" unfolding own_networks_def look by (auto simp: ex_node_def split: if_splits)
  moreover have "range_order (rb_nodes ex_backend) [''a'', ''b'']" unfolding range_order_def by code_simp
  moreover have "fmlookup (rb_nodes ex_backend) ''a'' = Some (ex_node ''a'' ''c1'')"
    "fmlookup (wanted ex_backend ?ns) ''a'' \<noteq> None" by (simp_all add: look nodes)
  moreover have "\<forall>k y. fmlookup (wanted ex_backend ?ns) k = Some y \<longrightarrow> ni_PodCIDR y \<noteq> ni_PodCIDR (ex_node ''a'' ''c1'')"
    "\<forall>k y. fmlookup (rb_nodes ex_backend) k = Some y \<longrightarrow> ni_PodCIDR y = ni_PodCIDR (ex_node ''a'' ''c1'') \<longrightarrow> k = ''a''"
    unfolding look nodes by (auto simp: ex_node_def split: if_splits)
  ultimately have "fmlookup (rb_routes (fst (rb_SyncRoutes 0 [''a'', ''b''] [''a'', ''b''] ex_backend ?ns)))
      (ni_PodCIDR (ex_node ''a'' ''c1'')) = fmlookup (rb_routes ex_backend) (ni_PodCIDR (ex_node ''a'' ''c1''))"
    by (rule SyncRoutes_keeps_stale_route)
  moreover have "fmlookup (rb_routes ex_backend) ''c1'' \<noteq> None" by code_simp
  ultimately show ?thesis by (simp add: ex_node_def)
qed

text \<open>An update deletes the route of the node's old network even when that network belongs to
  another node by now: after node b takes over the network of node a and node a then moves to a
  new one, the node table still says that b has the network, and no route leads there. It
  happens on both back ends.\<close>

lemma UpdateNode_drops_foreign_route:
  "list_all (\<lambda>mode. case NewRoutingBackend mode fmempty of
     Ret b0 \<Rightarrow>
       (let b1 = fst (rb_Init b0 (ex_node ''me'' ''c0''));
            b2 = fst (rb_AddNode 0 b1 (ex_node ''a'' ''c1''));
            b3 = fst (rb_UpdateNode 0 b2 (ex_node ''b'' ''c1''));
            b4 = fst (rb_UpdateNode 0 b3 (ex_node ''a'' ''c2''))
        in fmlookup (rb_nodes b4) ''b'' = Some (ex_node ''b'' ''c1'') \<and> fmlookup (rb_routes b4) ''c1'' = None)
   | _ \<Rightarrow> False) [ModeBGP, ModeVXLAN]"
  by code_simp

text \<open>The address a VXLAN node gets is made of the number of nodes at that moment, so after a removal
  a new node gets the address of another one.\<close>

lemma vxlan_mac_reused:
  "let v0 = fst (vx_Init (NewVXLANBackend \<lparr>vc_VNI = 0, vc_Port = 0, vc_InterfaceName = [], vc_MTU = 0\<rparr>) no_node);
       v1 = fst (vx_AddNode (fst (vx_AddNode v0 (ex_node ''a'' ''c1''))) (ex_node ''b'' ''c2''));
       v2 = fst (vx_AddNode (fst (vx_RemoveNode v1 ''a'')) (ex_node ''c'' ''c3''))
   in map_option fdb_MAC (fmlookup (GetFDB v2) ''b'') = map_option fdb_MAC (fmlookup (GetFDB v2) ''c'')"
  by code_simp

end
