(* ===== verification/Identity.thy ===== *)
theory Identity
  imports Sha256
begin

text \<open>
  Security identities, \<^verbatim>\<open>src/pkg/policy/identity.go\<close>: one numeric identity per label set, found
  through the digest of the labels and reference-counted. The digest is the argument \<open>H\<close>; the
  counter \<open>nextID\<close> keeps its 32 bits and wraps. A pointer to an identity is the identity's number:
  the map \<open>identities\<close> is the store, and a read of a missing entry is a nil pointer.

  The lemmas show the invariant between the two maps as long as the counter has not wrapped,
  that live identities separate label sets, that the counts implement a multiset of label
  sets, and what happens when the counter does wrap.
\<close>

subsection \<open>State\<close>

record Identity =
  id_ID :: u32
  id_Labels :: labels
  id_LabelHash :: string
  id_RefCount :: int
  id_Nodes :: "string fset"

record IdentityAllocator =
  ia_identities :: "(u32, Identity) fmap"
  ia_hashToID :: "(string, u32) fmap"
  ia_nextID :: u32

subsection \<open>Operations\<close>

definition NewIdentityAllocator :: IdentityAllocator where
  "NewIdentityAllocator = \<lparr>ia_identities = fmempty, ia_hashToID = fmempty, ia_nextID = 1\<rparr>"

definition hashLabels :: "(byte list \<Rightarrow> byte list) \<Rightarrow> labels \<Rightarrow> string" where
  "hashLabels H ls = hex_bytes (H (bytes_of (label_text ls)))"

definition AllocateIdentity ::
  "(byte list \<Rightarrow> byte list) \<Rightarrow> IdentityAllocator \<Rightarrow> labels \<Rightarrow> IdentityAllocator \<times> Identity outcome" where
  "AllocateIdentity H a ls =
     (let hash = hashLabels H ls in
      case fmlookup (ia_hashToID a) hash of
        Some i \<Rightarrow>
          (case fmlookup (ia_identities a) i of
             None \<Rightarrow> (a, Panic nil_panic)
           | Some identity \<Rightarrow>
               let identity' = identity\<lparr>id_RefCount := wrap64 (id_RefCount identity + 1)\<rparr>
               in (a\<lparr>ia_identities := fmupd i identity' (ia_identities a)\<rparr>, Ret identity'))
      | None \<Rightarrow>
          let i = ia_nextID a;
              identity = \<lparr>id_ID = i, id_Labels = ls, id_LabelHash = hash, id_RefCount = 1, id_Nodes = {||}\<rparr>
          in (a\<lparr>ia_nextID := ia_nextID a + 1,
                ia_identities := fmupd i identity (ia_identities a),
                ia_hashToID := fmupd hash i (ia_hashToID a)\<rparr>, Ret identity))"

definition identity_not_found :: "u32 \<Rightarrow> string" where
  "identity_not_found i = ''identity '' @ show_nat (unat i) @ '' not found''"

definition ReleaseIdentity :: "IdentityAllocator \<Rightarrow> u32 \<Rightarrow> IdentityAllocator \<times> unit outcome" where
  "ReleaseIdentity a i =
     (case fmlookup (ia_identities a) i of
        None \<Rightarrow> (a, Err (identity_not_found i))
      | Some identity \<Rightarrow>
          let identity' = identity\<lparr>id_RefCount := wrap64 (id_RefCount identity - 1)\<rparr> in
          if id_RefCount identity' \<le> 0
          then (a\<lparr>ia_hashToID := fmdrop (id_LabelHash identity) (ia_hashToID a),
                  ia_identities := fmdrop i (ia_identities a)\<rparr>, Ret ())
          else (a\<lparr>ia_identities := fmupd i identity' (ia_identities a)\<rparr>, Ret ()))"

definition GetIdentity :: "IdentityAllocator \<Rightarrow> u32 \<Rightarrow> Identity option" where
  "GetIdentity a i = fmlookup (ia_identities a) i"

text \<open>The second result is whether the labels are known; the first may be a nil pointer.\<close>

definition GetIdentityByLabels ::
  "(byte list \<Rightarrow> byte list) \<Rightarrow> IdentityAllocator \<Rightarrow> labels \<Rightarrow> Identity option \<times> bool" where
  "GetIdentityByLabels H a ls =
     (case fmlookup (ia_hashToID a) (hashLabels H ls) of
        None \<Rightarrow> (None, False)
      | Some i \<Rightarrow> (fmlookup (ia_identities a) i, True))"

definition GetIdentitiesForNode :: "u32 list \<Rightarrow> IdentityAllocator \<Rightarrow> string \<Rightarrow> Identity list" where
  "GetIdentitiesForNode order a nodeName =
     filter (\<lambda>identity. nodeName |\<in>| id_Nodes identity)
       (List.map_filter (fmlookup (ia_identities a)) order)"

definition AddNodeReference ::
  "IdentityAllocator \<Rightarrow> u32 \<Rightarrow> string \<Rightarrow> IdentityAllocator \<times> unit outcome" where
  "AddNodeReference a i nodeName =
     (case fmlookup (ia_identities a) i of
        None \<Rightarrow> (a, Err (identity_not_found i))
      | Some identity \<Rightarrow>
          (a\<lparr>ia_identities := fmupd i (identity\<lparr>id_Nodes := finsert nodeName (id_Nodes identity)\<rparr>)
                                (ia_identities a)\<rparr>, Ret ()))"

definition RemoveNodeReference ::
  "IdentityAllocator \<Rightarrow> u32 \<Rightarrow> string \<Rightarrow> IdentityAllocator \<times> unit outcome" where
  "RemoveNodeReference a i nodeName =
     (case fmlookup (ia_identities a) i of
        None \<Rightarrow> (a, Err (identity_not_found i))
      | Some identity \<Rightarrow>
          (a\<lparr>ia_identities := fmupd i (identity\<lparr>id_Nodes := id_Nodes identity |-| {|nodeName|}\<rparr>)
                                (ia_identities a)\<rparr>, Ret ()))"

subsection \<open>Sequences of operations\<close>

datatype identity_op =
    OpAllocateIdentity labels
  | OpReleaseIdentity u32
  | OpAddNode u32 string
  | OpRemoveNode u32 string

fun identity_step ::
  "(byte list \<Rightarrow> byte list) \<Rightarrow> IdentityAllocator \<Rightarrow> identity_op \<Rightarrow> IdentityAllocator" where
  "identity_step H a (OpAllocateIdentity ls) = fst (AllocateIdentity H a ls)"
| "identity_step H a (OpReleaseIdentity i) = fst (ReleaseIdentity a i)"
| "identity_step H a (OpAddNode i n) = fst (AddNodeReference a i n)"
| "identity_step H a (OpRemoveNode i n) = fst (RemoveNodeReference a i n)"

text \<open>The label sets a sequence of operations hashes.\<close>

fun labels_used :: "identity_op list \<Rightarrow> labels set" where
  "labels_used [] = {}"
| "labels_used (OpAllocateIdentity ls # es) = insert ls (labels_used es)"
| "labels_used (_ # es) = labels_used es"

subsection \<open>Invariant\<close>

text \<open>The two maps are inverse to each other on live identities; every live number has been handed
  out and every count is at least one and at most the number of operations \<open>n\<close> so far.\<close>

definition identity_ok :: "(byte list \<Rightarrow> byte list) \<Rightarrow> labels set \<Rightarrow> nat \<Rightarrow> IdentityAllocator \<Rightarrow> bool" where
  "identity_ok H X n a \<longleftrightarrow>
     (\<forall>i d. fmlookup (ia_identities a) i = Some d \<longrightarrow>
        id_ID d = i \<and> id_LabelHash d = hashLabels H (id_Labels d) \<and> id_Labels d \<in> X \<and>
        fmlookup (ia_hashToID a) (id_LabelHash d) = Some i \<and>
        1 \<le> id_RefCount d \<and> id_RefCount d \<le> int n \<and> 1 \<le> unat i \<and> unat i < unat (ia_nextID a)) \<and>
     (\<forall>h i. fmlookup (ia_hashToID a) h = Some i \<longrightarrow>
        (\<exists>d. fmlookup (ia_identities a) i = Some d \<and> id_LabelHash d = h)) \<and>
     1 \<le> unat (ia_nextID a) \<and> unat (ia_nextID a) \<le> n + 1"

lemma identity_okD:
  assumes "identity_ok H X n a" and "fmlookup (ia_identities a) i = Some d"
  shows "id_ID d = i" "id_LabelHash d = hashLabels H (id_Labels d)" "id_Labels d \<in> X"
    "fmlookup (ia_hashToID a) (id_LabelHash d) = Some i" "1 \<le> id_RefCount d" "id_RefCount d \<le> int n"
    "1 \<le> unat i" "unat i < unat (ia_nextID a)"
  using assms unfolding identity_ok_def by blast+

lemma identity_ok_hash:
  assumes "identity_ok H X n a" and "fmlookup (ia_hashToID a) h = Some i"
  obtains d where "fmlookup (ia_identities a) i = Some d" "id_LabelHash d = h"
  using assms unfolding identity_ok_def by blast

lemma identity_ok_next:
  "identity_ok H X n a \<Longrightarrow> 1 \<le> unat (ia_nextID a) \<and> unat (ia_nextID a) \<le> n + 1"
  by (simp add: identity_ok_def)

lemma wrap64_id: "- (2 ^ 63) \<le> x \<Longrightarrow> x < 2 ^ 63 \<Longrightarrow> wrap64 x = x"
  by (simp add: wrap64_def)

text \<open>The state with one identity stored anew, and the one with one identity forgotten.\<close>

definition put_identity :: "IdentityAllocator \<Rightarrow> Identity \<Rightarrow> IdentityAllocator" where
  "put_identity a d = a\<lparr>ia_identities := fmupd (id_ID d) d (ia_identities a)\<rparr>"

definition drop_identity :: "IdentityAllocator \<Rightarrow> Identity \<Rightarrow> IdentityAllocator" where
  "drop_identity a d = a\<lparr>ia_hashToID := fmdrop (id_LabelHash d) (ia_hashToID a),
     ia_identities := fmdrop (id_ID d) (ia_identities a)\<rparr>"

definition new_identity :: "(byte list \<Rightarrow> byte list) \<Rightarrow> IdentityAllocator \<Rightarrow> labels \<Rightarrow> Identity" where
  "new_identity H a ls = \<lparr>id_ID = ia_nextID a, id_Labels = ls, id_LabelHash = hashLabels H ls,
     id_RefCount = 1, id_Nodes = {||}\<rparr>"

definition add_identity :: "IdentityAllocator \<Rightarrow> Identity \<Rightarrow> IdentityAllocator" where
  "add_identity a d = a\<lparr>ia_nextID := ia_nextID a + 1,
     ia_identities := fmupd (id_ID d) d (ia_identities a),
     ia_hashToID := fmupd (id_LabelHash d) (id_ID d) (ia_hashToID a)\<rparr>"

lemma AllocateIdentity_cases [consumes 2, case_names old new]:
  assumes "identity_ok H X n a" and "n < 2 ^ 62"
  obtains d where "fmlookup (ia_hashToID a) (hashLabels H ls) = Some (id_ID d)"
      "fmlookup (ia_identities a) (id_ID d) = Some d" "id_LabelHash d = hashLabels H ls"
      "AllocateIdentity H a ls =
        (put_identity a (d\<lparr>id_RefCount := id_RefCount d + 1\<rparr>), Ret (d\<lparr>id_RefCount := id_RefCount d + 1\<rparr>))"
  | "fmlookup (ia_hashToID a) (hashLabels H ls) = None"
      "AllocateIdentity H a ls = (add_identity a (new_identity H a ls), Ret (new_identity H a ls))"
proof (cases "fmlookup (ia_hashToID a) (hashLabels H ls)")
  case None
  then show ?thesis
    by (intro that(2)) (simp_all add: AllocateIdentity_def Let_def new_identity_def add_identity_def)
next
  case (Some i)
  then obtain d where d: "fmlookup (ia_identities a) i = Some d" "id_LabelHash d = hashLabels H ls"
    using identity_ok_hash [OF assms(1)] by blast
  have "id_ID d = i" by (rule identity_okD(1) [OF assms(1) d(1)])
  moreover have "wrap64 (id_RefCount d + 1) = id_RefCount d + 1"
    using identity_okD(5,6) [OF assms(1) d(1)] assms(2) by (intro wrap64_id) auto
  ultimately show ?thesis
    using that(1) [of d] Some d by (simp add: AllocateIdentity_def Let_def put_identity_def)
qed

lemma ReleaseIdentity_cases [consumes 2, case_names absent last more]:
  assumes "identity_ok H X n a" and "n < 2 ^ 62"
  obtains "fmlookup (ia_identities a) i = None"
      "ReleaseIdentity a i = (a, Err (identity_not_found i))"
  | d where "fmlookup (ia_identities a) i = Some d" "id_RefCount d = 1"
      "ReleaseIdentity a i = (drop_identity a d, Ret ())"
  | d where "fmlookup (ia_identities a) i = Some d" "1 < id_RefCount d"
      "ReleaseIdentity a i = (put_identity a (d\<lparr>id_RefCount := id_RefCount d - 1\<rparr>), Ret ())"
proof (cases "fmlookup (ia_identities a) i")
  case None
  then show ?thesis using that(1) by (simp add: ReleaseIdentity_def)
next
  case (Some d)
  note ok = identity_okD [OF assms(1) Some]
  have w: "wrap64 (id_RefCount d - 1) = id_RefCount d - 1"
    using ok(5,6) assms(2) by (intro wrap64_id) auto
  have i: "id_ID d = i" by (rule ok(1))
  show ?thesis
  proof (cases "id_RefCount d = 1")
    case True
    then show ?thesis
      using that(2) [OF Some] Some w i by (simp add: ReleaseIdentity_def Let_def drop_identity_def)
  next
    case False
    with ok(5) have "1 < id_RefCount d" by simp
    then show ?thesis
      using that(3) [OF Some] Some w i by (simp add: ReleaseIdentity_def Let_def put_identity_def)
  qed
qed

subsection \<open>Preservation\<close>

lemma identity_ok_mono:
  assumes ok: "identity_ok H X n a" and "n \<le> m" and "X \<subseteq> Y"
  shows "identity_ok H Y m a"
proof -
  have "id_RefCount d \<le> int m \<and> id_Labels d \<in> Y" if "fmlookup (ia_identities a) i = Some d" for i d
    using identity_okD(3,6) [OF ok that] assms(2,3) by auto
  moreover have "unat (ia_nextID a) \<le> m + 1" using identity_ok_next [OF ok] assms(2) by linarith
  ultimately show ?thesis using ok unfolding identity_ok_def by blast
qed

lemma put_identity_ok:
  assumes ok: "identity_ok H X n a" and d: "fmlookup (ia_identities a) i = Some d"
    and e: "id_ID e = id_ID d" "id_Labels e = id_Labels d" "id_LabelHash e = id_LabelHash d"
      "1 \<le> id_RefCount e" "id_RefCount e \<le> int n + 1"
  shows "identity_ok H X (n + 1) (put_identity a e)"
proof -
  note D = identity_okD [OF ok]
  have i: "id_ID d = i" by (rule D(1) [OF d])
  show ?thesis unfolding identity_ok_def
  proof (intro conjI allI impI)
    fix j f assume "fmlookup (ia_identities (put_identity a e)) j = Some f"
    then have f: "j = i \<and> f = e \<or> j \<noteq> i \<and> fmlookup (ia_identities a) j = Some f"
      by (auto simp: put_identity_def e i split: if_splits)
    note Dj = D [of j f] and Di = D [OF d]
    show "id_ID f = j" "id_LabelHash f = hashLabels H (id_Labels f)" "id_Labels f \<in> X"
      "fmlookup (ia_hashToID (put_identity a e)) (id_LabelHash f) = Some j" "1 \<le> id_RefCount f"
      "1 \<le> unat j" "unat j < unat (ia_nextID (put_identity a e))"
      using f Dj Di e by (auto simp: put_identity_def)
    show "id_RefCount f \<le> int (n + 1)" using f Dj(6) e by auto
  next
    fix h j assume "fmlookup (ia_hashToID (put_identity a e)) h = Some j"
    then show "\<exists>f. fmlookup (ia_identities (put_identity a e)) j = Some f \<and> id_LabelHash f = h"
      using identity_ok_hash [OF ok] d e i by (fastforce simp: put_identity_def)
  qed (use identity_ok_next [OF ok] in \<open>auto simp: put_identity_def\<close>)
qed

lemma drop_identity_ok:
  assumes ok: "identity_ok H X n a" and d: "fmlookup (ia_identities a) i = Some d"
  shows "identity_ok H X n (drop_identity a d)"
proof -
  note D = identity_okD [OF ok]
  have i: "id_ID d = i" by (rule D(1) [OF d])
  show ?thesis unfolding identity_ok_def
  proof (intro conjI allI impI)
    fix j f assume "fmlookup (ia_identities (drop_identity a d)) j = Some f"
    then have f: "j \<noteq> i" "fmlookup (ia_identities a) j = Some f"
      by (auto simp: drop_identity_def i split: if_splits)
    have "id_LabelHash f \<noteq> id_LabelHash d" using D(4) [OF f(2)] D(4) [OF d] f(1) by auto
    then show "fmlookup (ia_hashToID (drop_identity a d)) (id_LabelHash f) = Some j"
      using D(4) [OF f(2)] by (simp add: drop_identity_def)
    show "id_ID f = j" "id_LabelHash f = hashLabels H (id_Labels f)" "id_Labels f \<in> X"
      "1 \<le> id_RefCount f" "id_RefCount f \<le> int n" "1 \<le> unat j"
      "unat j < unat (ia_nextID (drop_identity a d))"
      using D [OF f(2)] by (auto simp: drop_identity_def)
  next
    fix h j assume "fmlookup (ia_hashToID (drop_identity a d)) h = Some j"
    then have h: "h \<noteq> id_LabelHash d" "fmlookup (ia_hashToID a) h = Some j"
      by (auto simp: drop_identity_def split: if_splits)
    then obtain f where f: "fmlookup (ia_identities a) j = Some f" "id_LabelHash f = h"
      using identity_ok_hash [OF ok] by blast
    moreover have "j \<noteq> i" using f h d by auto
    ultimately show "\<exists>f. fmlookup (ia_identities (drop_identity a d)) j = Some f \<and> id_LabelHash f = h"
      by (simp add: drop_identity_def i)
  qed (use identity_ok_next [OF ok] in \<open>auto simp: drop_identity_def\<close>)
qed

lemma unat_next:
  "n + 2 < 2 ^ 32 \<Longrightarrow> unat (x::u32) \<le> n + 1 \<Longrightarrow> unat (x + 1) = unat x + 1"
  by (subst unat_add_lem [THEN iffD1]) (auto)

lemma add_identity_ok:
  assumes ok: "identity_ok H X n a" and n: "n + 2 < 2 ^ 32" and ls: "ls \<in> X"
    and new: "fmlookup (ia_hashToID a) (hashLabels H ls) = None"
  shows "identity_ok H X (n + 1) (add_identity a (new_identity H a ls))"
proof -
  note D = identity_okD [OF ok]
  let ?d = "new_identity H a ls" and ?b = "add_identity a (new_identity H a ls)"
  have nx: "unat (ia_nextID a + 1) = unat (ia_nextID a) + 1"
    using unat_next [OF n] identity_ok_next [OF ok] by blast
  show ?thesis unfolding identity_ok_def
  proof (intro conjI allI impI)
    fix j f assume "fmlookup (ia_identities ?b) j = Some f"
    then consider "j = ia_nextID a" "f = ?d"
      | "j \<noteq> ia_nextID a" "fmlookup (ia_identities a) j = Some f"
      by (auto simp: add_identity_def new_identity_def split: if_splits)
    then have "id_ID f = j \<and> id_LabelHash f = hashLabels H (id_Labels f) \<and> id_Labels f \<in> X \<and>
      fmlookup (ia_hashToID ?b) (id_LabelHash f) = Some j \<and> 1 \<le> id_RefCount f \<and>
      id_RefCount f \<le> int (n + 1) \<and> 1 \<le> unat j \<and> unat j < unat (ia_nextID ?b)"
    proof cases
      case 1
      then show ?thesis
        using ls nx identity_ok_next [OF ok] by (auto simp: add_identity_def new_identity_def)
    next
      case 2
      note Dj = D [OF 2(2)]
      have "id_LabelHash f \<noteq> hashLabels H ls" using Dj(4) new by auto
      then show ?thesis using Dj nx by (auto simp: add_identity_def new_identity_def)
    qed
    then show "id_ID f = j" "id_LabelHash f = hashLabels H (id_Labels f)" "id_Labels f \<in> X"
      "fmlookup (ia_hashToID ?b) (id_LabelHash f) = Some j" "1 \<le> id_RefCount f"
      "id_RefCount f \<le> int (n + 1)" "1 \<le> unat j" "unat j < unat (ia_nextID ?b)" by blast+
  next
    fix h j assume h: "fmlookup (ia_hashToID ?b) h = Some j"
    show "\<exists>f. fmlookup (ia_identities ?b) j = Some f \<and> id_LabelHash f = h"
    proof (cases "h = hashLabels H ls")
      case True
      then show ?thesis using h by (auto simp: add_identity_def new_identity_def)
    next
      case False
      then have "fmlookup (ia_hashToID a) h = Some j"
        using h by (simp add: add_identity_def new_identity_def split: if_splits)
      then obtain f where f: "fmlookup (ia_identities a) j = Some f" "id_LabelHash f = h"
        using identity_ok_hash [OF ok] by blast
      moreover have "j \<noteq> ia_nextID a" using D(8) [OF f(1)] by auto
      ultimately show ?thesis by (simp add: add_identity_def new_identity_def)
    qed
  qed (use nx identity_ok_next [OF ok] in \<open>auto simp: add_identity_def\<close>)
qed

lemma AllocateIdentity_ok:
  assumes "identity_ok H X n a" and "n + 2 < 2 ^ 32" and "ls \<in> X"
  shows "identity_ok H X (n + 1) (fst (AllocateIdentity H a ls))"
proof -
  from assms(2) have "n < 2 ^ 62" by simp
  with assms(1) show ?thesis
  proof (cases rule: AllocateIdentity_cases [of H X n a ls])
    case (old d)
    then show ?thesis
      using put_identity_ok [OF assms(1) old(2)] identity_okD [OF assms(1) old(2)] by simp
  next
    case new
    then show ?thesis using add_identity_ok [OF assms new(1)] by simp
  qed
qed

lemma AllocateIdentity_Ret:
  assumes "identity_ok H X n a" and "n + 2 < 2 ^ 32"
  obtains b d where "AllocateIdentity H a ls = (b, Ret d)"
proof -
  from assms(2) have "n < 2 ^ 62" by simp
  with assms(1) show ?thesis
    by (cases rule: AllocateIdentity_cases [of H X n a ls]) (use that in blast)+
qed

lemma ReleaseIdentity_ok:
  assumes "identity_ok H X n a" and "n + 2 < 2 ^ 32"
  shows "identity_ok H X (n + 1) (fst (ReleaseIdentity a i))"
proof -
  from assms(2) have "n < 2 ^ 62" by simp
  with assms(1) show ?thesis
  proof (cases rule: ReleaseIdentity_cases [of H X n a i])
    case absent
    then show ?thesis using identity_ok_mono [OF assms(1)] by simp
  next
    case (last d)
    then show ?thesis using identity_ok_mono [OF drop_identity_ok [OF assms(1) last(1)]] by simp
  next
    case (more d)
    then show ?thesis
      using put_identity_ok [OF assms(1) more(1)] identity_okD [OF assms(1) more(1)] by simp
  qed
qed

lemma node_reference_ok:
  assumes ok: "identity_ok H X n a"
  shows "identity_ok H X (n + 1) (fst (AddNodeReference a i m))"
    and "identity_ok H X (n + 1) (fst (RemoveNodeReference a i m))"
proof -
  have "identity_ok H X (n + 1) (case fmlookup (ia_identities a) i of None \<Rightarrow> a
      | Some d \<Rightarrow> a\<lparr>ia_identities := fmupd i (d\<lparr>id_Nodes := f d\<rparr>) (ia_identities a)\<rparr>)" for f
  proof (cases "fmlookup (ia_identities a) i")
    case None
    then show ?thesis using identity_ok_mono [OF ok] by simp
  next
    case (Some d)
    note D = identity_okD [OF ok Some]
    have "identity_ok H X (n + 1) (put_identity a (d\<lparr>id_Nodes := f d\<rparr>))"
      by (rule put_identity_ok [OF ok Some]) (use D in auto)
    then show ?thesis using Some D(1) by (simp add: put_identity_def)
  qed
  from this [of "\<lambda>d. finsert m (id_Nodes d)"] this [of "\<lambda>d. id_Nodes d |-| {|m|}"]
  show "identity_ok H X (n + 1) (fst (AddNodeReference a i m))"
    and "identity_ok H X (n + 1) (fst (RemoveNodeReference a i m))"
    by (auto simp: AddNodeReference_def RemoveNodeReference_def split: option.splits)
qed

lemma identity_run_ok:
  "identity_ok H X n a \<Longrightarrow> n + length es + 1 < 2 ^ 32 \<Longrightarrow> labels_used es \<subseteq> X \<Longrightarrow>
     identity_ok H X (n + length es) (foldl (identity_step H) a es)"
proof (induction es arbitrary: a n)
  case (Cons e es)
  from Cons.prems(2) have n: "n + 2 < 2 ^ 32" by simp
  have "identity_ok H X (n + 1) (identity_step H a e) \<and> labels_used es \<subseteq> X"
    using Cons.prems
    by (cases e) (auto intro: AllocateIdentity_ok [OF _ n] ReleaseIdentity_ok [OF _ n] node_reference_ok
        simp del: add_is_0 One_nat_def)
  with Cons.IH [of "n + 1" "identity_step H a e"] Cons.prems(2) show ?case by simp
qed simp

lemma NewIdentityAllocator_ok: "identity_ok H X 0 NewIdentityAllocator"
  by (simp add: identity_ok_def NewIdentityAllocator_def)

subsection \<open>Reference counts\<close>

text \<open>How many references the allocator holds for a label set.\<close>

definition refs :: "(byte list \<Rightarrow> byte list) \<Rightarrow> IdentityAllocator \<Rightarrow> labels \<Rightarrow> nat" where
  "refs H a ls = (case fst (GetIdentityByLabels H a ls) of None \<Rightarrow> 0 | Some d \<Rightarrow> nat (id_RefCount d))"

lemma refs_put:
  assumes ok: "identity_ok H X n a" and d: "fmlookup (ia_identities a) i = Some d"
    and e: "id_ID e = id_ID d" and ls: "hashLabels H ls = id_LabelHash d \<longleftrightarrow> ls = id_Labels d"
  shows "refs H (put_identity a e) ls = (if ls = id_Labels d then nat (id_RefCount e) else refs H a ls)"
proof -
  note D = identity_okD [OF ok d]
  have "fmlookup (ia_hashToID a) (hashLabels H ls) = Some i \<longleftrightarrow> ls = id_Labels d"
    using D(4) ls identity_ok_hash [OF ok, of "hashLabels H ls" i] d by (metis option.inject)
  then show ?thesis
    using D(1) e by (auto simp: refs_def GetIdentityByLabels_def put_identity_def split: option.splits)
qed

lemma refs_drop:
  assumes ok: "identity_ok H X n a" and d: "fmlookup (ia_identities a) i = Some d"
    and ls: "hashLabels H ls = id_LabelHash d \<longleftrightarrow> ls = id_Labels d"
  shows "refs H (drop_identity a d) ls = (if ls = id_Labels d then 0 else refs H a ls)"
proof -
  note D = identity_okD [OF ok d]
  have "fmlookup (ia_hashToID a) (hashLabels H ls) = Some i \<longleftrightarrow> ls = id_Labels d"
    using D(4) ls identity_ok_hash [OF ok, of "hashLabels H ls" i] d by (metis option.inject)
  then show ?thesis
    using D(1) ls by (auto simp: refs_def GetIdentityByLabels_def drop_identity_def split: option.splits)
qed

lemma refs_add:
  assumes ok: "identity_ok H X n a" and ls: "hashLabels H ls = hashLabels H ms \<longleftrightarrow> ls = ms"
    and new: "fmlookup (ia_hashToID a) (hashLabels H ms) = None"
  shows "refs H (add_identity a (new_identity H a ms)) ls = (if ls = ms then 1 else refs H a ls)"
proof -
  have "fmlookup (ia_hashToID a) h \<noteq> Some (ia_nextID a)" for h
    using identity_ok_hash [OF ok] identity_okD(8) [OF ok] by (metis less_irrefl)
  then show ?thesis
    using ls by (auto simp: refs_def GetIdentityByLabels_def add_identity_def new_identity_def
        split: option.splits)
qed

lemma refs_live:
  assumes "identity_ok H X n a" and "fmlookup (ia_identities a) i = Some d"
  shows "refs H a (id_Labels d) = nat (id_RefCount d)"
proof -
  note D = identity_okD [OF assms]
  have "fmlookup (ia_hashToID a) (hashLabels H (id_Labels d)) = Some i" using D(2,4) by simp
  then show ?thesis using assms(2) by (simp add: refs_def GetIdentityByLabels_def)
qed

lemma hashLabels_inj: "collision_free H X \<Longrightarrow> a \<in> X \<Longrightarrow> b \<in> X \<Longrightarrow> hashLabels H a = hashLabels H b \<longleftrightarrow> a = b"
  by (simp add: hashLabels_def collision_freeD)

lemma refs_Allocate:
  assumes "collision_free H X" and "identity_ok H X n a" and "n + 2 < 2 ^ 32"
    and "ls \<in> X" and "ms \<in> X"
  shows "refs H (fst (AllocateIdentity H a ls)) ms = refs H a ms + (if ms = ls then 1 else 0)"
proof -
  from assms(3) have n: "n < 2 ^ 62" by simp
  have hl: "hashLabels H x = hashLabels H y \<longleftrightarrow> x = y" if "x \<in> X" "y \<in> X" for x y
    by (rule hashLabels_inj [OF assms(1) that])
  have live: "hashLabels H ms = id_LabelHash d \<longleftrightarrow> ms = id_Labels d"
    if "fmlookup (ia_identities a) j = Some d" for j d
    using hl [OF assms(5) identity_okD(3) [OF assms(2) that]] identity_okD(2) [OF assms(2) that] by simp
  show ?thesis
    using assms(2) n
  proof (cases rule: AllocateIdentity_cases [of H X n a ls])
    case (old d)
    note D = identity_okD [OF assms(2) old(2)]
    have "id_Labels d = ls" using hl [OF D(3) assms(4)] D(2) old(3) by simp
    then show ?thesis
      using refs_put [OF assms(2) old(2) _ live [OF old(2)], of "d\<lparr>id_RefCount := id_RefCount d + 1\<rparr>"]
        refs_live [OF assms(2) old(2)] D(5) old(4) by (simp add: nat_add_distrib)
  next
    case new
    have "refs H a ls = 0" using new(1) by (simp add: refs_def GetIdentityByLabels_def)
    then show ?thesis using refs_add [OF assms(2) hl [OF assms(5,4)] new(1)] new(2) by simp
  qed
qed

lemma refs_Release:
  assumes "collision_free H X" and "identity_ok H X n a" and "n + 2 < 2 ^ 32" and "ms \<in> X"
  shows "case GetIdentity a i of
       None \<Rightarrow> ReleaseIdentity a i = (a, Err (identity_not_found i))
     | Some d \<Rightarrow> snd (ReleaseIdentity a i) = Ret () \<and>
         refs H (fst (ReleaseIdentity a i)) ms = refs H a ms - (if ms = id_Labels d then 1 else 0) \<and>
         (GetIdentity (fst (ReleaseIdentity a i)) i = None \<longleftrightarrow> refs H a (id_Labels d) = 1)"
proof -
  from assms(3) have n: "n < 2 ^ 62" by simp
  have hl: "hashLabels H x = hashLabels H y \<longleftrightarrow> x = y" if "x \<in> X" "y \<in> X" for x y
    by (rule hashLabels_inj [OF assms(1) that])
  have live: "hashLabels H ms = id_LabelHash d \<longleftrightarrow> ms = id_Labels d"
    if "fmlookup (ia_identities a) j = Some d" for j d
    using hl [OF assms(4) identity_okD(3) [OF assms(2) that]] identity_okD(2) [OF assms(2) that] by simp
  show ?thesis
    using assms(2) n
  proof (cases rule: ReleaseIdentity_cases [of H X n a i])
    case absent
    then show ?thesis by (simp add: GetIdentity_def)
  next
    case (last d)
    note D = identity_okD [OF assms(2) last(1)]
    show ?thesis
      using last refs_drop [OF assms(2) last(1) live [OF last(1)]] refs_live [OF assms(2) last(1)] D(1)
      by (auto simp: GetIdentity_def drop_identity_def)
  next
    case (more d)
    note D = identity_okD [OF assms(2) more(1)]
    have "nat (id_RefCount d) \<noteq> 1" using more(2) by simp
    then show ?thesis
      using more refs_put [OF assms(2) more(1) _ live [OF more(1)], of "d\<lparr>id_RefCount := id_RefCount d - 1\<rparr>"]
        refs_live [OF assms(2) more(1)] D(1)
      by (auto simp: GetIdentity_def put_identity_def nat_diff_distrib')
  qed
qed

text \<open>The identity an allocation returns is stored under its number and carries the labels; releasing
  it at once gives all counts back.\<close>

lemma AllocateIdentity_stored:
  assumes "collision_free H X" and "identity_ok H X n a" and "n + 2 < 2 ^ 32" and "ls \<in> X"
    and "AllocateIdentity H a ls = (b, Ret d)"
  shows "GetIdentity b (id_ID d) = Some d" "id_Labels d = ls"
proof -
  from assms(3) have "n < 2 ^ 62" by simp
  with assms(2) have "GetIdentity b (id_ID d) = Some d \<and> id_Labels d = ls"
  proof (cases rule: AllocateIdentity_cases [of H X n a ls])
    case (old e)
    have "id_Labels e = ls"
      using hashLabels_inj [OF assms(1) identity_okD(3) [OF assms(2) old(2)] assms(4)] identity_okD(2) [OF assms(2) old(2)] old(3)
      by simp
    then show ?thesis using old(4) assms(5) by (auto simp: GetIdentity_def put_identity_def)
  next
    case new
    then show ?thesis using assms(5) by (auto simp: GetIdentity_def add_identity_def new_identity_def)
  qed
  then show "GetIdentity b (id_ID d) = Some d" "id_Labels d = ls" by simp_all
qed

lemma refs_rollback:
  assumes "collision_free H X" and "identity_ok H X n a" and "n + 3 < 2 ^ 32" and "ls \<in> X" and "ms \<in> X"
    and "AllocateIdentity H a ls = (b, Ret d)"
  shows "refs H (fst (ReleaseIdentity b (id_ID d))) ms = refs H a ms"
proof -
  have n: "n + 2 < 2 ^ 32" "n + 1 + 2 < 2 ^ 32" using assms(3) by simp_all
  have b: "identity_ok H X (n + 1) b" using AllocateIdentity_ok [OF assms(2) n(1) assms(4)] assms(6) by simp
  note st = AllocateIdentity_stored [OF assms(1,2) n(1) assms(4,6)]
  show ?thesis
    using refs_Release [OF assms(1) b n(2) assms(5), of "id_ID d"] refs_Allocate [OF assms(1,2) n(1) assms(4,5)] st assms(6)
    by simp
qed

subsection \<open>Properties\<close>

definition ex_H :: "byte list \<Rightarrow> byte list" where
  "ex_H bs = 1 # bs"

definition ex_web :: labels where
  "ex_web = fmap_of_list [(''app'', ''web''), (''tier'', ''1'')]"

definition ex_db :: labels where
  "ex_db = fmap_of_list [(''app'', ''db'')]"

lemma ex_collision_free: "collision_free ex_H {ex_web, ex_db}"
proof -
  have "valid_labels ex_web" "valid_labels ex_db" by code_simp+
  then show ?thesis by (auto simp: collision_free_def ex_H_def)
qed

text \<open>C12. Identities separate label sets: after any sequence of fewer than 2^32 - 3 operations on
  a new allocator, and with a digest that has no collision among the label sets in use, asking
  for two label sets gives the same identity number exactly when the label sets are equal; the
  identities carry the labels asked for, and neither is the number 0.\<close>

theorem identities_separate_labels:
  assumes "collision_free H X" and "labels_used ops \<subseteq> X" and "ls \<in> X" and "ms \<in> X"
    and "length ops + 3 < 2 ^ 32"
  shows "\<exists>b c d e.
    AllocateIdentity H (foldl (identity_step H) NewIdentityAllocator ops) ls = (b, Ret d) \<and>
    AllocateIdentity H b ms = (c, Ret e) \<and> (id_ID d = id_ID e \<longleftrightarrow> ls = ms) \<and>
    id_Labels d = ls \<and> id_Labels e = ms \<and> id_ID d \<noteq> 0 \<and> id_ID e \<noteq> 0"
proof -
  let ?a = "foldl (identity_step H) NewIdentityAllocator ops" and ?n = "length ops"
  have res: "\<exists>b d. AllocateIdentity H s x = (b, Ret d) \<and> id_Labels d = x \<and>
      fmlookup (ia_identities b) (id_ID d) = Some d \<and>
      (\<forall>i f. fmlookup (ia_identities s) i = Some f \<longrightarrow>
        (\<exists>f'. fmlookup (ia_identities b) i = Some f' \<and> id_Labels f' = id_Labels f))"
    if ok: "identity_ok H X n s" and n: "n < 2 ^ 62" and x: "x \<in> X" for n s x
    using ok n
  proof (cases rule: AllocateIdentity_cases [of H X n s x])
    case (old d)
    have "id_Labels d = x"
      using hashLabels_inj [OF assms(1)] identity_okD(2,3) [OF ok old(2)] old(3) x by metis
    then have "id_Labels (d\<lparr>id_RefCount := id_RefCount d + 1\<rparr>) = x" by simp
    then show ?thesis unfolding old(4) by (auto simp: put_identity_def old(2))
  next
    case new
    have "fmlookup (ia_identities s) (ia_nextID s) = None"
      using identity_okD(8) [OF ok] by (metis less_irrefl not_None_eq)
    then show ?thesis using new by (auto simp: add_identity_def new_identity_def)
  qed
  have ok: "identity_ok H X ?n ?a"
    using identity_run_ok [OF NewIdentityAllocator_ok, where es = ops and H = H and X = X] assms(2,5) by simp
  from res [OF ok _ assms(3)] assms(5) obtain b d where b: "AllocateIdentity H ?a ls = (b, Ret d)"
    "id_Labels d = ls" "fmlookup (ia_identities b) (id_ID d) = Some d" by auto
  have ok': "identity_ok H X (?n + 1) b"
    using AllocateIdentity_ok [OF ok _ assms(3)] assms(5) b(1) by simp
  from res [OF ok' _ assms(4)] assms(5) obtain c e where c: "AllocateIdentity H b ms = (c, Ret e)"
    "id_Labels e = ms" "fmlookup (ia_identities c) (id_ID e) = Some e"
    "\<exists>f. fmlookup (ia_identities c) (id_ID d) = Some f \<and> id_Labels f = id_Labels d" using b(3) by auto
  have ok'': "identity_ok H X (?n + 2) c"
    using AllocateIdentity_ok [OF ok' _ assms(4)] assms(5) c(1) by simp
  obtain f where f: "fmlookup (ia_identities c) (id_ID d) = Some f" "id_Labels f = ls" using c(4) b(2) by auto
  have "id_ID d = id_ID e \<longleftrightarrow> ls = ms"
    using identity_okD(2,4) [OF ok'' f(1)] identity_okD(2,4) [OF ok'' c(3)] f c(2,3) by (metis option.inject)
  moreover have "id_ID d \<noteq> 0" "id_ID e \<noteq> 0"
    using identity_okD(7) [OF ok'' f(1)] identity_okD(7) [OF ok'' c(3)] by auto
  ultimately show ?thesis using b(1,2) c(1,2) by blast
qed

theorem identities_separate_labels_witness:
  "\<exists>b c d e. AllocateIdentity ex_H (foldl (identity_step ex_H) NewIdentityAllocator
       [OpAllocateIdentity ex_web, OpAddNode 1 ''n1'', OpReleaseIdentity 1]) ex_web = (b, Ret d) \<and>
     AllocateIdentity ex_H b ex_db = (c, Ret e) \<and> id_ID d \<noteq> id_ID e \<and> id_ID e \<noteq> 0"
proof -
  let ?ops = "[OpAllocateIdentity ex_web, OpAddNode 1 ''n1'', OpReleaseIdentity 1]"
  have "labels_used ?ops \<subseteq> {ex_web, ex_db}" "length ?ops + 3 < 2 ^ 32" by simp_all
  moreover have "ex_web \<noteq> ex_db" by code_simp
  ultimately show ?thesis
    using identities_separate_labels [OF ex_collision_free, of ?ops ex_web ex_db] by blast
qed

text \<open>C13. The reference counts implement a multiset of label sets. In a state the operations
  reach, AllocateIdentity adds one occurrence of the label set asked for and touches no other
  count; ReleaseIdentity removes one occurrence of the labels of the identity named, which is
  collected exactly when that was the last one; releasing an unknown number is an error that
  changes nothing.\<close>

theorem identity_counts_refine_multiset:
  assumes "collision_free H X" and "identity_ok H X n a" and "n + 2 < 2 ^ 32"
    and "ls \<in> X" and "ms \<in> X"
  shows "refs H (fst (AllocateIdentity H a ls)) ms = refs H a ms + (if ms = ls then 1 else 0) \<and>
    (case GetIdentity a i of
       None \<Rightarrow> ReleaseIdentity a i = (a, Err (identity_not_found i))
     | Some d \<Rightarrow> snd (ReleaseIdentity a i) = Ret () \<and>
         refs H (fst (ReleaseIdentity a i)) ms = refs H a ms - (if ms = id_Labels d then 1 else 0) \<and>
         (GetIdentity (fst (ReleaseIdentity a i)) i = None \<longleftrightarrow> refs H a (id_Labels d) = 1))"
  using refs_Allocate [OF assms] refs_Release [OF assms(1-3,5), of i] by blast

theorem identity_counts_refine_multiset_witness:
  "\<exists>a. refs ex_H a ex_web = 2 \<and> refs ex_H (fst (AllocateIdentity ex_H a ex_web)) ex_web = 3 \<and>
     refs ex_H (fst (ReleaseIdentity a 1)) ex_web = 1"
proof -
  let ?ops = "[OpAllocateIdentity ex_web, OpAllocateIdentity ex_web]"
  define a where "a = foldl (identity_step ex_H) NewIdentityAllocator ?ops"
  have ok: "identity_ok ex_H {ex_web, ex_db} (0 + length ?ops) a"
    unfolding a_def by (rule identity_run_ok [OF NewIdentityAllocator_ok]) simp_all
  have two: "refs ex_H a ex_web = 2" unfolding a_def by code_simp
  obtain d where d: "GetIdentity a 1 = Some d" "id_Labels d = ex_web"
  proof
    show "GetIdentity a 1 = Some (the (GetIdentity a 1))" unfolding a_def by code_simp
    show "id_Labels (the (GetIdentity a 1)) = ex_web" unfolding a_def by code_simp
  qed
  from identity_counts_refine_multiset [OF ex_collision_free ok, of ex_web ex_web 1]
  have "refs ex_H (fst (AllocateIdentity ex_H a ex_web)) ex_web = 3"
    and "refs ex_H (fst (ReleaseIdentity a 1)) ex_web = 1"
    by (simp_all add: d two)
  with two show ?thesis by blast
qed

subsection \<open>The counter wraps\<close>

text \<open>An allocator that holds one identity, and the churn of pods of another label set that come
  and go \<open>N\<close> times.\<close>

definition holding :: "(byte list \<Rightarrow> byte list) \<Rightarrow> labels \<Rightarrow> u32 \<Rightarrow> IdentityAllocator" where
  "holding H ls n = \<lparr>
     ia_identities = fmupd 1 \<lparr>id_ID = 1, id_Labels = ls, id_LabelHash = hashLabels H ls,
                             id_RefCount = 1, id_Nodes = {||}\<rparr> fmempty,
     ia_hashToID = fmupd (hashLabels H ls) 1 fmempty, ia_nextID = n\<rparr>"

definition churn :: "labels \<Rightarrow> nat \<Rightarrow> identity_op list" where
  "churn ms N = concat (map (\<lambda>k. [OpAllocateIdentity ms, OpReleaseIdentity (2 + of_nat k)]) [0..<N])"

lemma churn_step:
  assumes "hashLabels H ls \<noteq> hashLabels H ms" and "n \<noteq> 1"
  shows "identity_step H (identity_step H (holding H ls n) (OpAllocateIdentity ms)) (OpReleaseIdentity n)
       = holding H ls (n + 1)"
  using assms
  by (auto simp: AllocateIdentity_def ReleaseIdentity_def holding_def Let_def wrap64_def intro!: fmap_ext)

lemma churn_run:
  assumes "hashLabels H ls \<noteq> hashLabels H ms" and "N < 2 ^ 32"
  shows "foldl (identity_step H) (holding H ls 2) (churn ms N) = holding H ls (2 + of_nat N)"
  using assms(2)
proof (induction N)
  case 0
  then show ?case by (simp add: churn_def)
next
  case (Suc N)
  have "(2 + of_nat N :: u32) \<noteq> 1"
  proof
    assume "(2 + of_nat N :: u32) = 1"
    then have "of_nat (N + 1) = (0 :: u32)" by (simp add: algebra_simps)
    then have "unat (of_nat (N + 1) :: u32) = 0" by simp
    then show False
      using Suc.prems by (simp add: unsigned_of_nat take_bit_nat_eq_self del: of_nat_add of_nat_Suc)
  qed
  note step = churn_step [OF assms(1) this]
  have "churn ms (Suc N) = churn ms N @ [OpAllocateIdentity ms, OpReleaseIdentity (2 + of_nat N)]"
    by (simp add: churn_def)
  then show ?case using Suc step by (simp add: add.assoc add.commute)
qed

text \<open>C31. The 32-bit counter is not protected against wrap-around: while a pod holds identity 1,
  2^32 - 1 allocations and releases for another label set bring the counter back to 1, and the
  next label set that asks gets the number 1 too. The two label sets then share one identity,
  and a look-up by the first pod's labels yields the labels of the other.\<close>

theorem identity_wraparound_aliases:
  assumes "hashLabels H ls \<noteq> hashLabels H ms" and "hashLabels H ls \<noteq> hashLabels H xs"
  shows "\<exists>b d. AllocateIdentity H (foldl (identity_step H) NewIdentityAllocator
       (OpAllocateIdentity ls # churn ms (2 ^ 32 - 1))) xs = (b, Ret d) \<and> id_ID d = 1 \<and>
     GetIdentityByLabels H b ls = (Some d, True) \<and> id_Labels d = xs"
proof -
  have "identity_step H NewIdentityAllocator (OpAllocateIdentity ls) = holding H ls 2"
    by (simp add: AllocateIdentity_def NewIdentityAllocator_def holding_def Let_def)
  moreover have "(4294967297 :: u32) = 1" by simp
  ultimately have "foldl (identity_step H) NewIdentityAllocator
      (OpAllocateIdentity ls # churn ms (2 ^ 32 - 1)) = holding H ls 1"
    using churn_run [OF assms(1), of "2 ^ 32 - 1"] by (simp add: \<open>(4294967297 :: u32) = 1\<close>)
  then show ?thesis
    using assms(2) by (simp add: AllocateIdentity_def holding_def Let_def GetIdentityByLabels_def)
qed

theorem identity_wraparound_aliases_witness:
  "\<exists>b d. AllocateIdentity ex_H (foldl (identity_step ex_H) NewIdentityAllocator
       (OpAllocateIdentity ex_web # churn fmempty (2 ^ 32 - 1))) ex_db = (b, Ret d) \<and> id_ID d = 1 \<and>
     GetIdentityByLabels ex_H b ex_web = (Some d, True) \<and> id_Labels d = ex_db"
proof -
  have "hashLabels ex_H ex_web \<noteq> hashLabels ex_H fmempty" by code_simp
  moreover have "hashLabels ex_H ex_web \<noteq> hashLabels ex_H ex_db" by code_simp
  ultimately show ?thesis by (rule identity_wraparound_aliases)
qed

end
