(* ===== verification/SelectorCache.thy ===== *)
theory SelectorCache
  imports Identity
begin

text \<open>
  The label-selector cache, \<^verbatim>\<open>src/pkg/policy/selector_cache.go\<close>: pods by key, and for every
  selector asked for the set of matching pods, kept up to date when pods come and go. A Go
  \<^verbatim>\<open>map[string]bool\<close> that only ever stores \<^verbatim>\<open>true\<close> is a finite set. \<open>EvaluateSelector\<close> drops its read
  lock before it takes the write lock, so it is two atomic steps, \<open>EvaluateSelector_read\<close> and
  \<open>EvaluateSelector_fill\<close>; the step relation \<open>sc_step\<close> interleaves them with every other operation.

  The lemmas show that the cache is coherent in every reachable state: an evaluation returns
  exactly the pods whose labels match the selector at that moment.
\<close>

record SelectorCache =
  sc_podsByLabels :: "(string, string fset) fmap"
  sc_podLabels :: "(string, labels) fmap"
  sc_selectorResults :: "(string, string fset) fmap"
  sc_selectorSpecs :: "(string, labels) fmap"
  sc_hits :: int
  sc_misses :: int

record CacheStats =
  st_PodCount :: int
  st_SelectorCount :: int
  st_CacheHits :: int
  st_CacheMisses :: int

subsection \<open>Operations\<close>

definition NewSelectorCache :: SelectorCache where
  "NewSelectorCache = \<lparr>sc_podsByLabels = fmempty, sc_podLabels = fmempty,
     sc_selectorResults = fmempty, sc_selectorSpecs = fmempty, sc_hits = 0, sc_misses = 0\<rparr>"

definition sc_hashLabels :: "(byte list \<Rightarrow> byte list) \<Rightarrow> labels \<Rightarrow> string" where
  "sc_hashLabels H ls = (if map_len ls = 0 then [] else hex_bytes (H (bytes_of (label_text ls))))"

definition MatchesSelector :: "labels \<Rightarrow> labels \<Rightarrow> bool" where
  "MatchesSelector podLabels selector =
     (if map_len selector = 0 then True
      else fmpred (\<lambda>k v. fmlookup podLabels k = Some v) selector)"

definition copyMap :: "string fset \<Rightarrow> string fset" where
  "copyMap m = fset_of_list (sorted_list_of_fset m)"

definition removePodInternal :: "(byte list \<Rightarrow> byte list) \<Rightarrow> SelectorCache \<Rightarrow> string \<Rightarrow> SelectorCache" where
  "removePodInternal H sc key =
     (case fmlookup (sc_podLabels sc) key of
        None \<Rightarrow> sc
      | Some ls \<Rightarrow>
          let labelHash = sc_hashLabels H ls;
              byLabels =
                (case fmlookup (sc_podsByLabels sc) labelHash of
                   None \<Rightarrow> sc_podsByLabels sc
                 | Some pods \<Rightarrow>
                     let pods' = pods |-| {|key|} in
                     if pods' = {||} then fmdrop labelHash (sc_podsByLabels sc)
                     else fmupd labelHash pods' (sc_podsByLabels sc))
          in sc\<lparr>sc_podsByLabels := byLabels,
                sc_podLabels := fmdrop key (sc_podLabels sc),
                sc_selectorResults := fmmap (\<lambda>pods. pods |-| {|key|}) (sc_selectorResults sc)\<rparr>)"

text \<open>The loop of \<open>AddPod\<close> over \<open>selectorSpecs\<close>, in the order \<open>hs\<close> of the \<^verbatim>\<open>range\<close>.\<close>

definition slot :: "(string, string fset) fmap \<Rightarrow> string \<Rightarrow> string fset" where
  "slot m h = (case fmlookup m h of None \<Rightarrow> {||} | Some s \<Rightarrow> s)"

fun reevaluate_loop ::
  "string list \<Rightarrow> (string, labels) fmap \<Rightarrow> labels \<Rightarrow> string \<Rightarrow> (string, string fset) fmap \<Rightarrow>
   (string, string fset) fmap" where
  "reevaluate_loop [] specs ls key results = results"
| "reevaluate_loop (h # hs) specs ls key results =
     (case fmlookup specs h of
        None \<Rightarrow> reevaluate_loop hs specs ls key results
      | Some selector \<Rightarrow>
          reevaluate_loop hs specs ls key
            (if MatchesSelector ls selector then fmupd h (finsert key (slot results h)) results
             else results))"

definition AddPod ::
  "(byte list \<Rightarrow> byte list) \<Rightarrow> string list \<Rightarrow> SelectorCache \<Rightarrow> string \<Rightarrow> labels \<Rightarrow> SelectorCache" where
  "AddPod H order sc key ls =
     (let sc1 = removePodInternal H sc key;
          labelHash = sc_hashLabels H ls
      in sc1\<lparr>sc_podLabels := fmupd key ls (sc_podLabels sc1),
             sc_podsByLabels := fmupd labelHash (finsert key (slot (sc_podsByLabels sc1) labelHash))
                                  (sc_podsByLabels sc1),
             sc_selectorResults := reevaluate_loop order (sc_selectorSpecs sc1) ls key
                                     (sc_selectorResults sc1)\<rparr>)"

definition RemovePod :: "(byte list \<Rightarrow> byte list) \<Rightarrow> SelectorCache \<Rightarrow> string \<Rightarrow> SelectorCache" where
  "RemovePod H sc key = removePodInternal H sc key"

definition EvaluateSelector_read ::
  "(byte list \<Rightarrow> byte list) \<Rightarrow> SelectorCache \<Rightarrow> labels \<Rightarrow> SelectorCache \<times> string fset option" where
  "EvaluateSelector_read H sc selector =
     (case fmlookup (sc_selectorResults sc) (sc_hashLabels H selector) of
        Some result \<Rightarrow> (sc\<lparr>sc_hits := wrap64 (sc_hits sc + 1)\<rparr>, Some (copyMap result))
      | None \<Rightarrow> (sc\<lparr>sc_misses := wrap64 (sc_misses sc + 1)\<rparr>, None))"

definition EvaluateSelector_fill ::
  "(byte list \<Rightarrow> byte list) \<Rightarrow> SelectorCache \<Rightarrow> labels \<Rightarrow> SelectorCache \<times> string fset" where
  "EvaluateSelector_fill H sc selector =
     (let hash = sc_hashLabels H selector in
      case fmlookup (sc_selectorResults sc) hash of
        Some result \<Rightarrow> (sc, copyMap result)
      | None \<Rightarrow>
          let result = fmdom (fmfilter (\<lambda>key. case fmlookup (sc_podLabels sc) key of
                                 None \<Rightarrow> False | Some ls \<Rightarrow> MatchesSelector ls selector) (sc_podLabels sc))
          in (sc\<lparr>sc_selectorSpecs := fmupd hash selector (sc_selectorSpecs sc),
                 sc_selectorResults := fmupd hash result (sc_selectorResults sc)\<rparr>, copyMap result))"

definition EvaluateSelector ::
  "(byte list \<Rightarrow> byte list) \<Rightarrow> SelectorCache \<Rightarrow> labels \<Rightarrow> SelectorCache \<times> string fset" where
  "EvaluateSelector H sc selector =
     (case EvaluateSelector_read H sc selector of
        (sc1, Some result) \<Rightarrow> (sc1, result)
      | (sc1, None) \<Rightarrow> EvaluateSelector_fill H sc1 selector)"

definition InvalidateSelector ::
  "(byte list \<Rightarrow> byte list) \<Rightarrow> SelectorCache \<Rightarrow> labels \<Rightarrow> SelectorCache" where
  "InvalidateSelector H sc selector =
     (let hash = sc_hashLabels H selector in
      sc\<lparr>sc_selectorResults := fmdrop hash (sc_selectorResults sc),
         sc_selectorSpecs := fmdrop hash (sc_selectorSpecs sc)\<rparr>)"

definition GetCacheStats :: "SelectorCache \<Rightarrow> CacheStats" where
  "GetCacheStats sc = \<lparr>st_PodCount = map_len (sc_podLabels sc),
     st_SelectorCount = map_len (sc_selectorSpecs sc),
     st_CacheHits = sc_hits sc, st_CacheMisses = sc_misses sc\<rparr>"

subsection \<open>Interleavings\<close>

text \<open>One atomic step of a cache that is asked for selectors of \<open>X\<close> only.\<close>

inductive sc_step ::
  "(byte list \<Rightarrow> byte list) \<Rightarrow> labels set \<Rightarrow> SelectorCache \<Rightarrow> SelectorCache \<Rightarrow> bool" for H X where
  step_add: "range_order (sc_selectorSpecs sc) order \<Longrightarrow> sc_step H X sc (AddPod H order sc key ls)"
| step_remove: "sc_step H X sc (RemovePod H sc key)"
| step_read: "sel \<in> X \<Longrightarrow> sc_step H X sc (fst (EvaluateSelector_read H sc sel))"
| step_fill: "sel \<in> X \<Longrightarrow> sc_step H X sc (fst (EvaluateSelector_fill H sc sel))"
| step_invalidate: "sel \<in> X \<Longrightarrow> sc_step H X sc (InvalidateSelector H sc sel)"

inductive sc_reachable :: "(byte list \<Rightarrow> byte list) \<Rightarrow> labels set \<Rightarrow> SelectorCache \<Rightarrow> bool" for H X where
  reach_new: "sc_reachable H X NewSelectorCache"
| reach_step: "sc_reachable H X sc \<Longrightarrow> sc_step H X sc sc' \<Longrightarrow> sc_reachable H X sc'"

inductive_cases sc_step_cases: "sc_step H X sc sc'"

subsection \<open>Specification and invariant\<close>

text \<open>The pods whose labels match a selector.\<close>

definition matching :: "(string, labels) fmap \<Rightarrow> labels \<Rightarrow> string set" where
  "matching pods sel = {key. \<exists>ls. fmlookup pods key = Some ls \<and> MatchesSelector ls sel}"

definition with_hash :: "(byte list \<Rightarrow> byte list) \<Rightarrow> (string, labels) fmap \<Rightarrow> string \<Rightarrow> string set" where
  "with_hash H pods h = {key. \<exists>ls. fmlookup pods key = Some ls \<and> sc_hashLabels H ls = h}"

definition sc_inv :: "(byte list \<Rightarrow> byte list) \<Rightarrow> labels set \<Rightarrow> SelectorCache \<Rightarrow> bool" where
  "sc_inv H X sc \<longleftrightarrow>
     (\<forall>h sel. fmlookup (sc_selectorSpecs sc) h = Some sel \<longrightarrow> sel \<in> X \<and> sc_hashLabels H sel = h \<and>
        (\<exists>s. fmlookup (sc_selectorResults sc) h = Some s \<and> fset s = matching (sc_podLabels sc) sel)) \<and>
     (\<forall>h. fmlookup (sc_selectorSpecs sc) h = None \<longrightarrow> fmlookup (sc_selectorResults sc) h = None) \<and>
     (\<forall>h. fset (slot (sc_podsByLabels sc) h) = with_hash H (sc_podLabels sc) h) \<and>
     (\<forall>h. fmlookup (sc_podsByLabels sc) h \<noteq> Some {||})"

lemma copyMap_id [simp]: "copyMap m = m"
  by (simp add: copyMap_def fset_of_list_elem fset_eq_iff sorted_list_of_fset.rep_eq)

lemma MatchesSelector_iff:
  "MatchesSelector ls sel \<longleftrightarrow> (\<forall>k v. fmlookup sel k = Some v \<longrightarrow> fmlookup ls k = Some v)"
  by (auto simp: MatchesSelector_def map_len_zero_iff fmpred_iff)

lemma sc_hashLabels_inj:
  assumes "collision_free H X" and "a \<in> X" and "b \<in> X" and "sc_hashLabels H a = sc_hashLabels H b"
  shows "a = b"
proof (cases "map_len a = 0 \<or> map_len b = 0")
  case True
  then have "map_len a = 0 \<and> map_len b = 0"
    using assms collision_free_nonempty [OF assms(1) assms(2)] collision_free_nonempty [OF assms(1) assms(3)]
    by (auto simp: sc_hashLabels_def split: if_splits)
  then show ?thesis by (simp add: map_len_zero_iff)
next
  case False
  then show ?thesis using assms collision_freeD [OF assms(1-3)] by (simp add: sc_hashLabels_def)
qed

lemma matching_upd:
  "matching (fmupd key ls pods) sel =
     (matching pods sel - {key}) \<union> (if MatchesSelector ls sel then {key} else {})"
  by (auto simp: matching_def split: if_splits)

lemma matching_drop: "matching (fmdrop key pods) sel = matching pods sel - {key}"
  by (auto simp: matching_def)

lemma with_hash_upd:
  "with_hash H (fmupd key ls pods) h =
     (with_hash H pods h - {key}) \<union> (if sc_hashLabels H ls = h then {key} else {})"
  by (auto simp: with_hash_def split: if_splits)

lemma with_hash_drop: "with_hash H (fmdrop key pods) h = with_hash H pods h - {key}"
  by (auto simp: with_hash_def)

lemma reevaluate_loop_spec:
  assumes "distinct hs"
  shows "fmlookup (reevaluate_loop hs specs ls key results) h =
    (case fmlookup specs h of
       Some sel \<Rightarrow> if h \<in> set hs \<and> MatchesSelector ls sel then Some (finsert key (slot results h))
                   else fmlookup results h
     | None \<Rightarrow> fmlookup results h)"
  using assms
  by (induction hs specs ls key results rule: reevaluate_loop.induct)
     (auto simp: slot_def split: option.splits)

subsection \<open>Preservation\<close>

lemma sc_invD:
  assumes "sc_inv H X sc"
  shows "fmlookup (sc_selectorSpecs sc) h = Some sel \<Longrightarrow> sel \<in> X \<and> sc_hashLabels H sel = h \<and>
      (\<exists>s. fmlookup (sc_selectorResults sc) h = Some s \<and> fset s = matching (sc_podLabels sc) sel)"
    and "fmlookup (sc_selectorSpecs sc) h = None \<Longrightarrow> fmlookup (sc_selectorResults sc) h = None"
    and "fset (slot (sc_podsByLabels sc) h) = with_hash H (sc_podLabels sc) h"
    and "fmlookup (sc_podsByLabels sc) h \<noteq> Some {||}"
  using assms unfolding sc_inv_def by blast+

lemma removePodInternal_none: "fmlookup (sc_podLabels sc) key = None \<Longrightarrow> removePodInternal H sc key = sc"
  by (simp add: removePodInternal_def)

lemma removePodInternal_slot:
  assumes inv: "sc_inv H X sc" and key: "fmlookup (sc_podLabels sc) key = Some ls"
  shows "fset (slot (sc_podsByLabels (removePodInternal H sc key)) h) = fset (slot (sc_podsByLabels sc) h) - {key}"
    and "fmlookup (sc_podsByLabels (removePodInternal H sc key)) h \<noteq> Some {||}"
proof -
  have "key \<notin> fset (slot (sc_podsByLabels sc) h)" if "h \<noteq> sc_hashLabels H ls"
    using sc_invD(3) [OF inv, of h] key that by (auto simp: with_hash_def)
  then show "fset (slot (sc_podsByLabels (removePodInternal H sc key)) h) = fset (slot (sc_podsByLabels sc) h) - {key}"
    using key by (cases "h = sc_hashLabels H ls")
      (auto simp: removePodInternal_def Let_def slot_def split: option.splits if_splits)
  show "fmlookup (sc_podsByLabels (removePodInternal H sc key)) h \<noteq> Some {||}"
    using key sc_invD(4) [OF inv]
    by (auto simp: removePodInternal_def Let_def split: option.splits if_splits)
qed

lemma removePodInternal_inv:
  assumes inv: "sc_inv H X sc"
  shows "sc_inv H X (removePodInternal H sc key)"
proof (cases "fmlookup (sc_podLabels sc) key")
  case None
  then show ?thesis using inv by (simp add: removePodInternal_none)
next
  case (Some ls)
  let ?sc = "removePodInternal H sc key"
  have sel: "sc_selectorSpecs ?sc = sc_selectorSpecs sc"
      "sc_podLabels ?sc = fmdrop key (sc_podLabels sc)"
      "sc_selectorResults ?sc = fmmap (\<lambda>pods. pods |-| {|key|}) (sc_selectorResults sc)"
    using Some by (simp_all add: removePodInternal_def Let_def)
  show ?thesis unfolding sc_inv_def
  proof (intro conjI allI impI)
    fix h x assume "fmlookup (sc_selectorSpecs ?sc) h = Some x"
    from sc_invD(1) [OF inv this [unfolded sel]]
    show "x \<in> X" "sc_hashLabels H x = h"
      "\<exists>s. fmlookup (sc_selectorResults ?sc) h = Some s \<and> fset s = matching (sc_podLabels ?sc) x"
      by (auto simp: sel matching_drop)
  next
    fix h assume "fmlookup (sc_selectorSpecs ?sc) h = None"
    then show "fmlookup (sc_selectorResults ?sc) h = None" using sc_invD(2) [OF inv] by (simp add: sel)
  next
    fix h
    show "fset (slot (sc_podsByLabels ?sc) h) = with_hash H (sc_podLabels ?sc) h"
      by (simp add: removePodInternal_slot(1) [OF inv Some] sc_invD(3) [OF inv] sel with_hash_drop)
    show "fmlookup (sc_podsByLabels ?sc) h \<noteq> Some {||}"
      by (rule removePodInternal_slot(2) [OF inv Some])
  qed
qed

lemma removePodInternal_gone: "fmlookup (sc_podLabels (removePodInternal H sc key)) key = None"
  by (auto simp: removePodInternal_def Let_def split: option.split)

lemma removePodInternal_specs: "sc_selectorSpecs (removePodInternal H sc key) = sc_selectorSpecs sc"
  by (auto simp: removePodInternal_def Let_def split: option.split)

lemma AddPod_inv:
  assumes inv: "sc_inv H X sc" and order: "range_order (sc_selectorSpecs sc) order"
  shows "sc_inv H X (AddPod H order sc key ls)"
proof -
  define r where "r = removePodInternal H sc key"
  let ?sc = "AddPod H order sc key ls"
  have rinv: "sc_inv H X r" unfolding r_def by (rule removePodInternal_inv [OF inv])
  have gone: "fmlookup (sc_podLabels r) key = None" unfolding r_def by (rule removePodInternal_gone)
  have fields: "sc_selectorSpecs ?sc = sc_selectorSpecs r" "sc_podLabels ?sc = fmupd key ls (sc_podLabels r)"
    "sc_podsByLabels ?sc = fmupd (sc_hashLabels H ls)
       (finsert key (slot (sc_podsByLabels r) (sc_hashLabels H ls))) (sc_podsByLabels r)"
    "sc_selectorResults ?sc = reevaluate_loop order (sc_selectorSpecs r) ls key (sc_selectorResults r)"
    by (simp_all add: AddPod_def Let_def r_def)
  have ord: "distinct order" "\<And>h. h \<in> set order \<longleftrightarrow> fmlookup (sc_selectorSpecs r) h \<noteq> None"
    using range_orderD [OF order] by (simp_all add: r_def removePodInternal_specs)
  have key: "key \<notin> matching (sc_podLabels r) x" "key \<notin> with_hash H (sc_podLabels r) h" for x h
    using gone by (auto simp: matching_def with_hash_def)
  show ?thesis unfolding sc_inv_def
  proof (intro conjI allI impI)
    fix h x assume x: "fmlookup (sc_selectorSpecs ?sc) h = Some x"
    from sc_invD(1) [OF rinv this [unfolded fields]] obtain s
      where s: "x \<in> X" "sc_hashLabels H x = h" "fmlookup (sc_selectorResults r) h = Some s"
        "fset s = matching (sc_podLabels r) x" by blast
    then show "x \<in> X" "sc_hashLabels H x = h" by simp_all
    show "\<exists>s. fmlookup (sc_selectorResults ?sc) h = Some s \<and> fset s = matching (sc_podLabels ?sc) x"
      using x s key(1) [of x]
      by (auto simp: fields reevaluate_loop_spec [OF ord(1)] ord(2) matching_upd slot_def)
  next
    fix h assume "fmlookup (sc_selectorSpecs ?sc) h = None"
    then show "fmlookup (sc_selectorResults ?sc) h = None"
      using sc_invD(2) [OF rinv, of h] by (simp add: fields reevaluate_loop_spec [OF ord(1)])
  next
    fix h
    show "fset (slot (sc_podsByLabels ?sc) h) = with_hash H (sc_podLabels ?sc) h"
      using sc_invD(3) [OF rinv, of h] key(2) [of h] by (auto simp: fields with_hash_upd slot_def)
    show "fmlookup (sc_podsByLabels ?sc) h \<noteq> Some {||}"
      using sc_invD(4) [OF rinv, of h] by (simp add: fields)
  qed
qed

lemma EvaluateSelector_read_inv: "sc_inv H X sc \<Longrightarrow> sc_inv H X (fst (EvaluateSelector_read H sc sel))"
  by (auto simp: EvaluateSelector_read_def sc_inv_def split: option.split)

lemma InvalidateSelector_inv: "sc_inv H X sc \<Longrightarrow> sc_inv H X (InvalidateSelector H sc sel)"
  by (auto simp: InvalidateSelector_def Let_def sc_inv_def)

lemma fill_set:
  "fset (fmdom (fmfilter (\<lambda>key. case fmlookup pods key of
      None \<Rightarrow> False | Some ls \<Rightarrow> MatchesSelector ls sel) pods)) = matching pods sel"
  by (auto simp: matching_def fmlookup_dom_iff split: option.splits)

lemma EvaluateSelector_fill_inv:
  assumes "sc_inv H X sc" and "sel \<in> X"
  shows "sc_inv H X (fst (EvaluateSelector_fill H sc sel))"
proof (cases "fmlookup (sc_selectorResults sc) (sc_hashLabels H sel)")
  case None
  let ?keys = "fmdom (fmfilter (\<lambda>key. case fmlookup (sc_podLabels sc) key of
      None \<Rightarrow> False | Some ls \<Rightarrow> MatchesSelector ls sel) (sc_podLabels sc))"
  obtain s where s: "s = ?keys" "fset s = matching (sc_podLabels sc) sel" using fill_set by blast
  have "fst (EvaluateSelector_fill H sc sel) =
      sc\<lparr>sc_selectorSpecs := fmupd (sc_hashLabels H sel) sel (sc_selectorSpecs sc),
         sc_selectorResults := fmupd (sc_hashLabels H sel) s (sc_selectorResults sc)\<rparr>"
    using None by (simp add: EvaluateSelector_fill_def Let_def s(1))
  then show ?thesis using assms s(2) unfolding sc_inv_def by simp
next
  case (Some s)
  then show ?thesis using assms by (simp add: EvaluateSelector_fill_def Let_def)
qed

lemma sc_step_inv: "sc_step H X sc sc' \<Longrightarrow> sc_inv H X sc \<Longrightarrow> sc_inv H X sc'"
  by (erule sc_step_cases)
     (auto simp: RemovePod_def intro: AddPod_inv removePodInternal_inv EvaluateSelector_read_inv
       EvaluateSelector_fill_inv InvalidateSelector_inv)

lemma sc_reachable_inv: "sc_reachable H X sc \<Longrightarrow> sc_inv H X sc"
proof (induction rule: sc_reachable.induct)
  case reach_new
  show ?case by (simp add: sc_inv_def NewSelectorCache_def slot_def with_hash_def)
next
  case (reach_step sc sc')
  then show ?case by (blast intro: sc_step_inv)
qed

lemma cached_is_matching:
  assumes "collision_free H X" and "sc_inv H X sc" and "sel \<in> X"
    and "fmlookup (sc_selectorResults sc) (sc_hashLabels H sel) = Some s"
  shows "fset s = matching (sc_podLabels sc) sel"
proof (cases "fmlookup (sc_selectorSpecs sc) (sc_hashLabels H sel)")
  case None
  then show ?thesis using sc_invD(2) [OF assms(2)] assms(4) by simp
next
  case (Some x)
  from sc_invD(1) [OF assms(2) Some] assms(4)
  have "x \<in> X" "sc_hashLabels H x = sc_hashLabels H sel" "fset s = matching (sc_podLabels sc) x" by auto
  then show ?thesis using sc_hashLabels_inj [OF assms(1) _ assms(3)] by blast
qed

text \<open>One evaluation in a coherent state: the exact result, the same pods, coherence again.\<close>

lemma EvaluateSelector_fill_exact:
  assumes "collision_free H X" and "sc_inv H X sc" and "sel \<in> X"
  shows "fset (snd (EvaluateSelector_fill H sc sel)) = matching (sc_podLabels sc) sel"
  using cached_is_matching [OF assms] fill_set
  by (auto simp: EvaluateSelector_fill_def Let_def simp del: fmdom_filter split: option.split)

lemma EvaluateSelector_read_exact:
  assumes "collision_free H X" and "sc_inv H X sc" and "sel \<in> X"
    and "snd (EvaluateSelector_read H sc sel) = Some r"
  shows "fset r = matching (sc_podLabels sc) sel"
  using cached_is_matching [OF assms(1-3)] assms(4)
  by (auto simp: EvaluateSelector_read_def split: option.splits)

lemma EvaluateSelector_exact:
  assumes "collision_free H X" and "sc_inv H X sc" and "sel \<in> X" and "EvaluateSelector H sc sel = (sc', r)"
  shows "fset r = matching (sc_podLabels sc) sel \<and> sc_podLabels sc' = sc_podLabels sc \<and> sc_inv H X sc'"
proof -
  obtain s1 q where s1: "EvaluateSelector_read H sc sel = (s1, q)" by fastforce
  have inv: "sc_inv H X s1" using EvaluateSelector_read_inv [OF assms(2), of sel] s1 by simp
  have pods: "sc_podLabels s1 = sc_podLabels sc"
    using s1 by (auto simp: EvaluateSelector_read_def split: option.splits)
  show ?thesis
  proof (cases q)
    case None
    then have "EvaluateSelector_fill H s1 sel = (sc', r)" using assms(4) s1 by (simp add: EvaluateSelector_def)
    moreover have "sc_podLabels (fst (EvaluateSelector_fill H s1 sel)) = sc_podLabels s1"
      by (auto simp: EvaluateSelector_fill_def Let_def split: option.split)
    ultimately show ?thesis
      using EvaluateSelector_fill_exact [OF assms(1) inv assms(3)]
        EvaluateSelector_fill_inv [OF inv assms(3)] pods by simp
  next
    case (Some x)
    then show ?thesis
      using EvaluateSelector_read_exact [OF assms(1-3)] assms(4) s1 inv pods by (simp add: EvaluateSelector_def)
  qed
qed

subsection \<open>Properties\<close>


definition ex_cache :: SelectorCache where
  "ex_cache = AddPod ex_H [sc_hashLabels ex_H ex_db]
     (fst (EvaluateSelector_fill ex_H (AddPod ex_H [] NewSelectorCache ''a'' ex_db) ex_db)) ''b''
     (fmupd ''tier'' ''2'' ex_db)"

lemma ex_cache_reachable: "sc_reachable ex_H {ex_web, ex_db} ex_cache"
proof -
  let ?r = "sc_reachable ex_H {ex_web, ex_db}"
  have "range_order (sc_selectorSpecs NewSelectorCache) []" unfolding range_order_def by code_simp
  then have "?r (AddPod ex_H [] NewSelectorCache ''a'' ex_db)"
    by (blast intro: sc_reachable.intros sc_step.intros)
  then have f: "?r (fst (EvaluateSelector_fill ex_H (AddPod ex_H [] NewSelectorCache ''a'' ex_db) ex_db))"
    by (rule reach_step) (rule step_fill, simp)
  have "range_order (sc_selectorSpecs (fst (EvaluateSelector_fill ex_H
      (AddPod ex_H [] NewSelectorCache ''a'' ex_db) ex_db))) [sc_hashLabels ex_H ex_db]"
    unfolding range_order_def by code_simp
  from reach_step [OF f step_add [OF this]] show ?thesis unfolding ex_cache_def .
qed


end
