(* ===== verification/Compiler.thy ===== *)
theory Compiler
  imports SelectorCache "HOL-Library.Product_Lexorder"
begin

text \<open>
  The policy compiler, \<^verbatim>\<open>src/pkg/policy/compiler.go\<close>, and the platform rules,
  \<^verbatim>\<open>src/pkg/policy/platform_rules.go\<close>. The compiler owns a selector cache and shares the identity
  allocator; both are fields of its record and threaded through every call. The order in which
  a \<^verbatim>\<open>range\<close> visits the set of matching pods is an argument \<open>ord\<close>; a function that evaluates several
  selectors takes one such order per evaluation. Clock readings are arguments. A nil identity
  pointer is a branch that panics.

  The lemmas show what a compiled policy allows in terms of the pods, that the merge keeps for
  every flow key the rule of highest priority, and that filtering for a node does not change
  the decision on any flow of that node.
\<close>

subsection \<open>Data\<close>

type_synonym Verdict = string

definition VerdictAllow :: Verdict where "VerdictAllow = ''allow''"
definition VerdictDeny :: Verdict where "VerdictDeny = ''deny''"
definition TierNodeIsolation :: int where "TierNodeIsolation = 0"
definition TierPlatformMandated :: int where "TierPlatformMandated = 1"
definition TierTenant :: int where "TierTenant = 2"

record PolicyRule =
  pr_SrcIdentity :: u32
  pr_DstIdentity :: u32
  pr_Proto :: string
  pr_Port :: int
  pr_Verdict :: Verdict
  pr_PolicyName :: string
  pr_PolicyNamespace :: string
  pr_Tier :: int

record CompiledPolicy =
  cpol_Rules :: "PolicyRule list"
  cpol_CompiledAt :: gotime
  cpol_Version :: int

record NetworkPolicyPort =
  npp_Protocol :: string
  npp_Port :: int

record IPBlock =
  ipb_CIDR :: string
  ipb_Except :: "string list"

record NetworkPolicyPeer =
  peer_PodSelector :: labels
  peer_NamespaceSelector :: labels
  peer_IPBlock :: "IPBlock option"

record NetworkPolicyIngressRule =
  ing_From :: "NetworkPolicyPeer list"
  ing_Ports :: "NetworkPolicyPort list"

record NetworkPolicyEgressRule =
  egr_To :: "NetworkPolicyPeer list"
  egr_Ports :: "NetworkPolicyPort list"

record NetworkPolicySpec =
  nps_PodSelector :: labels
  nps_Ingress :: "NetworkPolicyIngressRule list"
  nps_Egress :: "NetworkPolicyEgressRule list"

record IsolationRuleSpec =
  irs_CIDR :: string
  irs_Ports :: "NetworkPolicyPort list"
  irs_Action :: Verdict

record NodeIsolationPolicySpec =
  nis_NodeSelector :: labels
  nis_IngressRules :: "IsolationRuleSpec list"
  nis_EgressRules :: "IsolationRuleSpec list"
  nis_Priority :: int

record PolicyCompiler =
  cmp_identityAllocator :: IdentityAllocator
  cmp_selectorCache :: SelectorCache

type_synonym range_ord = "string fset \<Rightarrow> string list"

definition NewCompiler :: "IdentityAllocator \<Rightarrow> PolicyCompiler" where
  "NewCompiler allocator = \<lparr>cmp_identityAllocator = allocator, cmp_selectorCache = NewSelectorCache\<rparr>"

subsection \<open>Resolving selectors\<close>

text \<open>The loop over the matching pods: the identities of those that have one, without repetition.\<close>

fun collect_ids ::
  "(byte list \<Rightarrow> byte list) \<Rightarrow> IdentityAllocator \<Rightarrow> (string, labels) fmap \<Rightarrow> string list \<Rightarrow> u32 list \<Rightarrow>
   u32 list outcome" where
  "collect_ids H a podLabels [] ids = Ret ids"
| "collect_ids H a podLabels (podKey # ks) ids =
     (let ls = (case fmlookup podLabels podKey of Some l \<Rightarrow> l | None \<Rightarrow> fmempty) in
      case GetIdentityByLabels H a ls of
        (_, False) \<Rightarrow> collect_ids H a podLabels ks ids
      | (None, True) \<Rightarrow> Panic nil_panic
      | (Some d, True) \<Rightarrow>
          collect_ids H a podLabels ks (if id_ID d \<in> set ids then ids else ids @ [id_ID d]))"

definition resolveSelectorToIdentities ::
  "(byte list \<Rightarrow> byte list) \<Rightarrow> range_ord \<Rightarrow> PolicyCompiler \<Rightarrow> labels \<Rightarrow> PolicyCompiler \<times> u32 list outcome"
where
  "resolveSelectorToIdentities H ord c selector =
     (case EvaluateSelector H (cmp_selectorCache c) selector of (sc, podKeys) \<Rightarrow>
        let c1 = c\<lparr>cmp_selectorCache := sc\<rparr> in
        case collect_ids H (cmp_identityAllocator c1) (sc_podLabels sc) (ord podKeys) [] of
          Panic e \<Rightarrow> (c1, Panic e)
        | Err e \<Rightarrow> (c1, Err e)
        | Ret ids \<Rightarrow>
            if ids = [] then
              (case AllocateIdentity H (cmp_identityAllocator c1) selector of
                 (a, Ret d) \<Rightarrow> (c1\<lparr>cmp_identityAllocator := a\<rparr>, Ret [id_ID d])
               | (a, Err e) \<Rightarrow> (c1\<lparr>cmp_identityAllocator := a\<rparr>, Ret [])
               | (a, Panic e) \<Rightarrow> (c1\<lparr>cmp_identityAllocator := a\<rparr>, Panic e))
            else (c1, Ret ids))"

fun add_unseen :: "u32 list \<Rightarrow> u32 list \<Rightarrow> u32 list" where
  "add_unseen acc [] = acc"
| "add_unseen acc (i # is) = add_unseen (if i \<in> set acc then acc else acc @ [i]) is"

fun resolve_peer_loop ::
  "(byte list \<Rightarrow> byte list) \<Rightarrow> (nat \<Rightarrow> range_ord) \<Rightarrow> PolicyCompiler \<Rightarrow> NetworkPolicyPeer list \<Rightarrow>
   u32 list \<Rightarrow> PolicyCompiler \<times> u32 list outcome" where
  "resolve_peer_loop H ords c [] acc = (c, Ret acc)"
| "resolve_peer_loop H ords c (peer # ps) acc =
     (if peer_IPBlock peer \<noteq> None then resolve_peer_loop H ords c ps acc
      else case resolveSelectorToIdentities H (ords (length ps)) c (peer_PodSelector peer) of
             (c1, Ret ids) \<Rightarrow> resolve_peer_loop H ords c1 ps (add_unseen acc ids)
           | (c1, Err e) \<Rightarrow> (c1, Err e)
           | (c1, Panic e) \<Rightarrow> (c1, Panic e))"

definition resolvePeers ::
  "(byte list \<Rightarrow> byte list) \<Rightarrow> (nat \<Rightarrow> range_ord) \<Rightarrow> PolicyCompiler \<Rightarrow> NetworkPolicyPeer list \<Rightarrow>
   PolicyCompiler \<times> u32 list outcome" where
  "resolvePeers H ords c peers =
     (if peers = [] then (c, Ret [0]) else resolve_peer_loop H ords c peers [])"

subsection \<open>Compiling a network policy\<close>

definition default_ports :: "NetworkPolicyPort list \<Rightarrow> NetworkPolicyPort list" where
  "default_ports ports = (if ports = [] then [\<lparr>npp_Protocol = ''ANY'', npp_Port = 0\<rparr>] else ports)"

definition tenant_rule :: "string \<Rightarrow> string \<Rightarrow> u32 \<Rightarrow> u32 \<Rightarrow> NetworkPolicyPort \<Rightarrow> PolicyRule" where
  "tenant_rule nm ns srcID dstID port =
     \<lparr>pr_SrcIdentity = srcID, pr_DstIdentity = dstID, pr_Proto = npp_Protocol port,
      pr_Port = npp_Port port, pr_Verdict = VerdictAllow, pr_PolicyName = nm,
      pr_PolicyNamespace = ns, pr_Tier = TierTenant\<rparr>"

fun ingress_loop ::
  "(byte list \<Rightarrow> byte list) \<Rightarrow> (nat \<Rightarrow> nat \<Rightarrow> range_ord) \<Rightarrow> string \<Rightarrow> string \<Rightarrow> u32 list \<Rightarrow> PolicyCompiler \<Rightarrow>
   NetworkPolicyIngressRule list \<Rightarrow> PolicyRule list \<Rightarrow> PolicyCompiler \<times> PolicyRule list outcome" where
  "ingress_loop H ords nm ns dstIDs c [] rules = (c, Ret rules)"
| "ingress_loop H ords nm ns dstIDs c (ingress # is) rules =
     (case resolvePeers H (ords (length is)) c (ing_From ingress) of
        (c1, Ret srcIDs) \<Rightarrow>
          ingress_loop H ords nm ns dstIDs c1 is
            (rules @ [tenant_rule nm ns srcID dstID port. dstID \<leftarrow> dstIDs, srcID \<leftarrow> srcIDs,
                      port \<leftarrow> default_ports (ing_Ports ingress)])
      | (c1, Err e) \<Rightarrow> (c1, Err e)
      | (c1, Panic e) \<Rightarrow> (c1, Panic e))"

fun egress_loop ::
  "(byte list \<Rightarrow> byte list) \<Rightarrow> (nat \<Rightarrow> nat \<Rightarrow> range_ord) \<Rightarrow> string \<Rightarrow> string \<Rightarrow> u32 list \<Rightarrow> PolicyCompiler \<Rightarrow>
   NetworkPolicyEgressRule list \<Rightarrow> PolicyRule list \<Rightarrow> PolicyCompiler \<times> PolicyRule list outcome" where
  "egress_loop H ords nm ns srcIDs c [] rules = (c, Ret rules)"
| "egress_loop H ords nm ns srcIDs c (egress # es) rules =
     (case resolvePeers H (ords (length es)) c (egr_To egress) of
        (c1, Ret egressDstIDs) \<Rightarrow>
          egress_loop H ords nm ns srcIDs c1 es
            (rules @ [tenant_rule nm ns srcID dstID port. srcID \<leftarrow> srcIDs, dstID \<leftarrow> egressDstIDs,
                      port \<leftarrow> default_ports (egr_Ports egress)])
      | (c1, Err e) \<Rightarrow> (c1, Err e)
      | (c1, Panic e) \<Rightarrow> (c1, Panic e))"

text \<open>The orders of the ranges of one compilation: for the pod selector, for the peers of each
  ingress rule and for the peers of each egress rule.\<close>

record compile_orders =
  ord_target :: range_ord
  ord_ingress :: "nat \<Rightarrow> nat \<Rightarrow> range_ord"
  ord_egress :: "nat \<Rightarrow> nat \<Rightarrow> range_ord"

definition CompilePolicy ::
  "(byte list \<Rightarrow> byte list) \<Rightarrow> gotime \<Rightarrow> int \<Rightarrow> compile_orders \<Rightarrow> PolicyCompiler \<Rightarrow> string \<Rightarrow> string \<Rightarrow>
   NetworkPolicySpec \<Rightarrow> PolicyCompiler \<times> CompiledPolicy outcome" where
  "CompilePolicy H now nanos ords c nm ns spec =
     (case resolveSelectorToIdentities H (ord_target ords) c (nps_PodSelector spec) of
        (c1, Err e) \<Rightarrow> (c1, Err e)
      | (c1, Panic e) \<Rightarrow> (c1, Panic e)
      | (c1, Ret dstIDs) \<Rightarrow>
          (case ingress_loop H (ord_ingress ords) nm ns dstIDs c1 (nps_Ingress spec) [] of
             (c2, Err e) \<Rightarrow> (c2, Err e)
           | (c2, Panic e) \<Rightarrow> (c2, Panic e)
           | (c2, Ret rules) \<Rightarrow>
               (case egress_loop H (ord_egress ords) nm ns dstIDs c2 (nps_Egress spec) rules of
                  (c3, Err e) \<Rightarrow> (c3, Err e)
                | (c3, Panic e) \<Rightarrow> (c3, Panic e)
                | (c3, Ret rules') \<Rightarrow>
                    (c3, Ret \<lparr>cpol_Rules = rules', cpol_CompiledAt = now, cpol_Version = nanos\<rparr>))))"

subsection \<open>Node isolation and platform rules\<close>

definition isolation_rules :: "string \<Rightarrow> IsolationRuleSpec list \<Rightarrow> PolicyRule list" where
  "isolation_rules nm irs =
     [\<lparr>pr_SrcIdentity = 0, pr_DstIdentity = 0, pr_Proto = npp_Protocol port, pr_Port = npp_Port port,
       pr_Verdict = irs_Action ir, pr_PolicyName = nm, pr_PolicyNamespace = [],
       pr_Tier = TierNodeIsolation\<rparr>. ir \<leftarrow> irs, port \<leftarrow> default_ports (irs_Ports ir)]"

definition CompileNodeIsolationPolicy ::
  "gotime \<Rightarrow> int \<Rightarrow> string \<Rightarrow> NodeIsolationPolicySpec \<Rightarrow> CompiledPolicy outcome" where
  "CompileNodeIsolationPolicy now nanos nm spec =
     Ret \<lparr>cpol_Rules = isolation_rules nm (nis_IngressRules spec) @ isolation_rules nm (nis_EgressRules spec),
          cpol_CompiledAt = now, cpol_Version = nanos\<rparr>"

record PlatformRules =
  plat_dnsServers :: "string list"
  plat_monitoringCIDRs :: "string list"
  plat_monitoringPort :: int

definition NewPlatformRules :: PlatformRules where
  "NewPlatformRules = \<lparr>plat_dnsServers = [], plat_monitoringCIDRs = [], plat_monitoringPort = 9090\<rparr>"

definition SetDNSServers :: "PlatformRules \<Rightarrow> string list \<Rightarrow> PlatformRules" where
  "SetDNSServers p servers = p\<lparr>plat_dnsServers := servers\<rparr>"

definition SetMonitoringCIDRs :: "PlatformRules \<Rightarrow> string list \<Rightarrow> PlatformRules" where
  "SetMonitoringCIDRs p cidrs = p\<lparr>plat_monitoringCIDRs := cidrs\<rparr>"

definition SetMonitoringPort :: "PlatformRules \<Rightarrow> int \<Rightarrow> PlatformRules" where
  "SetMonitoringPort p port = p\<lparr>plat_monitoringPort := port\<rparr>"

definition platform_rule :: "string \<Rightarrow> int \<Rightarrow> string \<Rightarrow> PolicyRule" where
  "platform_rule proto port nm =
     \<lparr>pr_SrcIdentity = 0, pr_DstIdentity = 0, pr_Proto = proto, pr_Port = port,
      pr_Verdict = VerdictAllow, pr_PolicyName = nm, pr_PolicyNamespace = [],
      pr_Tier = TierPlatformMandated\<rparr>"

definition GenerateRules :: "PlatformRules \<Rightarrow> PolicyRule list" where
  "GenerateRules p =
     [platform_rule ''UDP'' 53 ''platform-dns-udp'',
      platform_rule ''TCP'' 53 ''platform-dns-tcp'',
      platform_rule ''TCP'' (plat_monitoringPort p) ''platform-monitoring'']"

definition CompilePlatformRules :: "gotime \<Rightarrow> int \<Rightarrow> CompiledPolicy" where
  "CompilePlatformRules now nanos =
     \<lparr>cpol_Rules = GenerateRules NewPlatformRules, cpol_CompiledAt = now, cpol_Version = nanos\<rparr>"

subsection \<open>Filtering and merging\<close>

definition FilterRulesForNode :: "PolicyRule list \<Rightarrow> u32 fset \<Rightarrow> PolicyRule list" where
  "FilterRulesForNode rules nodeIdentities =
     filter (\<lambda>r. pr_SrcIdentity r = 0 \<or> pr_DstIdentity r = 0 \<or>
                 pr_SrcIdentity r |\<in>| nodeIdentities \<or> pr_DstIdentity r |\<in>| nodeIdentities) rules"

definition specificityScore :: "PolicyRule \<Rightarrow> int" where
  "specificityScore r =
     (if pr_SrcIdentity r \<noteq> 0 then 1 else 0) + (if pr_DstIdentity r \<noteq> 0 then 1 else 0) +
     (if pr_Port r \<noteq> 0 then 1 else 0)"

text \<open>The comparison of \<open>MergeAndPrioritize\<close> as a sort key: lower tier, then higher score, then
  policy name; \<^verbatim>\<open>sort.SliceStable\<close> is the stable sort by it.\<close>

definition priority :: "PolicyRule \<Rightarrow> int \<times> int \<times> string" where
  "priority r = (pr_Tier r, - specificityScore r, pr_PolicyName r)"

definition rule_less :: "PolicyRule \<Rightarrow> PolicyRule \<Rightarrow> bool" where
  "rule_less x y =
     (if pr_Tier x \<noteq> pr_Tier y then pr_Tier x < pr_Tier y
      else if specificityScore x \<noteq> specificityScore y then specificityScore y < specificityScore x
      else pr_PolicyName x < pr_PolicyName y)"

definition merge_key :: "PolicyRule \<Rightarrow> string" where
  "merge_key r = show_nat (unat (pr_SrcIdentity r)) @ ''-'' @ show_nat (unat (pr_DstIdentity r)) @ ''-'' @
                 pr_Proto r @ ''-'' @ show_int (pr_Port r)"

fun dedup_loop :: "PolicyRule list \<Rightarrow> string fset \<Rightarrow> PolicyRule list" where
  "dedup_loop [] seen = []"
| "dedup_loop (r # rs) seen =
     (if merge_key r |\<in>| seen then dedup_loop rs seen
      else r # dedup_loop rs (finsert (merge_key r) seen))"

definition MergeAndPrioritize ::
  "gotime \<Rightarrow> int \<Rightarrow> CompiledPolicy option list \<Rightarrow> CompiledPolicy" where
  "MergeAndPrioritize now nanos policies =
     (let allRules = concat (map (\<lambda>p. case p of None \<Rightarrow> [] | Some q \<Rightarrow> cpol_Rules q) policies)
      in \<lparr>cpol_Rules = dedup_loop (sort_key priority allRules) {||},
          cpol_CompiledAt = now, cpol_Version = nanos\<rparr>)"

subsection \<open>Merging: lemmas\<close>

lemma rule_less_priority: "rule_less x y \<longleftrightarrow> priority x < priority y"
  by (auto simp: rule_less_def priority_def less_prod_def)

text \<open>What the deduplication compares.\<close>

definition flow_key :: "PolicyRule \<Rightarrow> u32 \<times> u32 \<times> string \<times> int" where
  "flow_key r = (pr_SrcIdentity r, pr_DstIdentity r, pr_Proto r, pr_Port r)"

lemma rev_sep_eq:
  fixes c :: char
  assumes "c \<notin> set b" and "c \<notin> set b'" and "a @ c # b = a' @ c # b'"
  shows "a = a' \<and> b = b'"
proof -
  have "rev b @ c # rev a = rev b' @ c # rev a'"
    using arg_cong [OF assms(3), of rev] by simp
  then show ?thesis using assms(1,2) append_sep_eq [of c "rev b" "rev b'"] by simp
qed

lemma merge_key_inj:
  assumes "0 \<le> pr_Port x" and "0 \<le> pr_Port y" and "merge_key x = merge_key y"
  shows "flow_key x = flow_key y"
proof -
  let ?d = "\<lambda>r. show_nat (unat (pr_DstIdentity r)) @ CHR ''-'' # (pr_Proto r @ CHR ''-'' # show_nat (nat (pr_Port r)))"
  have "show_nat (unat (pr_SrcIdentity x)) @ CHR ''-'' # ?d x = show_nat (unat (pr_SrcIdentity y)) @ CHR ''-'' # ?d y"
    using assms by (simp add: merge_key_def show_int_def)
  then have "show_nat (unat (pr_SrcIdentity x)) = show_nat (unat (pr_SrcIdentity y))" and d: "?d x = ?d y"
    using append_sep_eq [OF show_nat_free(1) show_nat_free(1)] by blast+
  then have src: "pr_SrcIdentity x = pr_SrcIdentity y" by (simp add: word_unat_eq_iff)
  from d have "show_nat (unat (pr_DstIdentity x)) = show_nat (unat (pr_DstIdentity y))"
    and e: "pr_Proto x @ CHR ''-'' # show_nat (nat (pr_Port x)) = pr_Proto y @ CHR ''-'' # show_nat (nat (pr_Port y))"
    using append_sep_eq [OF show_nat_free(1) show_nat_free(1)] by blast+
  then have dst: "pr_DstIdentity x = pr_DstIdentity y" by (simp add: word_unat_eq_iff)
  from rev_sep_eq [OF show_nat_free(1) show_nat_free(1) e]
  have "pr_Proto x = pr_Proto y" "nat (pr_Port x) = nat (pr_Port y)" by simp_all
  with src dst assms(1,2) show ?thesis by (simp add: flow_key_def)
qed

lemma merge_key_cong: "flow_key x = flow_key y \<Longrightarrow> merge_key x = merge_key y"
  by (simp add: flow_key_def merge_key_def)

lemma dedup_set: "set (dedup_loop rs seen) \<subseteq> set rs"
  by (induction rs seen rule: dedup_loop.induct) auto

lemma dedup_unseen: "r \<in> set (dedup_loop rs seen) \<Longrightarrow> merge_key r |\<notin>| seen"
  by (induction rs seen rule: dedup_loop.induct) (auto split: if_splits)

lemma dedup_distinct: "distinct (map merge_key (dedup_loop rs seen))"
proof (induction rs seen rule: dedup_loop.induct)
  case (2 r rs seen)
  have "merge_key r \<notin> merge_key ` set (dedup_loop rs (finsert (merge_key r) seen))"
    using dedup_unseen [of _ rs "finsert (merge_key r) seen"] by fastforce
  then show ?case using 2 by auto
qed simp

lemma distinct_map_coarser:
  "distinct (map f xs) \<Longrightarrow> (\<And>x y. g x = g y \<Longrightarrow> f x = f y) \<Longrightarrow> distinct (map g xs)"
  unfolding distinct_map inj_on_def by blast

lemma dedup_sorted: "sorted (map f rs) \<Longrightarrow> sorted (map f (dedup_loop rs seen))"
proof (induction rs seen rule: dedup_loop.induct)
  case (2 r rs seen)
  then show ?case using dedup_set [of rs "finsert (merge_key r) seen"] by auto
qed simp

lemma dedup_first:
  "r \<in> set rs \<Longrightarrow> merge_key r |\<notin>| seen \<Longrightarrow> sorted (map f rs) \<Longrightarrow>
     \<exists>r' \<in> set (dedup_loop rs seen). merge_key r' = merge_key r \<and> f r' \<le> f r"
proof (induction rs seen rule: dedup_loop.induct)
  case (2 x rs seen)
  show ?case
  proof (cases "merge_key x = merge_key r")
    case True
    then show ?thesis using 2(3-5) by (intro bexI [of _ x]) auto
  next
    case False
    then show ?thesis using 2 by (auto split: if_splits)
  qed
qed simp

definition merged_rules :: "CompiledPolicy option list \<Rightarrow> PolicyRule set" where
  "merged_rules policies = {r. \<exists>q. Some q \<in> set policies \<and> r \<in> set (cpol_Rules q)}"

lemma set_merge_input:
  "set (concat (map (\<lambda>p. case p of None \<Rightarrow> [] | Some q \<Rightarrow> cpol_Rules q) policies)) = merged_rules policies"
  by (auto simp: merged_rules_def split: option.splits)

lemma MergeAndPrioritize_best:
  assumes "\<forall>r \<in> merged_rules policies. 0 \<le> pr_Port r"
  shows "distinct (map flow_key (cpol_Rules (MergeAndPrioritize now nanos policies))) \<and>
    set (cpol_Rules (MergeAndPrioritize now nanos policies)) \<subseteq> merged_rules policies \<and>
    (\<forall>r \<in> merged_rules policies. \<exists>r' \<in> set (cpol_Rules (MergeAndPrioritize now nanos policies)).
       flow_key r' = flow_key r \<and> \<not> rule_less r r') \<and>
    sorted (map priority (cpol_Rules (MergeAndPrioritize now nanos policies)))"
proof -
  let ?all = "concat (map (\<lambda>p. case p of None \<Rightarrow> [] | Some q \<Rightarrow> cpol_Rules q) policies)"
  let ?s = "sort_key priority ?all"
  have out: "cpol_Rules (MergeAndPrioritize now nanos policies) = dedup_loop ?s {||}"
    by (simp add: MergeAndPrioritize_def Let_def)
  have set_s: "set ?s = merged_rules policies" by (simp only: set_sort set_merge_input)
  have sub: "set (dedup_loop ?s {||}) \<subseteq> merged_rules policies"
    using dedup_set [of ?s "{||}"] set_s by blast
  have inj: "flow_key x = flow_key y" if "x \<in> merged_rules policies" "y \<in> merged_rules policies"
    "merge_key x = merge_key y" for x y
    by (rule merge_key_inj) (use that assms in auto)
  have "distinct (map flow_key (dedup_loop ?s {||}))"
    by (rule distinct_map_coarser [OF dedup_distinct merge_key_cong])
  moreover have "\<exists>r' \<in> set (dedup_loop ?s {||}). flow_key r' = flow_key r \<and> \<not> rule_less r r'"
    if r: "r \<in> merged_rules policies" for r
  proof -
    have "r \<in> set ?s" "merge_key r |\<notin>| {||}" "sorted (map priority ?s)" using r set_s by simp_all
    from dedup_first [OF this] obtain r' where r': "r' \<in> set (dedup_loop ?s {||})"
      "merge_key r' = merge_key r" "priority r' \<le> priority r" by blast
    then show ?thesis using inj [of r' r] sub r by (auto simp: rule_less_priority not_less)
  qed
  moreover have "sorted (map priority (dedup_loop ?s {||}))" by (rule dedup_sorted) simp
  ultimately show ?thesis using sub unfolding out by blast
qed

subsection \<open>Resolving: lemmas\<close>

text \<open>An order is one a \<^verbatim>\<open>range\<close> over a set may take.\<close>

definition valid_ord :: "range_ord \<Rightarrow> bool" where
  "valid_ord ord \<longleftrightarrow> (\<forall>s. distinct (ord s) \<and> set (ord s) = fset s)"

definition valid_orders :: "compile_orders \<Rightarrow> bool" where
  "valid_orders ords \<longleftrightarrow> valid_ord (ord_target ords) \<and> (\<forall>i j. valid_ord (ord_ingress ords i j)) \<and>
     (\<forall>i j. valid_ord (ord_egress ords i j))"

text \<open>The identities of the pods that match a selector, and of the peers of a rule.\<close>

definition ids_of :: "(byte list \<Rightarrow> byte list) \<Rightarrow> PolicyCompiler \<Rightarrow> labels \<Rightarrow> u32 set" where
  "ids_of H c sel = {id_ID d | key ls d. fmlookup (sc_podLabels (cmp_selectorCache c)) key = Some ls \<and>
     MatchesSelector ls sel \<and> GetIdentityByLabels H (cmp_identityAllocator c) ls = (Some d, True)}"

definition peer_ids :: "(byte list \<Rightarrow> byte list) \<Rightarrow> PolicyCompiler \<Rightarrow> NetworkPolicyPeer list \<Rightarrow> u32 set" where
  "peer_ids H c peers = (if peers = [] then {0}
     else (\<Union>peer \<in> {q \<in> set peers. peer_IPBlock q = None}. ids_of H c (peer_PodSelector peer)))"

text \<open>A compiler whose cache and allocator are in a state their operations reach.\<close>

definition compiler_ok :: "(byte list \<Rightarrow> byte list) \<Rightarrow> labels set \<Rightarrow> nat \<Rightarrow> PolicyCompiler \<Rightarrow> bool" where
  "compiler_ok H X n c \<longleftrightarrow> collision_free H X \<and> sc_inv H X (cmp_selectorCache c) \<and>
     identity_ok H X n (cmp_identityAllocator c)"

lemma no_dangling: "identity_ok H X n a \<Longrightarrow> GetIdentityByLabels H a ls \<noteq> (None, True)"
  using identity_ok_hash by (fastforce simp: GetIdentityByLabels_def split: option.splits)

lemma collect_ids_spec:
  assumes ok: "identity_ok H X n a"
  shows "\<exists>ids'. collect_ids H a pods ks ids = Ret ids' \<and>
    set ids' = set ids \<union> {id_ID d | key d. key \<in> set ks \<and>
      GetIdentityByLabels H a (case fmlookup pods key of Some l \<Rightarrow> l | None \<Rightarrow> fmempty) = (Some d, True)} \<and>
    (distinct ids \<longrightarrow> distinct ids')"
proof (induction ks arbitrary: ids)
  case (Cons k ks)
  obtain q b where g: "GetIdentityByLabels H a (case fmlookup pods k of Some l \<Rightarrow> l | None \<Rightarrow> fmempty) = (q, b)"
    by fastforce
  show ?case
  proof (cases b)
    case False
    obtain ids' where i: "collect_ids H a pods ks ids = Ret ids' \<and>
      set ids' = set ids \<union> {id_ID d | key d. key \<in> set ks \<and>
        GetIdentityByLabels H a (case fmlookup pods key of Some l \<Rightarrow> l | None \<Rightarrow> fmempty) = (Some d, True)} \<and>
      (distinct ids \<longrightarrow> distinct ids')" using Cons.IH by blast
    then show ?thesis using g False by (cases q) (auto simp: Let_def intro!: exI [of _ ids'])
  next
    case True
    then obtain d where d: "q = Some d" using g no_dangling [OF ok] by (cases q) auto
    let ?ids = "if id_ID d \<in> set ids then ids else ids @ [id_ID d]"
    obtain ids' where i: "collect_ids H a pods ks ?ids = Ret ids' \<and>
      set ids' = set ?ids \<union> {id_ID d | key d. key \<in> set ks \<and>
        GetIdentityByLabels H a (case fmlookup pods key of Some l \<Rightarrow> l | None \<Rightarrow> fmempty) = (Some d, True)} \<and>
      (distinct ?ids \<longrightarrow> distinct ids')" using Cons.IH by blast
    then show ?thesis using g True d by (intro exI [of _ ids']) (auto simp: Let_def)
  qed
qed simp

lemma resolve_known:
  assumes ok: "compiler_ok H X n c" and sel: "sel \<in> X" and ord: "valid_ord ord"
    and known: "ids_of H c sel \<noteq> {}"
  shows "\<exists>sc ids. resolveSelectorToIdentities H ord c sel = (c\<lparr>cmp_selectorCache := sc\<rparr>, Ret ids) \<and>
    set ids = ids_of H c sel \<and> distinct ids \<and> sc_inv H X sc \<and>
    sc_podLabels sc = sc_podLabels (cmp_selectorCache c)"
proof -
  from ok have cf: "collision_free H X" and sc: "sc_inv H X (cmp_selectorCache c)"
    and ia: "identity_ok H X n (cmp_identityAllocator c)" by (auto simp: compiler_ok_def)
  obtain sc' keys where e: "EvaluateSelector H (cmp_selectorCache c) sel = (sc', keys)" by fastforce
  from EvaluateSelector_exact [OF cf sc sel e]
  have keys: "fset keys = matching (sc_podLabels (cmp_selectorCache c)) sel"
    and pods: "sc_podLabels sc' = sc_podLabels (cmp_selectorCache c)" and inv: "sc_inv H X sc'" by blast+
  from collect_ids_spec [OF ia, of "sc_podLabels sc'" "ord keys" "[]"] obtain ids where
    i: "collect_ids H (cmp_identityAllocator c) (sc_podLabels sc') (ord keys) [] = Ret ids" "distinct ids"
    and s: "set ids = {id_ID d | key d. key \<in> set (ord keys) \<and> GetIdentityByLabels H (cmp_identityAllocator c)
        (case fmlookup (sc_podLabels sc') key of Some l \<Rightarrow> l | None \<Rightarrow> fmempty) = (Some d, True)}"
    by auto
  have "set (ord keys) = matching (sc_podLabels sc') sel" using ord keys pods by (simp add: valid_ord_def)
  with s have ids: "set ids = ids_of H c sel"
    unfolding ids_of_def matching_def pods by (auto 0 3) blast
  with known have "ids \<noteq> []" by auto
  then have "resolveSelectorToIdentities H ord c sel = (c\<lparr>cmp_selectorCache := sc'\<rparr>, Ret ids)"
    using e i by (simp add: resolveSelectorToIdentities_def Let_def)
  then show ?thesis using i(2) ids inv pods by blast
qed

lemma ids_of_cache:
  "sc_podLabels sc = sc_podLabels (cmp_selectorCache c) \<Longrightarrow> ids_of H (c\<lparr>cmp_selectorCache := sc\<rparr>) = ids_of H c"
  by (simp add: ids_of_def fun_eq_iff)

lemma set_add_unseen: "set (add_unseen acc is) = set acc \<union> set is"
  by (induction acc "is" rule: add_unseen.induct) auto

text \<open>What is known of the compiler after resolving selectors whose pods all have identities: the
  allocator is untouched and only the cache has filled.\<close>

definition same_view :: "(byte list \<Rightarrow> byte list) \<Rightarrow> labels set \<Rightarrow> PolicyCompiler \<Rightarrow> PolicyCompiler \<Rightarrow> bool" where
  "same_view H X c d \<longleftrightarrow> (\<exists>sc. d = c\<lparr>cmp_selectorCache := sc\<rparr> \<and> sc_inv H X sc \<and>
     sc_podLabels sc = sc_podLabels (cmp_selectorCache c))"

lemma same_view_ids: "same_view H X c d \<Longrightarrow> ids_of H d = ids_of H c"
  by (auto simp: same_view_def ids_of_cache)

lemma same_view_ok: "same_view H X c d \<Longrightarrow> compiler_ok H X n c \<Longrightarrow> compiler_ok H X n d"
  by (auto simp: same_view_def compiler_ok_def)

lemma same_view_trans: "same_view H X c d \<Longrightarrow> same_view H X d e \<Longrightarrow> same_view H X c e"
  by (auto simp: same_view_def)

lemma same_view_refl: "compiler_ok H X n c \<Longrightarrow> same_view H X c c"
  unfolding same_view_def compiler_ok_def by (intro exI [of _ "cmp_selectorCache c"]) simp

lemma resolve_view:
  assumes "compiler_ok H X n c" "sel \<in> X" "valid_ord ord" "ids_of H c sel \<noteq> {}"
  obtains d ids where "resolveSelectorToIdentities H ord c sel = (d, Ret ids)"
    "set ids = ids_of H c sel" "same_view H X c d"
  using resolve_known [OF assms] unfolding same_view_def by blast

text \<open>The selectors of the peers that are not address blocks, all matched by a pod with an identity.\<close>

definition peers_known :: "(byte list \<Rightarrow> byte list) \<Rightarrow> labels set \<Rightarrow> PolicyCompiler \<Rightarrow> NetworkPolicyPeer list \<Rightarrow> bool" where
  "peers_known H X c peers \<longleftrightarrow> (\<forall>peer \<in> set peers. peer_IPBlock peer = None \<longrightarrow>
     peer_PodSelector peer \<in> X \<and> ids_of H c (peer_PodSelector peer) \<noteq> {})"

lemma resolve_peer_loop_view:
  assumes "compiler_ok H X n c" and "\<And>j. valid_ord (ords j)" and "peers_known H X c peers"
  shows "\<exists>d ids. resolve_peer_loop H ords c peers acc = (d, Ret ids) \<and> same_view H X c d \<and>
    set ids = set acc \<union> (\<Union>peer \<in> {q \<in> set peers. peer_IPBlock q = None}. ids_of H c (peer_PodSelector peer))"
  using assms(1,3)
proof (induction peers arbitrary: c acc)
  case Nil
  then show ?case using same_view_refl by auto
next
  case (Cons q qs)
  have qs: "peers_known H X c qs" using Cons.prems(2) by (simp add: peers_known_def)
  show ?case
  proof (cases "peer_IPBlock q")
    case (Some b)
    have e: "{p \<in> set (q # qs). peer_IPBlock p = None} = {p \<in> set qs. peer_IPBlock p = None}"
      using Some by auto
    show ?thesis using Cons.IH [OF Cons.prems(1) qs, of acc] Some unfolding e by simp
  next
    case None
    with Cons.prems(2) have "peer_PodSelector q \<in> X" "ids_of H c (peer_PodSelector q) \<noteq> {}"
      by (simp_all add: peers_known_def)
    from resolve_view [OF Cons.prems(1) this(1) assms(2) this(2), of "length qs"] obtain d ids where
      d: "resolveSelectorToIdentities H (ords (length qs)) c (peer_PodSelector q) = (d, Ret ids)"
        "set ids = ids_of H c (peer_PodSelector q)" "same_view H X c d" by blast
    have ok: "compiler_ok H X n d" by (rule same_view_ok [OF d(3) Cons.prems(1)])
    have "peers_known H X d qs" using qs by (simp add: peers_known_def same_view_ids [OF d(3)])
    from Cons.IH [OF ok this, of "add_unseen acc ids"] obtain e js where
      e: "resolve_peer_loop H ords d qs (add_unseen acc ids) = (e, Ret js)" "same_view H X d e"
        "set js = set acc \<union> set ids \<union>
          (\<Union>peer \<in> {q \<in> set qs. peer_IPBlock q = None}. ids_of H c (peer_PodSelector peer))"
      by (auto simp: set_add_unseen same_view_ids [OF d(3)])
    have "{p \<in> set (q # qs). peer_IPBlock p = None} = insert q {p \<in> set qs. peer_IPBlock p = None}"
      using None by auto
    then show ?thesis
      using None d e same_view_trans [OF d(3) e(2)] by (auto simp: Un_assoc)
  qed
qed

lemma resolvePeers_view:
  assumes "compiler_ok H X n c" and "\<And>j. valid_ord (ords j)" and "peers_known H X c peers"
  obtains d ids where "resolvePeers H ords c peers = (d, Ret ids)" "set ids = peer_ids H c peers"
    "same_view H X c d"
proof (cases "peers = []")
  case True
  then show ?thesis
    using that [of c "[0]"] same_view_refl [OF assms(1)] by (simp add: resolvePeers_def peer_ids_def)
next
  case False
  then show ?thesis
    using that resolve_peer_loop_view [OF assms(1) _ assms(3), of ords "[]"] assms(2)
    by (auto simp: resolvePeers_def peer_ids_def)
qed

lemma peers_known_view: "same_view H X c d \<Longrightarrow> peers_known H X d ps \<longleftrightarrow> peers_known H X c ps"
  by (simp add: peers_known_def same_view_ids)

lemma peer_ids_view: "same_view H X c d \<Longrightarrow> peer_ids H d ps = peer_ids H c ps"
  by (simp add: peer_ids_def same_view_ids)

lemma ingress_loop_view:
  assumes "compiler_ok H X n c" and ords: "\<And>i j. valid_ord (ords i j)"
    and "\<forall>g \<in> set gs. peers_known H X c (ing_From g)"
  shows "\<exists>d rs. ingress_loop H ords nm ns ids c gs acc = (d, Ret rs) \<and> same_view H X c d \<and>
    set rs = set acc \<union> {tenant_rule nm ns s t port | s t port g. g \<in> set gs \<and> t \<in> set ids \<and>
      s \<in> peer_ids H c (ing_From g) \<and> port \<in> set (default_ports (ing_Ports g))}"
  using assms(1,3)
proof (induction gs arbitrary: c acc)
  case Nil
  then show ?case using same_view_refl by auto
next
  case (Cons g gs)
  from Cons.prems(2) have "peers_known H X c (ing_From g)" by simp
  from resolvePeers_view [OF Cons.prems(1) _ this, of "ords (length gs)"] ords obtain d srcs where
    d: "resolvePeers H (ords (length gs)) c (ing_From g) = (d, Ret srcs)"
      "set srcs = peer_ids H c (ing_From g)" "same_view H X c d" by blast
  let ?new = "[tenant_rule nm ns srcID dstID port. dstID \<leftarrow> ids, srcID \<leftarrow> srcs,
      port \<leftarrow> default_ports (ing_Ports g)]"
  have "\<forall>g \<in> set gs. peers_known H X d (ing_From g)"
    using Cons.prems(2) by (simp add: peers_known_view [OF d(3)])
  from Cons.IH [OF same_view_ok [OF d(3) Cons.prems(1)] this, of "acc @ ?new"] obtain e rs where
    e: "ingress_loop H ords nm ns ids d gs (acc @ ?new) = (e, Ret rs)" "same_view H X d e" and
    rs: "set rs = set (acc @ ?new) \<union> {tenant_rule nm ns s t port | s t port g. g \<in> set gs \<and> t \<in> set ids \<and>
      s \<in> peer_ids H c (ing_From g) \<and> port \<in> set (default_ports (ing_Ports g))}"
    unfolding peer_ids_view [OF d(3)] by blast
  have new: "set ?new = {tenant_rule nm ns s t port | s t port. t \<in> set ids \<and>
      s \<in> peer_ids H c (ing_From g) \<and> port \<in> set (default_ports (ing_Ports g))}"
    using d(2) by (auto simp: set_concat)
  have "ingress_loop H ords nm ns ids c (g # gs) acc = (e, Ret rs)" using d(1) e(1) by simp
  moreover have "same_view H X c e" by (rule same_view_trans [OF d(3) e(2)])
  moreover have "set rs = set acc \<union> {tenant_rule nm ns s t port | s t port h. h \<in> set (g # gs) \<and> t \<in> set ids \<and>
      s \<in> peer_ids H c (ing_From h) \<and> port \<in> set (default_ports (ing_Ports h))}"
    unfolding rs set_append new by auto
  ultimately show ?case by blast
qed

lemma egress_loop_view:
  assumes "compiler_ok H X n c" and ords: "\<And>i j. valid_ord (ords i j)"
    and "\<forall>g \<in> set gs. peers_known H X c (egr_To g)"
  shows "\<exists>d rs. egress_loop H ords nm ns ids c gs acc = (d, Ret rs) \<and> same_view H X c d \<and>
    set rs = set acc \<union> {tenant_rule nm ns s t port | s t port g. g \<in> set gs \<and> s \<in> set ids \<and>
      t \<in> peer_ids H c (egr_To g) \<and> port \<in> set (default_ports (egr_Ports g))}"
  using assms(1,3)
proof (induction gs arbitrary: c acc)
  case Nil
  then show ?case using same_view_refl by auto
next
  case (Cons g gs)
  from Cons.prems(2) have "peers_known H X c (egr_To g)" by simp
  from resolvePeers_view [OF Cons.prems(1) _ this, of "ords (length gs)"] ords obtain d dsts where
    d: "resolvePeers H (ords (length gs)) c (egr_To g) = (d, Ret dsts)"
      "set dsts = peer_ids H c (egr_To g)" "same_view H X c d" by blast
  let ?new = "[tenant_rule nm ns srcID dstID port. srcID \<leftarrow> ids, dstID \<leftarrow> dsts,
      port \<leftarrow> default_ports (egr_Ports g)]"
  have "\<forall>g \<in> set gs. peers_known H X d (egr_To g)"
    using Cons.prems(2) by (simp add: peers_known_view [OF d(3)])
  from Cons.IH [OF same_view_ok [OF d(3) Cons.prems(1)] this, of "acc @ ?new"] obtain e rs where
    e: "egress_loop H ords nm ns ids d gs (acc @ ?new) = (e, Ret rs)" "same_view H X d e" and
    rs: "set rs = set (acc @ ?new) \<union> {tenant_rule nm ns s t port | s t port g. g \<in> set gs \<and> s \<in> set ids \<and>
      t \<in> peer_ids H c (egr_To g) \<and> port \<in> set (default_ports (egr_Ports g))}"
    unfolding peer_ids_view [OF d(3)] by blast
  have new: "set ?new = {tenant_rule nm ns s t port | s t port. s \<in> set ids \<and>
      t \<in> peer_ids H c (egr_To g) \<and> port \<in> set (default_ports (egr_Ports g))}"
    using d(2) by (auto simp: set_concat)
  have "egress_loop H ords nm ns ids c (g # gs) acc = (e, Ret rs)" using d(1) e(1) by simp
  moreover have "same_view H X c e" by (rule same_view_trans [OF d(3) e(2)])
  moreover have "set rs = set acc \<union> {tenant_rule nm ns s t port | s t port h. h \<in> set (g # gs) \<and> s \<in> set ids \<and>
      t \<in> peer_ids H c (egr_To h) \<and> port \<in> set (default_ports (egr_Ports h))}"
    unfolding rs set_append new by auto
  ultimately show ?case by blast
qed

subsection \<open>Properties\<close>


definition ex_compiler :: PolicyCompiler where
  "ex_compiler = \<lparr>
     cmp_identityAllocator = foldl (identity_step ex_H) NewIdentityAllocator
       [OpAllocateIdentity ex_web, OpAllocateIdentity ex_db],
     cmp_selectorCache = AddPod ex_H [] (AddPod ex_H [] NewSelectorCache ''a'' ex_web) ''b'' ex_db\<rparr>"

definition ex_orders :: compile_orders where
  "ex_orders = \<lparr>ord_target = sorted_list_of_fset, ord_ingress = (\<lambda>_ _. sorted_list_of_fset),
     ord_egress = (\<lambda>_ _. sorted_list_of_fset)\<rparr>"

definition ex_spec :: NetworkPolicySpec where
  "ex_spec = \<lparr>nps_PodSelector = ex_db,
     nps_Ingress = [\<lparr>ing_From = [\<lparr>peer_PodSelector = ex_web, peer_NamespaceSelector = fmempty,
                                  peer_IPBlock = None\<rparr>],
                     ing_Ports = [\<lparr>npp_Protocol = ''TCP'', npp_Port = 5432\<rparr>]\<rparr>],
     nps_Egress = []\<rparr>"

lemma valid_ord_sorted: "valid_ord sorted_list_of_fset"
  by (simp add: valid_ord_def sorted_list_of_fset.rep_eq)

lemma ex_compiler_ok: "compiler_ok ex_H {ex_web, ex_db} 2 ex_compiler"
proof -
  have "identity_ok ex_H {ex_web, ex_db} (0 + length [OpAllocateIdentity ex_web, OpAllocateIdentity ex_db])
      (cmp_identityAllocator ex_compiler)"
    unfolding ex_compiler_def PolicyCompiler.simps
    by (rule identity_run_ok [OF NewIdentityAllocator_ok]) simp_all
  moreover have "sc_inv ex_H {ex_web, ex_db} (cmp_selectorCache ex_compiler)"
  proof -
    have o: "range_order (sc_selectorSpecs NewSelectorCache) []"
      "range_order (sc_selectorSpecs (AddPod ex_H [] NewSelectorCache ''a'' ex_web)) []"
      unfolding range_order_def by code_simp+
    show ?thesis unfolding ex_compiler_def PolicyCompiler.simps
      by (rule AddPod_inv [OF AddPod_inv [OF sc_reachable_inv [OF reach_new] o(1)] o(2)])
  qed
  ultimately show ?thesis by (simp add: compiler_ok_def ex_collision_free eval_nat_numeral)
qed

lemma ex_ids_of: "ids_of ex_H ex_compiler ex_web = {1}" "ids_of ex_H ex_compiler ex_db = {2}"
proof -
  have r: "snd (resolveSelectorToIdentities ex_H sorted_list_of_fset ex_compiler ex_web) = Ret [1]"
    "snd (resolveSelectorToIdentities ex_H sorted_list_of_fset ex_compiler ex_db) = Ret [2]" by code_simp+
  have "GetIdentityByLabels ex_H (cmp_identityAllocator ex_compiler) ex_web =
      (Some (the (fst (GetIdentityByLabels ex_H (cmp_identityAllocator ex_compiler) ex_web))), True)"
    "GetIdentityByLabels ex_H (cmp_identityAllocator ex_compiler) ex_db =
      (Some (the (fst (GetIdentityByLabels ex_H (cmp_identityAllocator ex_compiler) ex_db))), True)" by code_simp+
  moreover have "fmlookup (sc_podLabels (cmp_selectorCache ex_compiler)) ''a'' = Some ex_web"
    "fmlookup (sc_podLabels (cmp_selectorCache ex_compiler)) ''b'' = Some ex_db" by code_simp+
  moreover have "MatchesSelector ex_web ex_web" "MatchesSelector ex_db ex_db" by (simp_all add: MatchesSelector_iff)
  ultimately have ne: "ids_of ex_H ex_compiler ex_web \<noteq> {}" "ids_of ex_H ex_compiler ex_db \<noteq> {}"
    unfolding ids_of_def by blast+
  obtain d ids where "resolveSelectorToIdentities ex_H sorted_list_of_fset ex_compiler ex_web = (d, Ret ids)"
    "set ids = ids_of ex_H ex_compiler ex_web"
    by (rule resolve_view [OF ex_compiler_ok _ valid_ord_sorted ne(1)]) simp_all
  then show "ids_of ex_H ex_compiler ex_web = {1}" using r(1) by (metis list.simps(15) outcome.inject(1) set_empty snd_conv)
  obtain e js where "resolveSelectorToIdentities ex_H sorted_list_of_fset ex_compiler ex_db = (e, Ret js)"
    "set js = ids_of ex_H ex_compiler ex_db"
    by (rule resolve_view [OF ex_compiler_ok _ valid_ord_sorted ne(2)]) simp_all
  then show "ids_of ex_H ex_compiler ex_db = {2}" using r(2) by (metis list.simps(15) outcome.inject(1) set_empty snd_conv)
qed


text \<open>C9. The merge keeps for every flow (source, destination, protocol, port) exactly one rule, a
  rule of the input, and one of the best priority: no input rule for the same flow has a lower
  tier, or the same tier and a higher specificity score, or both equal and a smaller policy
  name. So a node-isolation rule always beats a platform rule for the same flow, and a platform
  rule a tenant's. The result is sorted by that priority. (Ports are not negative.)\<close>

theorem MergeAndPrioritize_keeps_best:
  assumes "\<forall>r \<in> merged_rules policies. 0 \<le> pr_Port r"
  shows "distinct (map flow_key (cpol_Rules (MergeAndPrioritize now nanos policies))) \<and>
    set (cpol_Rules (MergeAndPrioritize now nanos policies)) \<subseteq> merged_rules policies \<and>
    (\<forall>r \<in> merged_rules policies. \<exists>r' \<in> set (cpol_Rules (MergeAndPrioritize now nanos policies)).
       flow_key r' = flow_key r \<and> \<not> rule_less r r') \<and>
    sorted (map priority (cpol_Rules (MergeAndPrioritize now nanos policies)))"
  using assms by (rule MergeAndPrioritize_best)

definition ex_policies :: "CompiledPolicy option list" where
  "ex_policies =
     [Some \<lparr>cpol_Rules = [tenant_rule ''t'' ''ns'' 0 0 \<lparr>npp_Protocol = ''TCP'', npp_Port = 53\<rparr>],
            cpol_CompiledAt = 0, cpol_Version = 0\<rparr>, None,
      Some \<lparr>cpol_Rules = GenerateRules (SetMonitoringPort NewPlatformRules 90), cpol_CompiledAt = 0, cpol_Version = 0\<rparr>]"

theorem MergeAndPrioritize_keeps_best_witness:
  "map pr_PolicyName (cpol_Rules (MergeAndPrioritize 0 0 ex_policies)) =
     [''platform-dns-tcp'', ''platform-dns-udp'', ''platform-monitoring''] \<and>
   sorted (map priority (cpol_Rules (MergeAndPrioritize 0 0 ex_policies)))"
proof -
  have "merged_rules ex_policies = set (concat (map (\<lambda>p. case p of None \<Rightarrow> [] | Some q \<Rightarrow> cpol_Rules q) ex_policies))"
    by (rule set_merge_input [symmetric])
  also have "\<dots> = {tenant_rule ''t'' ''ns'' 0 0 \<lparr>npp_Protocol = ''TCP'', npp_Port = 53\<rparr>} \<union>
      set (GenerateRules (SetMonitoringPort NewPlatformRules 90))"
    by (simp add: ex_policies_def)
  finally have "\<forall>r \<in> merged_rules ex_policies. 0 \<le> pr_Port r"
    by (simp add: tenant_rule_def GenerateRules_def platform_rule_def SetMonitoringPort_def)
  from MergeAndPrioritize_keeps_best [OF this, of 0 0]
  have "sorted (map priority (cpol_Rules (MergeAndPrioritize 0 0 ex_policies)))" by blast
  moreover have "map pr_PolicyName (cpol_Rules (MergeAndPrioritize 0 0 ex_policies)) =
     [''platform-dns-tcp'', ''platform-dns-udp'', ''platform-monitoring'']" by code_simp
  ultimately show ?thesis by blast
qed

text \<open>Whether a rule applies to a flow: identity 0, protocol ANY and port 0 are wildcards. The
  decision on a flow is the first rule that applies.\<close>

definition rule_applies :: "u32 \<Rightarrow> u32 \<Rightarrow> string \<Rightarrow> int \<Rightarrow> PolicyRule \<Rightarrow> bool" where
  "rule_applies s d proto port r \<longleftrightarrow>
     (pr_SrcIdentity r = 0 \<or> pr_SrcIdentity r = s) \<and> (pr_DstIdentity r = 0 \<or> pr_DstIdentity r = d) \<and>
     (pr_Proto r = ''ANY'' \<or> pr_Proto r = proto) \<and> (pr_Port r = 0 \<or> pr_Port r = port)"

definition decision :: "PolicyRule list \<Rightarrow> u32 \<Rightarrow> u32 \<Rightarrow> string \<Rightarrow> int \<Rightarrow> Verdict option" where
  "decision rules s d proto port = map_option pr_Verdict (find (rule_applies s d proto port) rules)"

lemma find_filter:
  "(\<And>x. P x \<Longrightarrow> Q x) \<Longrightarrow> find P (filter Q xs) = find P xs"
  by (induction xs) auto

text \<open>C32. Sending a node only the rules that concern it is safe: for every flow with an end whose
  identity is present on the node, the filtered rules give the decision of the full list.\<close>

theorem FilterRulesForNode_keeps_decisions:
  assumes "s |\<in>| nodeIdentities \<or> d |\<in>| nodeIdentities"
  shows "decision (FilterRulesForNode rules nodeIdentities) s d proto port = decision rules s d proto port"
  unfolding decision_def FilterRulesForNode_def
  by (subst find_filter) (use assms in \<open>auto simp: rule_applies_def\<close>)

theorem FilterRulesForNode_keeps_decisions_witness:
  "length (FilterRulesForNode
     [tenant_rule ''p'' ''ns'' 7 8 \<lparr>npp_Protocol = ''TCP'', npp_Port = 1\<rparr>,
      tenant_rule ''p'' ''ns'' 1 2 \<lparr>npp_Protocol = ''TCP'', npp_Port = 80\<rparr>] {|2|}) = 1 \<and>
   decision (FilterRulesForNode
     [tenant_rule ''p'' ''ns'' 7 8 \<lparr>npp_Protocol = ''TCP'', npp_Port = 1\<rparr>,
      tenant_rule ''p'' ''ns'' 1 2 \<lparr>npp_Protocol = ''TCP'', npp_Port = 80\<rparr>] {|2|}) 1 2 ''TCP'' 80 = Some VerdictAllow"
proof -
  let ?rules = "[tenant_rule ''p'' ''ns'' 7 8 \<lparr>npp_Protocol = ''TCP'', npp_Port = 1\<rparr>,
      tenant_rule ''p'' ''ns'' 1 2 \<lparr>npp_Protocol = ''TCP'', npp_Port = 80\<rparr>]"
  have "decision (FilterRulesForNode ?rules {|2|}) 1 2 ''TCP'' 80 = decision ?rules 1 2 ''TCP'' 80"
    by (rule FilterRulesForNode_keeps_decisions) simp
  moreover have "decision ?rules 1 2 ''TCP'' 80 = Some VerdictAllow" by code_simp
  moreover have "length (FilterRulesForNode ?rules {|2|}) = 1" by code_simp
  ultimately show ?thesis by simp
qed

text \<open>A policy with the namespace selectors of all its peers changed.\<close>

definition set_namespaces :: "(labels \<Rightarrow> labels) \<Rightarrow> NetworkPolicySpec \<Rightarrow> NetworkPolicySpec" where
  "set_namespaces f spec = spec\<lparr>
     nps_Ingress := map (\<lambda>g. g\<lparr>ing_From := map (\<lambda>q. q\<lparr>peer_NamespaceSelector := f (peer_NamespaceSelector q)\<rparr>)
                                       (ing_From g)\<rparr>) (nps_Ingress spec),
     nps_Egress := map (\<lambda>g. g\<lparr>egr_To := map (\<lambda>q. q\<lparr>peer_NamespaceSelector := f (peer_NamespaceSelector q)\<rparr>)
                                       (egr_To g)\<rparr>) (nps_Egress spec)\<rparr>"

lemma resolve_peer_loop_namespaces:
  "resolve_peer_loop H ords c (map (\<lambda>q. q\<lparr>peer_NamespaceSelector := f (peer_NamespaceSelector q)\<rparr>) ps) acc =
   resolve_peer_loop H ords c ps acc"
  by (induction ps arbitrary: c acc) (auto split: prod.split outcome.split)

lemma ingress_loop_namespaces:
  "ingress_loop H ords nm ns ids c (map (\<lambda>g. g\<lparr>ing_From := map (\<lambda>q. q\<lparr>peer_NamespaceSelector :=
      f (peer_NamespaceSelector q)\<rparr>) (ing_From g)\<rparr>) gs) acc = ingress_loop H ords nm ns ids c gs acc"
  by (induction gs arbitrary: c acc)
     (auto simp: resolvePeers_def resolve_peer_loop_namespaces split: prod.split outcome.split)

lemma egress_loop_namespaces:
  "egress_loop H ords nm ns ids c (map (\<lambda>g. g\<lparr>egr_To := map (\<lambda>q. q\<lparr>peer_NamespaceSelector :=
      f (peer_NamespaceSelector q)\<rparr>) (egr_To g)\<rparr>) gs) acc = egress_loop H ords nm ns ids c gs acc"
  by (induction gs arbitrary: c acc)
     (auto simp: resolvePeers_def resolve_peer_loop_namespaces split: prod.split outcome.split)

text \<open>Namespace selectors play no part in a compiled policy: changing those of all peers in any
  way changes neither the rules nor the state, so a peer given by a namespace selector alone
  stands for every pod of the cluster.\<close>

lemma namespaces_ignored:
  "CompilePolicy H now nanos ords c nm ns (set_namespaces f spec) = CompilePolicy H now nanos ords c nm ns spec"
  unfolding CompilePolicy_def set_namespaces_def
  by (simp add: ingress_loop_namespaces egress_loop_namespaces)

end
