(* ===== verification/PolicyStore.thy ===== *)
theory PolicyStore
  imports Compiler
begin

text \<open>
  The policy store, \<^verbatim>\<open>src/pkg/policy/policy_store.go\<close>: the network policies by key, recompiled as a
  whole on every change. The compiler (with the selector cache and the identity allocator) is
  part of the state. The order in which \<open>Recompile\<close> visits the policies and the orders of the
  ranges inside each compilation are arguments; the clock is read once per recompilation. The
  change callback runs in its own goroutine; the state counts how many were started.

  The lemmas show that a recompilation always succeeds in a state the operations reach, that
  tenants cannot override the platform's rules, and how the store reads back.
\<close>

record StoredPolicy =
  sp_Name :: string
  sp_Namespace :: string
  sp_Spec :: NetworkPolicySpec
  sp_AddedAt :: gotime

record PolicyStore =
  ps_policies :: "(string, StoredPolicy) fmap"
  ps_compiler :: PolicyCompiler
  ps_compiled :: "CompiledPolicy option"
  ps_platform :: "PlatformRules option"
  ps_version :: int
  ps_onChange :: bool
  ps_started :: nat

text \<open>The choices the runtime makes in one recompilation: the clock, the order of the policies and
  the orders inside each compilation.\<close>

record compile_env =
  ce_now :: gotime
  ce_nanos :: int
  ce_order :: "string list"
  ce_orders :: "nat \<Rightarrow> compile_orders"

subsection \<open>Operations\<close>

definition NewPolicyStore :: "PolicyCompiler \<Rightarrow> PlatformRules option \<Rightarrow> PolicyStore" where
  "NewPolicyStore compiler platform =
     \<lparr>ps_policies = fmempty, ps_compiler = compiler, ps_compiled = None, ps_platform = platform,
      ps_version = 1, ps_onChange = False, ps_started = 0\<rparr>"

definition store_key :: "string \<Rightarrow> string \<Rightarrow> string" where
  "store_key ns nm = ns @ CHR ''/'' # nm"

fun compile_all ::
  "(byte list \<Rightarrow> byte list) \<Rightarrow> compile_env \<Rightarrow> (string, StoredPolicy) fmap \<Rightarrow> PolicyCompiler \<Rightarrow> string list \<Rightarrow>
   CompiledPolicy option list \<Rightarrow> PolicyCompiler \<times> CompiledPolicy option list outcome" where
  "compile_all H env ps c [] acc = (c, Ret acc)"
| "compile_all H env ps c (k # ks) acc =
     (case fmlookup ps k of
        None \<Rightarrow> compile_all H env ps c ks acc
      | Some p \<Rightarrow>
          (case CompilePolicy H (ce_now env) (ce_nanos env) (ce_orders env (length ks)) c
                  (sp_Name p) (sp_Namespace p) (sp_Spec p) of
             (c1, Ret compiled) \<Rightarrow> compile_all H env ps c1 ks (acc @ [Some compiled])
           | (c1, Err e) \<Rightarrow> (c1, Err e)
           | (c1, Panic e) \<Rightarrow> (c1, Panic e)))"

definition Recompile ::
  "(byte list \<Rightarrow> byte list) \<Rightarrow> compile_env \<Rightarrow> PolicyStore \<Rightarrow> PolicyStore \<times> unit outcome" where
  "Recompile H env s =
     (let platform = (case ps_platform s of
                        None \<Rightarrow> []
                      | Some p \<Rightarrow> [Some \<lparr>cpol_Rules = GenerateRules p, cpol_CompiledAt = ce_now env,
                                       cpol_Version = ce_nanos env\<rparr>])
      in case compile_all H env (ps_policies s) (ps_compiler s) (ce_order env) platform of
           (c, Err e) \<Rightarrow> (s\<lparr>ps_compiler := c\<rparr>, Err e)
         | (c, Panic e) \<Rightarrow> (s\<lparr>ps_compiler := c\<rparr>, Panic e)
         | (c, Ret policiesToMerge) \<Rightarrow>
             (s\<lparr>ps_compiler := c,
                ps_compiled := Some (MergeAndPrioritize (ce_now env) (ce_nanos env) policiesToMerge),
                ps_version := wrap64 (ps_version s + 1),
                ps_started := (if ps_onChange s then ps_started s + 1 else ps_started s)\<rparr>, Ret ()))"

definition AddPolicy ::
  "(byte list \<Rightarrow> byte list) \<Rightarrow> gotime \<Rightarrow> compile_env \<Rightarrow> PolicyStore \<Rightarrow> string \<Rightarrow> string \<Rightarrow> NetworkPolicySpec \<Rightarrow>
   PolicyStore \<times> unit outcome" where
  "AddPolicy H now env s nm ns spec =
     Recompile H env (s\<lparr>ps_policies := fmupd (store_key ns nm)
       \<lparr>sp_Name = nm, sp_Namespace = ns, sp_Spec = spec, sp_AddedAt = now\<rparr> (ps_policies s)\<rparr>)"

definition RemovePolicy ::
  "(byte list \<Rightarrow> byte list) \<Rightarrow> compile_env \<Rightarrow> PolicyStore \<Rightarrow> string \<Rightarrow> string \<Rightarrow> PolicyStore \<times> unit outcome" where
  "RemovePolicy H env s nm ns =
     (if fmlookup (ps_policies s) (store_key ns nm) = None
      then (s, Err (''policy '' @ store_key ns nm @ '' not found''))
      else Recompile H env (s\<lparr>ps_policies := fmdrop (store_key ns nm) (ps_policies s)\<rparr>))"

definition GetPolicy :: "PolicyStore \<Rightarrow> string \<Rightarrow> string \<Rightarrow> StoredPolicy option" where
  "GetPolicy s nm ns = fmlookup (ps_policies s) (store_key ns nm)"

definition ListPolicies :: "string list \<Rightarrow> PolicyStore \<Rightarrow> StoredPolicy list" where
  "ListPolicies order s = List.map_filter (fmlookup (ps_policies s)) order"

definition GetCompiledPolicy :: "PolicyStore \<Rightarrow> CompiledPolicy option" where
  "GetCompiledPolicy s = ps_compiled s"

definition GetCompiledForNode :: "gotime \<Rightarrow> PolicyStore \<Rightarrow> u32 fset \<Rightarrow> CompiledPolicy" where
  "GetCompiledForNode now s nodeIdentities =
     (case ps_compiled s of
        None \<Rightarrow> \<lparr>cpol_Rules = [], cpol_CompiledAt = now, cpol_Version = 0\<rparr>
      | Some compiled \<Rightarrow> \<lparr>cpol_Rules = FilterRulesForNode (cpol_Rules compiled) nodeIdentities,
                          cpol_CompiledAt = now, cpol_Version = cpol_Version compiled\<rparr>)"

definition SetOnChangeCallback :: "PolicyStore \<Rightarrow> bool \<Rightarrow> PolicyStore" where
  "SetOnChangeCallback s fn = s\<lparr>ps_onChange := fn\<rparr>"

definition GetVersion :: "PolicyStore \<Rightarrow> int" where
  "GetVersion s = ps_version s"

subsection \<open>Compilations always return\<close>

text \<open>How many selectors a policy resolves, and which.\<close>

definition spec_cost :: "NetworkPolicySpec \<Rightarrow> nat" where
  "spec_cost spec = 1 + sum_list (map (length \<circ> ing_From) (nps_Ingress spec))
                      + sum_list (map (length \<circ> egr_To) (nps_Egress spec))"

definition spec_selectors :: "NetworkPolicySpec \<Rightarrow> labels set" where
  "spec_selectors spec = insert (nps_PodSelector spec)
     (peer_PodSelector ` ((\<Union>g \<in> set (nps_Ingress spec). set (ing_From g)) \<union>
                          (\<Union>g \<in> set (nps_Egress spec). set (egr_To g))))"

lemma compiler_ok_mono: "compiler_ok H X n c \<Longrightarrow> n \<le> m \<Longrightarrow> compiler_ok H X m c"
  by (auto simp: compiler_ok_def intro: identity_ok_mono)

lemma resolve_total:
  assumes ok: "compiler_ok H X n c" and "sel \<in> X" and "valid_ord ord" and n: "n + 2 < 2 ^ 32"
  shows "\<exists>d ids. resolveSelectorToIdentities H ord c sel = (d, Ret ids) \<and> compiler_ok H X (n + 1) d"
proof -
  from ok have cf: "collision_free H X" and sc: "sc_inv H X (cmp_selectorCache c)"
    and ia: "identity_ok H X n (cmp_identityAllocator c)" by (auto simp: compiler_ok_def)
  obtain sc' keys where e: "EvaluateSelector H (cmp_selectorCache c) sel = (sc', keys)" by fastforce
  from EvaluateSelector_exact [OF cf sc assms(2) e] have inv: "sc_inv H X sc'" by blast
  obtain ids where ids: "collect_ids H (cmp_identityAllocator c) (sc_podLabels sc') (ord keys) [] = Ret ids"
    using collect_ids_spec [OF ia] by blast
  have ia': "identity_ok H X (n + 1) (cmp_identityAllocator c)" by (rule identity_ok_mono [OF ia]) simp_all
  show ?thesis
  proof (cases "ids = []")
    case False
    then show ?thesis
      using e ids inv ia' cf by (simp add: resolveSelectorToIdentities_def Let_def compiler_ok_def)
  next
    case True
    obtain a d where a: "AllocateIdentity H (cmp_identityAllocator c) sel = (a, Ret d)"
      by (rule AllocateIdentity_Ret [OF ia n])
    moreover have "identity_ok H X (n + 1) a" using AllocateIdentity_ok [OF ia n assms(2)] a by simp
    ultimately show ?thesis
      using e ids True inv cf by (simp add: resolveSelectorToIdentities_def Let_def compiler_ok_def)
  qed
qed

lemma resolve_peer_loop_total:
  assumes "compiler_ok H X n c" and ords: "\<And>j. valid_ord (ords j)"
    and "peer_PodSelector ` set peers \<subseteq> X" and "n + length peers + 1 < 2 ^ 32"
  shows "\<exists>d ids. resolve_peer_loop H ords c peers acc = (d, Ret ids) \<and> compiler_ok H X (n + length peers) d"
  using assms(1,3,4)
proof (induction peers arbitrary: c n acc)
  case (Cons q qs)
  show ?case
  proof (cases "peer_IPBlock q")
    case (Some b)
    have "compiler_ok H X (n + 1) c" by (rule compiler_ok_mono [OF Cons.prems(1)]) simp
    from Cons.IH [OF this, of acc] Cons.prems(2,3) Some show ?thesis by simp
  next
    case None
    from resolve_total [OF Cons.prems(1) _ ords, of "peer_PodSelector q" "length qs"] Cons.prems(2,3)
    obtain d ids where d: "resolveSelectorToIdentities H (ords (length qs)) c (peer_PodSelector q) = (d, Ret ids)"
      "compiler_ok H X (n + 1) d" by auto
    from Cons.IH [OF d(2), of "add_unseen acc ids"] Cons.prems(2,3) None d(1) show ?thesis by simp
  qed
qed simp

lemma resolvePeers_total:
  assumes "compiler_ok H X n c" and "\<And>j. valid_ord (ords j)"
    and "peer_PodSelector ` set peers \<subseteq> X" and "n + length peers + 1 < 2 ^ 32"
  obtains d ids where "resolvePeers H ords c peers = (d, Ret ids)" "compiler_ok H X (n + length peers) d"
proof -
  have "\<exists>d ids. resolve_peer_loop H ords c peers [] = (d, Ret ids) \<and> compiler_ok H X (n + length peers) d"
    by (rule resolve_peer_loop_total [OF assms])
  then show ?thesis using that assms(1) by (cases "peers = []") (auto simp: resolvePeers_def)
qed

lemma ingress_loop_total:
  assumes "compiler_ok H X n c" and ords: "\<And>i j. valid_ord (ords i j)"
    and "(\<Union>g \<in> set gs. peer_PodSelector ` set (ing_From g)) \<subseteq> X"
    and "n + sum_list (map (length \<circ> ing_From) gs) + 1 < 2 ^ 32"
  shows "\<exists>d rs. ingress_loop H ords nm ns ids c gs acc = (d, Ret rs) \<and>
    compiler_ok H X (n + sum_list (map (length \<circ> ing_From) gs)) d"
  using assms(1,3,4)
proof (induction gs arbitrary: c n acc)
  case (Cons g gs)
  have "peer_PodSelector ` set (ing_From g) \<subseteq> X" "n + length (ing_From g) + 1 < 2 ^ 32"
    using Cons.prems(2,3) by auto
  from resolvePeers_total [OF Cons.prems(1) _ this, of "ords (length gs)"] ords
  obtain d js where d: "resolvePeers H (ords (length gs)) c (ing_From g) = (d, Ret js)"
    "compiler_ok H X (n + length (ing_From g)) d" by blast
  show ?case using Cons.IH [OF d(2)] Cons.prems(2,3) d(1) by (simp add: add.assoc)
qed simp

lemma egress_loop_total:
  assumes "compiler_ok H X n c" and ords: "\<And>i j. valid_ord (ords i j)"
    and "(\<Union>g \<in> set gs. peer_PodSelector ` set (egr_To g)) \<subseteq> X"
    and "n + sum_list (map (length \<circ> egr_To) gs) + 1 < 2 ^ 32"
  shows "\<exists>d rs. egress_loop H ords nm ns ids c gs acc = (d, Ret rs) \<and>
    compiler_ok H X (n + sum_list (map (length \<circ> egr_To) gs)) d"
  using assms(1,3,4)
proof (induction gs arbitrary: c n acc)
  case (Cons g gs)
  have "peer_PodSelector ` set (egr_To g) \<subseteq> X" "n + length (egr_To g) + 1 < 2 ^ 32"
    using Cons.prems(2,3) by auto
  from resolvePeers_total [OF Cons.prems(1) _ this, of "ords (length gs)"] ords
  obtain d js where d: "resolvePeers H (ords (length gs)) c (egr_To g) = (d, Ret js)"
    "compiler_ok H X (n + length (egr_To g)) d" by blast
  show ?case using Cons.IH [OF d(2)] Cons.prems(2,3) d(1) by (simp add: add.assoc)
qed simp

lemma CompilePolicy_total:
  assumes "compiler_ok H X n c" and "valid_orders ords" and "spec_selectors spec \<subseteq> X"
    and "n + spec_cost spec + 1 < 2 ^ 32"
  obtains d p where "CompilePolicy H now nanos ords c nm ns spec = (d, Ret p)"
    "compiler_ok H X (n + spec_cost spec) d"
proof -
  from assms(2) have ord: "valid_ord (ord_target ords)" "\<And>i j. valid_ord (ord_ingress ords i j)"
    "\<And>i j. valid_ord (ord_egress ords i j)" by (simp_all add: valid_orders_def)
  let ?i = "sum_list (map (length \<circ> ing_From) (nps_Ingress spec))"
  let ?e = "sum_list (map (length \<circ> egr_To) (nps_Egress spec))"
  have cost: "spec_cost spec = 1 + ?i + ?e" by (simp add: spec_cost_def)
  have sel: "nps_PodSelector spec \<in> X" "(\<Union>g \<in> set (nps_Ingress spec). peer_PodSelector ` set (ing_From g)) \<subseteq> X"
    "(\<Union>g \<in> set (nps_Egress spec). peer_PodSelector ` set (egr_To g)) \<subseteq> X"
    using assms(3) by (auto simp: spec_selectors_def)
  obtain c1 ids where c1: "resolveSelectorToIdentities H (ord_target ords) c (nps_PodSelector spec) = (c1, Ret ids)"
    "compiler_ok H X (n + 1) c1"
    using resolve_total [OF assms(1) sel(1) ord(1)] assms(4) cost by auto
  have b: "n + 1 + ?i + 1 < 2 ^ 32" "n + 1 + ?i + ?e + 1 < 2 ^ 32" using assms(4) cost by linarith+
  from ingress_loop_total [OF c1(2) _ sel(2) b(1), of "ord_ingress ords" nm ns ids "[]"] ord(2)
  obtain c2 rs where c2: "ingress_loop H (ord_ingress ords) nm ns ids c1 (nps_Ingress spec) [] = (c2, Ret rs)"
    "compiler_ok H X (n + 1 + ?i) c2" by blast
  from egress_loop_total [OF c2(2) _ sel(3) b(2), of "ord_egress ords" nm ns ids rs] ord(3)
  obtain c3 rs' where c3: "egress_loop H (ord_egress ords) nm ns ids c2 (nps_Egress spec) rs = (c3, Ret rs')"
    "compiler_ok H X (n + 1 + ?i + ?e) c3" by blast
  show ?thesis
    by (rule that [of c3]) (use c1(1) c2(1) c3 cost in \<open>simp_all add: CompilePolicy_def add.assoc\<close>)
qed

subsection \<open>What tenants contribute\<close>

text \<open>The rules of a compiled network policy, whatever the pods: allow rules of the tenant tier on
  ports of the policy.\<close>

definition spec_ports_ok :: "NetworkPolicySpec \<Rightarrow> bool" where
  "spec_ports_ok spec \<longleftrightarrow>
     (\<forall>g \<in> set (nps_Ingress spec). \<forall>q \<in> set (ing_Ports g). 0 \<le> npp_Port q) \<and>
     (\<forall>g \<in> set (nps_Egress spec). \<forall>q \<in> set (egr_Ports g). 0 \<le> npp_Port q)"

definition tenant_ok :: "PolicyRule \<Rightarrow> bool" where
  "tenant_ok r \<longleftrightarrow> pr_Tier r = TierTenant \<and> pr_Verdict r = VerdictAllow \<and> 0 \<le> pr_Port r"

lemma default_ports_ok:
  "\<forall>q \<in> set ports. 0 \<le> npp_Port q \<Longrightarrow> q \<in> set (default_ports ports) \<Longrightarrow> tenant_ok (tenant_rule nm ns s d q)"
  by (auto simp: tenant_ok_def tenant_rule_def default_ports_def split: if_splits)

lemma ingress_loop_tenant:
  "ingress_loop H ords nm ns ids c gs acc = (d, Ret rs) \<Longrightarrow> \<forall>r \<in> set acc. tenant_ok r \<Longrightarrow>
     \<forall>g \<in> set gs. \<forall>q \<in> set (ing_Ports g). 0 \<le> npp_Port q \<Longrightarrow> \<forall>r \<in> set rs. tenant_ok r"
proof (induction gs arbitrary: c acc)
  case (Cons g gs)
  obtain c1 srcs where s: "resolvePeers H (ords (length gs)) c (ing_From g) = (c1, Ret srcs)"
    using Cons.prems(1) by (auto split: prod.splits outcome.splits)
  let ?new = "[tenant_rule nm ns srcID dstID port. dstID \<leftarrow> ids, srcID \<leftarrow> srcs, port \<leftarrow> default_ports (ing_Ports g)]"
  have "\<forall>r \<in> set (acc @ ?new). tenant_ok r"
    using Cons.prems(2,3) default_ports_ok [of "ing_Ports g"] by auto
  moreover have "ingress_loop H ords nm ns ids c1 gs (acc @ ?new) = (d, Ret rs)"
    using Cons.prems(1) s by simp
  ultimately show ?case using Cons.IH Cons.prems(3) by (meson list.set_intros(2))
qed simp

lemma egress_loop_tenant:
  "egress_loop H ords nm ns ids c gs acc = (d, Ret rs) \<Longrightarrow> \<forall>r \<in> set acc. tenant_ok r \<Longrightarrow>
     \<forall>g \<in> set gs. \<forall>q \<in> set (egr_Ports g). 0 \<le> npp_Port q \<Longrightarrow> \<forall>r \<in> set rs. tenant_ok r"
proof (induction gs arbitrary: c acc)
  case (Cons g gs)
  obtain c1 dsts where s: "resolvePeers H (ords (length gs)) c (egr_To g) = (c1, Ret dsts)"
    using Cons.prems(1) by (auto split: prod.splits outcome.splits)
  let ?new = "[tenant_rule nm ns srcID dstID port. srcID \<leftarrow> ids, dstID \<leftarrow> dsts, port \<leftarrow> default_ports (egr_Ports g)]"
  have "\<forall>r \<in> set (acc @ ?new). tenant_ok r"
    using Cons.prems(2,3) default_ports_ok [of "egr_Ports g"] by auto
  moreover have "egress_loop H ords nm ns ids c1 gs (acc @ ?new) = (d, Ret rs)"
    using Cons.prems(1) s by simp
  ultimately show ?case using Cons.IH Cons.prems(3) by (meson list.set_intros(2))
qed simp

lemma CompilePolicy_tenant:
  assumes "CompilePolicy H now nanos ords c nm ns spec = (d, Ret p)" and "spec_ports_ok spec"
  shows "\<forall>r \<in> set (cpol_Rules p). tenant_ok r"
proof -
  from assms(1) obtain c1 ids c2 rs rs' where
    i: "ingress_loop H (ord_ingress ords) nm ns ids c1 (nps_Ingress spec) [] = (c2, Ret rs)" and
    e: "egress_loop H (ord_egress ords) nm ns ids c2 (nps_Egress spec) rs = (d, Ret rs')" and p: "cpol_Rules p = rs'"
    by (auto simp: CompilePolicy_def split: prod.splits outcome.splits)
  have "\<forall>r \<in> set rs. tenant_ok r"
    by (rule ingress_loop_tenant [OF i]) (use assms(2) in \<open>simp_all add: spec_ports_ok_def\<close>)
  from egress_loop_tenant [OF e this] assms(2) show ?thesis by (simp add: spec_ports_ok_def p)
qed

subsection \<open>Recompilation\<close>

definition cost_at :: "(string, StoredPolicy) fmap \<Rightarrow> string \<Rightarrow> nat" where
  "cost_at ps k = (case fmlookup ps k of None \<Rightarrow> 0 | Some p \<Rightarrow> spec_cost (sp_Spec p))"

definition policies_in :: "labels set \<Rightarrow> (string, StoredPolicy) fmap \<Rightarrow> bool" where
  "policies_in X ps \<longleftrightarrow> (\<forall>k p. fmlookup ps k = Some p \<longrightarrow> spec_selectors (sp_Spec p) \<subseteq> X)"

definition valid_env :: "(string, StoredPolicy) fmap \<Rightarrow> compile_env \<Rightarrow> bool" where
  "valid_env ps env \<longleftrightarrow> range_order ps (ce_order env) \<and> (\<forall>i. valid_orders (ce_orders env i))"

lemma compile_all_total:
  assumes "compiler_ok H X n c" and "\<forall>i. valid_orders (ce_orders env i)" and "policies_in X ps"
    and "n + sum_list (map (cost_at ps) ks) + 1 < 2 ^ 32"
  shows "\<exists>d out. compile_all H env ps c ks acc = (d, Ret out) \<and>
    compiler_ok H X (n + sum_list (map (cost_at ps) ks)) d"
  using assms(1,4)
proof (induction ks arbitrary: c n acc)
  case (Cons k ks)
  show ?case
  proof (cases "fmlookup ps k")
    case None
    then show ?thesis using Cons by (simp add: cost_at_def)
  next
    case (Some p)
    have cost: "cost_at ps k = spec_cost (sp_Spec p)" by (simp add: cost_at_def Some)
    have sel: "spec_selectors (sp_Spec p) \<subseteq> X" using assms(3) Some unfolding policies_in_def by blast
    have le: "n + spec_cost (sp_Spec p) + 1 < 2 ^ 32" using Cons.prems(2) cost by simp
    have ord: "valid_orders (ce_orders env (length ks))" using assms(2) by blast
    obtain d q where d: "CompilePolicy H (ce_now env) (ce_nanos env) (ce_orders env (length ks)) c
        (sp_Name p) (sp_Namespace p) (sp_Spec p) = (d, Ret q)" "compiler_ok H X (n + spec_cost (sp_Spec p)) d"
      by (rule CompilePolicy_total [OF Cons.prems(1) ord sel le])
    show ?thesis using Cons.IH [OF d(2), of "acc @ [Some q]"] Cons.prems(2) Some d(1) cost by (simp add: add.assoc)
  qed
qed simp

lemma compile_all_tenant:
  "compile_all H env ps c ks acc = (d, Ret out) \<Longrightarrow>
     \<forall>k p. fmlookup ps k = Some p \<longrightarrow> spec_ports_ok (sp_Spec p) \<Longrightarrow>
     \<exists>new. out = acc @ new \<and> (\<forall>q. Some q \<in> set new \<longrightarrow> (\<forall>r \<in> set (cpol_Rules q). tenant_ok r))"
proof (induction ks arbitrary: c acc)
  case (Cons k ks)
  show ?case
  proof (cases "fmlookup ps k")
    case None
    then show ?thesis using Cons by simp
  next
    case (Some p)
    then obtain c1 q where q: "CompilePolicy H (ce_now env) (ce_nanos env) (ce_orders env (length ks)) c
        (sp_Name p) (sp_Namespace p) (sp_Spec p) = (c1, Ret q)"
      "compile_all H env ps c1 ks (acc @ [Some q]) = (d, Ret out)"
      using Cons.prems(1) by (auto split: prod.splits outcome.splits)
    from Cons.IH [OF q(2) Cons.prems(2)] obtain new where
      new: "out = acc @ [Some q] @ new" "\<forall>q. Some q \<in> set new \<longrightarrow> (\<forall>r \<in> set (cpol_Rules q). tenant_ok r)" by auto
    have "\<forall>r \<in> set (cpol_Rules q). tenant_ok r" using CompilePolicy_tenant [OF q(1)] Cons.prems(2) Some by blast
    with new show ?thesis by (intro exI [of _ "Some q # new"]) auto
  qed
qed simp

subsection \<open>Properties\<close>

definition ex_env :: compile_env where
  "ex_env = \<lparr>ce_now = 5, ce_nanos = 5, ce_order = [''ns/pol''], ce_orders = (\<lambda>_. ex_orders)\<rparr>"

definition ex_store :: PolicyStore where
  "ex_store = NewPolicyStore ex_compiler (Some (SetMonitoringPort NewPlatformRules 90))"

lemma ex_orders_valid: "valid_orders ex_orders"
  by (simp add: valid_orders_def ex_orders_def valid_ord_sorted)

text \<open>C21. Adding a policy always succeeds in a state the operations reach (fewer than 2^32
  identities handed out, no digest collision on the selectors in use), for every iteration order:
  the policy reads back, every other policy is kept, the version goes up by one, a compiled
  policy is there, the registered callback is started once, and the compiler is again in a
  state that satisfies the invariant. Removing a policy that is not stored is an error and
  changes nothing.\<close>

theorem AddPolicy_succeeds:
  assumes "compiler_ok H X n (ps_compiler s)" and "policies_in X (ps_policies s)" and "spec_selectors spec \<subseteq> X"
    and "valid_env (ps_policies t) env"
    and "t = s\<lparr>ps_policies := fmupd (store_key ns nm)
           \<lparr>sp_Name = nm, sp_Namespace = ns, sp_Spec = spec, sp_AddedAt = now\<rparr> (ps_policies s)\<rparr>"
    and "n + sum_list (map (cost_at (ps_policies t)) (ce_order env)) + 1 < 2 ^ 32"
    and "0 \<le> ps_version s" and "ps_version s < 2 ^ 62"
  shows "\<exists>s'. AddPolicy H now env s nm ns spec = (s', Ret ()) \<and>
    GetPolicy s' nm ns = Some \<lparr>sp_Name = nm, sp_Namespace = ns, sp_Spec = spec, sp_AddedAt = now\<rparr> \<and>
    (\<forall>k. k \<noteq> store_key ns nm \<longrightarrow> fmlookup (ps_policies s') k = fmlookup (ps_policies s) k) \<and>
    GetVersion s' = GetVersion s + 1 \<and> GetCompiledPolicy s' \<noteq> None \<and>
    ps_started s' = (if ps_onChange s then ps_started s + 1 else ps_started s) \<and>
    (\<exists>m. compiler_ok H X m (ps_compiler s')) \<and> policies_in X (ps_policies s') \<and>
    (GetPolicy s nm' ns' = None \<longrightarrow>
       RemovePolicy H env s nm' ns' = (s, Err (''policy '' @ store_key ns' nm' @ '' not found'')))"
proof -
  have pol: "policies_in X (ps_policies t)" using assms(2,3) by (auto simp: policies_in_def assms(5))
  have env: "\<forall>i. valid_orders (ce_orders env i)" using assms(4) by (simp add: valid_env_def)
  have ok: "compiler_ok H X n (ps_compiler t)" using assms(1) by (simp add: assms(5))
  obtain c out where c: "compile_all H env (ps_policies t) (ps_compiler t) (ce_order env)
      (case ps_platform t of None \<Rightarrow> [] | Some p \<Rightarrow>
        [Some \<lparr>cpol_Rules = GenerateRules p, cpol_CompiledAt = ce_now env, cpol_Version = ce_nanos env\<rparr>]) = (c, Ret out)"
    "compiler_ok H X (n + sum_list (map (cost_at (ps_policies t)) (ce_order env))) c"
    using compile_all_total [OF ok env pol assms(6)] by blast
  have "wrap64 (ps_version s + 1) = ps_version s + 1" using assms(7,8) by (intro wrap64_id) auto
  moreover have "AddPolicy H now env s nm ns spec = Recompile H env t" by (simp add: AddPolicy_def assms(5))
  ultimately have "AddPolicy H now env s nm ns spec =
      (t\<lparr>ps_compiler := c, ps_compiled := Some (MergeAndPrioritize (ce_now env) (ce_nanos env) out),
         ps_version := ps_version s + 1,
         ps_started := (if ps_onChange s then ps_started s + 1 else ps_started s)\<rparr>, Ret ())"
    using c(1) by (simp add: Recompile_def Let_def assms(5))
  then show ?thesis
    using c(2) pol by (auto simp: GetPolicy_def GetVersion_def GetCompiledPolicy_def RemovePolicy_def assms(5))
qed

theorem AddPolicy_succeeds_witness:
  "\<exists>s'. AddPolicy ex_H 3 ex_env ex_store ''pol'' ''ns'' ex_spec = (s', Ret ()) \<and> GetVersion s' = 2 \<and>
     GetPolicy s' ''pol'' ''ns'' =
       Some \<lparr>sp_Name = ''pol'', sp_Namespace = ''ns'', sp_Spec = ex_spec, sp_AddedAt = 3\<rparr>"
proof -
  let ?X = "{ex_web, ex_db}"
  define t where "t = ex_store\<lparr>ps_policies := fmupd (store_key ''ns'' ''pol'')
           \<lparr>sp_Name = ''pol'', sp_Namespace = ''ns'', sp_Spec = ex_spec, sp_AddedAt = 3\<rparr> (ps_policies ex_store)\<rparr>"
  have "compiler_ok ex_H ?X 2 (ps_compiler ex_store)"
    using ex_compiler_ok by (simp add: ex_store_def NewPolicyStore_def)
  moreover have "policies_in ?X (ps_policies ex_store)" by (simp add: policies_in_def ex_store_def NewPolicyStore_def)
  moreover have "spec_selectors ex_spec \<subseteq> ?X" by (simp add: spec_selectors_def ex_spec_def)
  moreover have "range_order (ps_policies t) (ce_order ex_env)" unfolding t_def range_order_def by code_simp
  then have "valid_env (ps_policies t) ex_env"
    by (simp add: valid_env_def ex_env_def ex_orders_valid)
  moreover have "2 + sum_list (map (cost_at (ps_policies t)) (ce_order ex_env)) + 1 < 2 ^ 32"
    by (simp add: t_def ex_env_def cost_at_def store_key_def spec_cost_def ex_spec_def)
  moreover have "0 \<le> ps_version ex_store" "ps_version ex_store < 2 ^ 62" "GetVersion ex_store = 1"
    by (simp_all add: ex_store_def NewPolicyStore_def GetVersion_def)
  ultimately show ?thesis
    using AddPolicy_succeeds [of ex_H ?X 2 ex_store ex_spec t ex_env "''ns''" "''pol''" 3, OF _ _ _ _ t_def]
    by fastforce
qed

text \<open>C22. Tenants cannot override the platform: after a successful recompilation, the rule kept for
  the flow of each platform rule (DNS over UDP and TCP, monitoring) is a platform rule that
  allows it, whatever network policies are stored (ports not negative).\<close>

theorem platform_rules_win:
  assumes "Recompile H env s = (s', Ret ())" and "ps_platform s = Some p" and "0 \<le> plat_monitoringPort p"
    and "\<forall>k q. fmlookup (ps_policies s) k = Some q \<longrightarrow> spec_ports_ok (sp_Spec q)"
    and "r \<in> set (GenerateRules p)"
  shows "\<exists>cp. GetCompiledPolicy s' = Some cp \<and>
    (\<exists>r' \<in> set (cpol_Rules cp). flow_key r' = flow_key r \<and> pr_Verdict r' = VerdictAllow \<and>
       r' \<in> set (GenerateRules p)) \<and> distinct (map flow_key (cpol_Rules cp))"
proof -
  let ?plat = "Some \<lparr>cpol_Rules = GenerateRules p, cpol_CompiledAt = ce_now env, cpol_Version = ce_nanos env\<rparr>"
  from assms(1,2) obtain c out where
    out: "compile_all H env (ps_policies s) (ps_compiler s) (ce_order env) [?plat] = (c, Ret out)" and
    cp: "GetCompiledPolicy s' = Some (MergeAndPrioritize (ce_now env) (ce_nanos env) out)"
    by (auto simp: Recompile_def GetCompiledPolicy_def split: prod.splits outcome.splits)
  from compile_all_tenant [OF out assms(4)] obtain new where
    new: "out = ?plat # new" "\<forall>q. Some q \<in> set new \<longrightarrow> (\<forall>r \<in> set (cpol_Rules q). tenant_ok r)" by auto
  have plat: "pr_Tier x = TierPlatformMandated \<and> pr_Verdict x = VerdictAllow \<and> 0 \<le> pr_Port x"
    if "x \<in> set (GenerateRules p)" for x
    using that assms(3) by (auto simp: GenerateRules_def platform_rule_def)
  have in_out: "x \<in> set (GenerateRules p) \<or> tenant_ok x" if "x \<in> merged_rules out" for x
    using that new by (auto simp: merged_rules_def)
  then have "\<forall>x \<in> merged_rules out. 0 \<le> pr_Port x" using plat by (auto simp: tenant_ok_def)
  note best = MergeAndPrioritize_best [OF this, of "ce_now env" "ce_nanos env"]
  have "r \<in> merged_rules out" using assms(5) by (auto simp: merged_rules_def new(1))
  with best obtain r' where
    r': "r' \<in> set (cpol_Rules (MergeAndPrioritize (ce_now env) (ce_nanos env) out))" "flow_key r' = flow_key r"
      "\<not> rule_less r r'" "r' \<in> merged_rules out" by blast
  have "pr_Tier r' \<noteq> TierTenant"
    using r'(3) plat [OF assms(5)] by (auto simp: rule_less_def TierTenant_def TierPlatformMandated_def split: if_splits)
  then have "r' \<in> set (GenerateRules p)" using in_out [OF r'(4)] by (auto simp: tenant_ok_def)
  then show ?thesis using cp r' plat best by blast
qed

theorem platform_rules_win_witness:
  "\<exists>s' cp. Recompile ex_H ex_env ex_store = (s', Ret ()) \<and> GetCompiledPolicy s' = Some cp \<and>
     (\<exists>r' \<in> set (cpol_Rules cp). flow_key r' = (0, 0, ''UDP'', 53) \<and> pr_Verdict r' = VerdictAllow)"
proof -
  let ?p = "SetMonitoringPort NewPlatformRules 90"
  obtain s' where s': "Recompile ex_H ex_env ex_store = (s', Ret ())"
  proof
    show "Recompile ex_H ex_env ex_store = (fst (Recompile ex_H ex_env ex_store), Ret ())" by code_simp
  qed
  have "ps_platform ex_store = Some ?p" "0 \<le> plat_monitoringPort ?p"
    "\<forall>k q. fmlookup (ps_policies ex_store) k = Some q \<longrightarrow> spec_ports_ok (sp_Spec q)"
    "platform_rule ''UDP'' 53 ''platform-dns-udp'' \<in> set (GenerateRules ?p)"
    by (simp_all add: ex_store_def NewPolicyStore_def SetMonitoringPort_def GenerateRules_def)
  from platform_rules_win [OF s' this] show ?thesis
    using s' by (auto simp: flow_key_def platform_rule_def)
qed

end
