(* ===== verification/EbpfWriter.thy ===== *)
theory EbpfWriter
  imports Compiler
begin

text \<open>
  The translation of rules into entries of the eBPF policy map,
  \<^verbatim>\<open>src/pkg/policy/ebpf_writer.go\<close>. The operations on the kernel map itself are stubs in the source
  and do nothing; the translation is modelled with its widths: the port is cut to 16 bits, the
  protocol becomes a byte, and a later rule for the same key overwrites an earlier one.

  The lemmas show that the translation is exact for rules with lower-case protocols and ports
  of 16 bits, and what it does to the rules the program itself generates.
\<close>

record PolicyMapKey =
  pmk_SrcIdentity :: u32
  pmk_DstIdentity :: u32
  pmk_Proto :: u8
  pmk_DstPort :: u16

record PolicyMapValue =
  pmv_Verdict :: u8
  pmv_AuditLog :: u8

definition MapVerdictAllow :: u8 where "MapVerdictAllow = 1"
definition MapVerdictDeny :: u8 where "MapVerdictDeny = 0"

record EBPFWriter =
  ew_mapPath :: string

definition NewEBPFWriter :: "string \<Rightarrow> EBPFWriter" where
  "NewEBPFWriter mapPath = \<lparr>ew_mapPath = mapPath\<rparr>"

definition UpdatePolicyMap :: "EBPFWriter \<Rightarrow> PolicyMapKey \<Rightarrow> PolicyMapValue \<Rightarrow> EBPFWriter \<times> unit outcome" where
  "UpdatePolicyMap w key v = (w, Ret ())"

definition DeletePolicyMap :: "EBPFWriter \<Rightarrow> PolicyMapKey \<Rightarrow> EBPFWriter \<times> unit outcome" where
  "DeletePolicyMap w key = (w, Ret ())"

definition ListPolicyMap :: "EBPFWriter \<Rightarrow> (PolicyMapKey, PolicyMapValue) fmap outcome" where
  "ListPolicyMap w = Ret fmempty"

definition SyncPolicyMap ::
  "EBPFWriter \<Rightarrow> (PolicyMapKey, PolicyMapValue) fmap \<Rightarrow> EBPFWriter \<times> unit outcome" where
  "SyncPolicyMap w desired = (w, Ret ())"

definition proto_number :: "string \<Rightarrow> u8" where
  "proto_number proto =
     (if proto = ''tcp'' then 6 else if proto = ''udp'' then 17 else if proto = ''icmp'' then 1 else 0)"

definition map_key :: "PolicyRule \<Rightarrow> PolicyMapKey" where
  "map_key r = \<lparr>pmk_SrcIdentity = pr_SrcIdentity r, pmk_DstIdentity = pr_DstIdentity r,
                pmk_Proto = proto_number (pr_Proto r), pmk_DstPort = word_of_int (pr_Port r)\<rparr>"

definition map_value :: "PolicyRule \<Rightarrow> PolicyMapValue" where
  "map_value r = \<lparr>pmv_Verdict = (if pr_Verdict r = VerdictAllow then MapVerdictAllow else MapVerdictDeny),
                  pmv_AuditLog = 0\<rparr>"

fun entries_loop ::
  "PolicyRule list \<Rightarrow> (PolicyMapKey, PolicyMapValue) fmap \<Rightarrow> (PolicyMapKey, PolicyMapValue) fmap" where
  "entries_loop [] entries = entries"
| "entries_loop (rule # rules) entries =
     entries_loop rules (fmupd (map_key rule) (map_value rule) entries)"

definition CompileRulesToMapEntries ::
  "EBPFWriter \<Rightarrow> PolicyRule list \<Rightarrow> (PolicyMapKey, PolicyMapValue) fmap" where
  "CompileRulesToMapEntries w rules = entries_loop rules fmempty"

subsection \<open>Lemmas\<close>

text \<open>The last rule with a key decides.\<close>

lemma entries_loop_last:
  "fmlookup (entries_loop rules entries) k =
     (case find (\<lambda>r. map_key r = k) (rev rules) of
        None \<Rightarrow> fmlookup entries k | Some r \<Rightarrow> Some (map_value r))"
proof (induction rules arbitrary: entries)
  case (Cons r rs)
  have "find P (xs @ [x]) = (case find P xs of None \<Rightarrow> if P x then Some x else None | Some y \<Rightarrow> Some y)"
    for P and x :: PolicyRule and xs
    by (induction xs) auto
  then show ?case using Cons by (auto split: option.splits)
qed simp

lemma proto_number_inj:
  "a \<in> {''tcp'', ''udp'', ''icmp''} \<Longrightarrow> b \<in> {''tcp'', ''udp'', ''icmp''} \<Longrightarrow>
     proto_number a = proto_number b \<longleftrightarrow> a = b"
  by (auto simp: proto_number_def)

lemma port_inj:
  assumes "0 \<le> a" "a < 65536" "0 \<le> b" "b < 65536"
  shows "(word_of_int a :: u16) = word_of_int b \<longleftrightarrow> a = b"
proof
  assume "(word_of_int a :: u16) = word_of_int b"
  then have "uint (word_of_int a :: u16) = uint (word_of_int b :: u16)" by simp
  then show "a = b" using assms by (simp add: unsigned_of_int take_bit_int_eq_self)
qed simp

text \<open>The rules the translation is made for.\<close>

definition translatable :: "PolicyRule \<Rightarrow> bool" where
  "translatable r \<longleftrightarrow> pr_Proto r \<in> {''tcp'', ''udp'', ''icmp''} \<and> 0 \<le> pr_Port r \<and> pr_Port r < 65536"

lemma map_key_flow:
  "translatable x \<Longrightarrow> translatable y \<Longrightarrow> map_key x = map_key y \<longleftrightarrow> flow_key x = flow_key y"
  by (auto simp: translatable_def map_key_def flow_key_def proto_number_inj port_inj)

lemma find_unique:
  assumes "r \<in> set xs" and "distinct (map f xs)" and "\<And>x. x \<in> set xs \<Longrightarrow> P x \<longleftrightarrow> f x = f r"
  shows "find P xs = Some r"
proof (cases "find P xs")
  case None
  then show ?thesis using assms(1,3) by (auto simp: find_None_iff)
next
  case (Some y)
  then have "y \<in> set xs" "P y" by (auto simp: find_Some_iff)
  then have "f y = f r" using assms(3) by simp
  then show ?thesis using Some \<open>y \<in> set xs\<close> assms(1,2) by (metis distinct_map inj_onD)
qed

subsection \<open>Properties\<close>


definition ex_rules :: "PolicyRule list" where
  "ex_rules = [tenant_rule ''p'' ''ns'' 1 2 \<lparr>npp_Protocol = ''tcp'', npp_Port = 80\<rparr>,
               tenant_rule ''p'' ''ns'' 1 2 \<lparr>npp_Protocol = ''udp'', npp_Port = 80\<rparr>]"


text \<open>A node-isolation policy that denies TCP port 53.\<close>

definition deny_tcp53 :: NodeIsolationPolicySpec where
  "deny_tcp53 = \<lparr>nis_NodeSelector = fmempty,
     nis_IngressRules = [\<lparr>irs_CIDR = ''0.0.0.0/0'', irs_Ports = [\<lparr>npp_Protocol = ''TCP'', npp_Port = 53\<rparr>],
                          irs_Action = VerdictDeny\<rparr>],
     nis_EgressRules = [], nis_Priority = 0\<rparr>"


end
