(* ===== verification/Encryption.thy ===== *)
theory Encryption
  imports Prelude
begin

text \<open>
  The WireGuard manager (\<^verbatim>\<open>pkg/encryption/wireguard.go\<close>): key pair, peers by node name and the
  encryption scope. A nil \<^verbatim>\<open>*Peer\<close> or \<^verbatim>\<open>*KeyPair\<close> is \<open>None\<close>; reading a field of it panics. The
  methods that would program the kernel are stubs in the source and are modelled as such.
\<close>

subsection \<open>Data\<close>

record WireGuardConfig =
  wc_InterfaceName :: string
  wc_ListenPort :: int
  wc_PrivateKeyPath :: string
  wc_MTU :: int

record Peer =
  pe_PublicKey :: string
  pe_Endpoint :: string
  pe_AllowedIPs :: "string list"
  pe_NodeName :: string
  pe_LastHandshake :: gotime

record KeyPair =
  kp_PrivateKey :: string
  kp_PublicKey :: string
  kp_GeneratedAt :: gotime

type_synonym EncryptionScope = string

definition ScopeClusterWide :: EncryptionScope where "ScopeClusterWide = ''ClusterWide''"
definition ScopePerNamespace :: EncryptionScope where "ScopePerNamespace = ''PerNamespace''"
definition ScopeDisabled :: EncryptionScope where "ScopeDisabled = ''Disabled''"

record Manager =
  wg_config :: WireGuardConfig
  wg_keyPair :: "KeyPair option"
  wg_peers :: "(string, Peer) fmap"
  wg_scope :: EncryptionScope

subsection \<open>Operations\<close>

definition NewManager :: "WireGuardConfig \<Rightarrow> Manager" where
  "NewManager config =
     (let c1 = if wc_InterfaceName config = [] then config\<lparr>wc_InterfaceName := ''wg0''\<rparr> else config;
          c2 = if wc_ListenPort c1 = 0 then c1\<lparr>wc_ListenPort := 51820\<rparr> else c1
      in \<lparr>wg_config = c2, wg_keyPair = None, wg_peers = fmempty, wg_scope = ScopeDisabled\<rparr>)"

definition GenerateKeyPair :: "gotime \<Rightarrow> KeyPair outcome" where
  "GenerateKeyPair now = Ret \<lparr>kp_PrivateKey = ''stub-private-key'', kp_PublicKey = ''stub-public-key'', kp_GeneratedAt = now\<rparr>"

definition SetKeyPair :: "Manager \<Rightarrow> KeyPair option \<Rightarrow> Manager" where
  "SetKeyPair m kp = m\<lparr>wg_keyPair := kp\<rparr>"

definition GetPublicKey :: "Manager \<Rightarrow> string" where
  "GetPublicKey m = (case wg_keyPair m of None \<Rightarrow> [] | Some kp \<Rightarrow> kp_PublicKey kp)"

definition AddPeer :: "Manager \<Rightarrow> Peer option \<Rightarrow> Manager \<times> unit outcome" where
  "AddPeer m p = (case p of
     None \<Rightarrow> (m, Panic nil_panic)
   | Some peer \<Rightarrow> (m\<lparr>wg_peers := fmupd (pe_NodeName peer) peer (wg_peers m)\<rparr>, Ret ()))"

definition RemovePeer :: "Manager \<Rightarrow> string \<Rightarrow> Manager \<times> unit outcome" where
  "RemovePeer m nodeName = (m\<lparr>wg_peers := fmdrop nodeName (wg_peers m)\<rparr>, Ret ())"

fun ProvisionAllPeers :: "Manager \<Rightarrow> Peer option list \<Rightarrow> Manager \<times> unit outcome" where
  "ProvisionAllPeers m [] = (m, Ret ())"
| "ProvisionAllPeers m (None # ps) = (m, Panic nil_panic)"
| "ProvisionAllPeers m (Some p # ps) =
     ProvisionAllPeers (m\<lparr>wg_peers := fmupd (pe_NodeName p) p (wg_peers m)\<rparr>) ps"

definition SetScope :: "Manager \<Rightarrow> EncryptionScope \<Rightarrow> Manager" where
  "SetScope m scope = m\<lparr>wg_scope := scope\<rparr>"

definition GetScope :: "Manager \<Rightarrow> EncryptionScope" where
  "GetScope m = wg_scope m"

definition IsEnabled :: "Manager \<Rightarrow> bool" where
  "IsEnabled m \<longleftrightarrow> wg_scope m \<noteq> ScopeDisabled"

definition RotateKeys :: "gotime \<Rightarrow> Manager \<Rightarrow> Manager \<times> KeyPair outcome" where
  "RotateKeys now m = (case GenerateKeyPair now of
     Err e \<Rightarrow> (m, Err e) | Panic e \<Rightarrow> (m, Panic e) | Ret kp \<Rightarrow> (m, Ret kp))"

definition wg_GetPeerStatus :: "Manager \<Rightarrow> (string, Peer) fmap" where
  "wg_GetPeerStatus m = wg_peers m"

definition InterfaceExists :: "Manager \<Rightarrow> bool" where
  "InterfaceExists m = False"

definition EnsureInterface :: "Manager \<Rightarrow> unit outcome" where
  "EnsureInterface m = Ret ()"

subsection \<open>Lemmas\<close>

text \<open>The last peer of a list that has a given node name.\<close>

fun last_named :: "string \<Rightarrow> Peer option list \<Rightarrow> Peer option" where
  "last_named nm [] = None"
| "last_named nm (None # ps) = last_named nm ps"
| "last_named nm (Some p # ps) =
     (case last_named nm ps of Some q \<Rightarrow> Some q | None \<Rightarrow> if pe_NodeName p = nm then Some p else None)"

text \<open>Bulk provisioning of non-nil peers: each node ends up with its last entry of the list, nodes
  that are not in the list keep theirs, and everything but the peers is unchanged. It is the
  same as adding the peers one by one.\<close>

lemma ProvisionAllPeers_lookup:
  assumes "None \<notin> set ps"
  shows "snd (ProvisionAllPeers m ps) = Ret ()"
    and "fmlookup (wg_GetPeerStatus (fst (ProvisionAllPeers m ps))) nm =
         (case last_named nm ps of Some p \<Rightarrow> Some p | None \<Rightarrow> fmlookup (wg_GetPeerStatus m) nm)"
    and "fst (ProvisionAllPeers m ps) = foldl (\<lambda>m p. fst (AddPeer m p)) m ps"
proof -
  have "snd (ProvisionAllPeers m ps) = Ret () \<and>
      fmlookup (wg_GetPeerStatus (fst (ProvisionAllPeers m ps))) nm =
         (case last_named nm ps of Some p \<Rightarrow> Some p | None \<Rightarrow> fmlookup (wg_GetPeerStatus m) nm) \<and>
      fst (ProvisionAllPeers m ps) = foldl (\<lambda>m p. fst (AddPeer m p)) m ps"
    using assms
    by (induction m ps rule: ProvisionAllPeers.induct)
       (auto simp: wg_GetPeerStatus_def AddPeer_def split: option.splits)
  then show "snd (ProvisionAllPeers m ps) = Ret ()"
    "fmlookup (wg_GetPeerStatus (fst (ProvisionAllPeers m ps))) nm =
         (case last_named nm ps of Some p \<Rightarrow> Some p | None \<Rightarrow> fmlookup (wg_GetPeerStatus m) nm)"
    "fst (ProvisionAllPeers m ps) = foldl (\<lambda>m p. fst (AddPeer m p)) m ps"
    by blast+
qed

text \<open>Rotation installs nothing: the key a peer would be given stays the old one, and any number of
  rotations produces the same public key.\<close>

lemma RotateKeys_installs_nothing:
  "GetPublicKey (fst (RotateKeys now m)) = GetPublicKey m"
  "map_option kp_PublicKey (returned (snd (RotateKeys now m))) = map_option kp_PublicKey (returned (snd (RotateKeys later m)))"
  by (simp_all add: RotateKeys_def GenerateKeyPair_def GetPublicKey_def)

lemma NewManager_disabled: "\<not> IsEnabled (NewManager c)" "wc_ListenPort (wg_config (NewManager c)) \<noteq> 0"
  by (simp_all add: NewManager_def IsEnabled_def Let_def)

end
