(* ===== verification/HostPolicy.thy ===== *)
theory HostPolicy
  imports Prelude
begin

text \<open>
  Host isolation rules (\<^verbatim>\<open>pkg/nodeisolation/host_policy.go\<close>). The \<^verbatim>\<open>PolicyEnforcer\<close> that would
  program a rule has no implementation in the repository: it is an argument of the definition
  that calls it, a function from its state and a rule to its new state and an outcome.
\<close>

subsection \<open>Data\<close>

type_synonym Direction = string

definition DirectionIngress :: Direction where "DirectionIngress = ''Ingress''"
definition DirectionEgress :: Direction where "DirectionEgress = ''Egress''"

record PortRule =
  hpr_Protocol :: string
  hpr_Port :: int

record IsolationRule =
  ir_Direction :: Direction
  ir_CIDR :: string
  ir_Ports :: "PortRule list"
  ir_Action :: string
  ir_Description :: string

record HostPolicy =
  hp_rules :: "IsolationRule list"
  hp_defaultAction :: string

subsection \<open>Operations\<close>

definition NewHostPolicy :: "string \<Rightarrow> HostPolicy" where
  "NewHostPolicy defaultAction =
     \<lparr>hp_rules = [], hp_defaultAction = (if defaultAction = [] then ''Deny'' else defaultAction)\<rparr>"

definition DefaultPodToHostRules :: "IsolationRule list" where
  "DefaultPodToHostRules =
     [\<lparr>ir_Direction = DirectionIngress, ir_CIDR = [],
       ir_Ports = [\<lparr>hpr_Protocol = ''TCP'', hpr_Port = 10250\<rparr>],
       ir_Action = ''Allow'', ir_Description = ''Allow kubelet health checks''\<rparr>,
      \<lparr>ir_Direction = DirectionIngress, ir_CIDR = [],
       ir_Ports = [\<lparr>hpr_Protocol = ''TCP'', hpr_Port = 9100\<rparr>],
       ir_Action = ''Allow'', ir_Description = ''Allow node-exporter scrape''\<rparr>,
      \<lparr>ir_Direction = DirectionEgress, ir_CIDR = [],
       ir_Ports = [\<lparr>hpr_Protocol = ''UDP'', hpr_Port = 53\<rparr>, \<lparr>hpr_Protocol = ''TCP'', hpr_Port = 53\<rparr>],
       ir_Action = ''Allow'', ir_Description = ''Allow DNS''\<rparr>,
      \<lparr>ir_Direction = DirectionIngress, ir_CIDR = [], ir_Ports = [],
       ir_Action = ''Deny'', ir_Description = ''Deny all other pod-to-host traffic''\<rparr>,
      \<lparr>ir_Direction = DirectionEgress, ir_CIDR = [], ir_Ports = [],
       ir_Action = ''Deny'', ir_Description = ''Deny all other pod-to-host traffic''\<rparr>]"

definition DefaultNodeToNodeRules :: "string \<Rightarrow> int \<Rightarrow> IsolationRule list" where
  "DefaultNodeToNodeRules apiServerCIDR apiServerPort =
     [\<lparr>ir_Direction = DirectionEgress, ir_CIDR = apiServerCIDR,
       ir_Ports = [\<lparr>hpr_Protocol = ''TCP'', hpr_Port = apiServerPort\<rparr>],
       ir_Action = ''Allow'', ir_Description = ''Allow egress to K8s API server''\<rparr>,
      \<lparr>ir_Direction = DirectionEgress, ir_CIDR = [],
       ir_Ports = [\<lparr>hpr_Protocol = ''UDP'', hpr_Port = 51820\<rparr>],
       ir_Action = ''Allow'', ir_Description = ''Allow egress to WireGuard peers''\<rparr>,
      \<lparr>ir_Direction = DirectionEgress, ir_CIDR = [], ir_Ports = [],
       ir_Action = ''Deny'', ir_Description = ''Deny all other node-to-node egress''\<rparr>]"

definition AddRule :: "HostPolicy \<Rightarrow> IsolationRule \<Rightarrow> HostPolicy" where
  "AddRule hp rule = hp\<lparr>hp_rules := hp_rules hp @ [rule]\<rparr>"

definition RemoveRule :: "HostPolicy \<Rightarrow> int \<Rightarrow> HostPolicy \<times> unit outcome" where
  "RemoveRule hp index =
     (if index < 0 \<or> int (length (hp_rules hp)) \<le> index then (hp, Err ''index out of bounds'')
      else (hp\<lparr>hp_rules := take (nat index) (hp_rules hp) @ drop (nat index + 1) (hp_rules hp)\<rparr>, Ret ()))"

definition GetRules :: "HostPolicy \<Rightarrow> IsolationRule list" where
  "GetRules hp = hp_rules hp"

fun validate_loop :: "IsolationRule list \<Rightarrow> unit outcome" where
  "validate_loop [] = Ret ()"
| "validate_loop (rule # rs) =
     (if ir_Direction rule \<noteq> DirectionIngress \<and> ir_Direction rule \<noteq> DirectionEgress
      then Err (''invalid direction in rule: '' @ ir_Direction rule)
      else if ir_Action rule \<noteq> ''Allow'' \<and> ir_Action rule \<noteq> ''Deny''
      then Err (''invalid action in rule: '' @ ir_Action rule)
      else validate_loop rs)"

definition Validate :: "HostPolicy \<Rightarrow> unit outcome" where
  "Validate hp = validate_loop (hp_rules hp)"

fun apply_loop :: "('e \<Rightarrow> IsolationRule \<Rightarrow> 'e \<times> unit outcome) \<Rightarrow> 'e \<Rightarrow> IsolationRule list \<Rightarrow> 'e \<times> unit outcome" where
  "apply_loop enforce e [] = (e, Ret ())"
| "apply_loop enforce e (rule # rs) = (case enforce e rule of
     (e', Ret _) \<Rightarrow> apply_loop enforce e' rs
   | (e', Err m) \<Rightarrow> (e', Err m)
   | (e', Panic m) \<Rightarrow> (e', Panic m))"

definition ApplyToDataPlane ::
  "('e \<Rightarrow> IsolationRule \<Rightarrow> 'e \<times> unit outcome) \<Rightarrow> HostPolicy \<Rightarrow> 'e \<Rightarrow> 'e \<times> unit outcome" where
  "ApplyToDataPlane enforce hp e = apply_loop enforce e (hp_rules hp)"

subsection \<open>What a validated rule is\<close>

text \<open>The source keeps directions and actions as strings. Their intended types, with the printing of
  each value, say what validation establishes.\<close>

datatype direction = Ingress | Egress
datatype action = AllowAction | DenyAction

fun direction_text :: "direction \<Rightarrow> Direction" where
  "direction_text Ingress = DirectionIngress"
| "direction_text Egress = DirectionEgress"

fun action_text :: "action \<Rightarrow> string" where
  "action_text AllowAction = ''Allow''"
| "action_text DenyAction = ''Deny''"

definition typed_rule :: "IsolationRule \<Rightarrow> bool" where
  "typed_rule r \<longleftrightarrow> (\<exists>d a. ir_Direction r = direction_text d \<and> ir_Action r = action_text a)"

lemma typed_rule_iff:
  "typed_rule r \<longleftrightarrow> (ir_Direction r = DirectionIngress \<or> ir_Direction r = DirectionEgress) \<and>
     (ir_Action r = ''Allow'' \<or> ir_Action r = ''Deny'')"
proof -
  have "(\<exists>d. x = direction_text d) \<longleftrightarrow> x = DirectionIngress \<or> x = DirectionEgress" for x
    by (metis direction.exhaust direction_text.simps)
  moreover have "(\<exists>a. x = action_text a) \<longleftrightarrow> x = ''Allow'' \<or> x = ''Deny''" for x
    by (metis action.exhaust action_text.simps)
  ultimately show ?thesis unfolding typed_rule_def by presburger
qed

lemma validate_loop_Ret: "validate_loop rs = Ret () \<longleftrightarrow> (\<forall>r \<in> set rs. typed_rule r)"
  by (induction rs rule: validate_loop.induct) (auto simp: typed_rule_iff)

lemma validate_loop_cases:
  "(\<exists>e. validate_loop rs = Err e) \<or> validate_loop rs = Ret ()"
  by (induction rs rule: validate_loop.induct) auto

lemma default_rules_typed:
  "\<forall>r \<in> set DefaultPodToHostRules. typed_rule r"
  "\<forall>r \<in> set (DefaultNodeToNodeRules c p). typed_rule r"
  by (simp_all add: DefaultPodToHostRules_def DefaultNodeToNodeRules_def typed_rule_iff)

text \<open>Removal at an index in range deletes exactly that entry.\<close>

lemma RemoveRule_nth:
  assumes "0 \<le> i" "i < int (length (GetRules hp))"
  shows "snd (RemoveRule hp i) = Ret ()"
    and "length (GetRules (fst (RemoveRule hp i))) = length (GetRules hp) - 1"
    and "j < length (GetRules hp) - 1 \<Longrightarrow>
         GetRules (fst (RemoveRule hp i)) ! j = GetRules hp ! (if j < nat i then j else j + 1)"
  using assms by (auto simp: RemoveRule_def GetRules_def nth_append min_def)

lemma RemoveRule_AddRule: "RemoveRule (AddRule hp r) (int (length (GetRules hp))) = (hp, Ret ())"
  by (simp add: RemoveRule_def AddRule_def GetRules_def)

text \<open>Application calls the enforcer on the rules in order and stops at the first failure, without
  undoing what was enforced before.\<close>

lemma apply_loop_append:
  "apply_loop enforce e (xs @ ys) = (case apply_loop enforce e xs of
     (e', Ret _) \<Rightarrow> apply_loop enforce e' ys | r \<Rightarrow> r)"
  by (induction enforce e xs rule: apply_loop.induct) (auto split: prod.splits outcome.splits)

lemma ApplyToDataPlane_stops:
  assumes "hp_rules hp = xs @ r # ys"
    and "apply_loop enforce e xs = (e1, Ret ())" and "enforce e1 r = (e2, Err m)"
  shows "ApplyToDataPlane enforce hp e = (e2, Err m)"
  using assms by (simp add: ApplyToDataPlane_def apply_loop_append)

subsection \<open>Properties\<close>

text \<open>C36. Validation is the typing of the rules: after any number of added rules, it accepts exactly
  when every rule has one of the two directions and one of the two actions, and otherwise it
  returns an error and never panics; a policy made of the two default rule sets is accepted.\<close>

theorem Validate_types:
  "(Validate hp = Ret () \<longleftrightarrow> list_all typed_rule (GetRules hp)) \<and>
   (Validate hp = Ret () \<or> (\<exists>e. Validate hp = Err e)) \<and>
   (Validate (AddRule hp r) = Ret () \<longleftrightarrow> Validate hp = Ret () \<and> typed_rule r) \<and>
   Validate (foldl AddRule (NewHostPolicy act) (DefaultPodToHostRules @ DefaultNodeToNodeRules cidr port)) = Ret ()"
proof -
  have add: "hp_rules (foldl AddRule p rs) = hp_rules p @ rs" for p rs
    by (induction rs arbitrary: p) (simp_all add: AddRule_def)
  have "Validate (foldl AddRule (NewHostPolicy act) (DefaultPodToHostRules @ DefaultNodeToNodeRules cidr port)) = Ret ()"
    unfolding Validate_def add validate_loop_Ret using default_rules_typed
    by (auto simp: NewHostPolicy_def)
  moreover have "Validate (AddRule hp r) = Ret () \<longleftrightarrow> Validate hp = Ret () \<and> typed_rule r"
    by (auto simp: Validate_def AddRule_def validate_loop_Ret)
  moreover have "Validate hp = Ret () \<longleftrightarrow> list_all typed_rule (GetRules hp)"
    by (simp add: Validate_def GetRules_def validate_loop_Ret list_all_iff)
  ultimately show ?thesis using validate_loop_cases [of "hp_rules hp"] by (auto simp: Validate_def)
qed

end
