(* ===== verification/Observability.thy ===== *)
theory Observability
  imports Prelude
begin

text \<open>
  Metrics, tracing and flow export (\<^verbatim>\<open>pkg/observability\<close>). A metrics registry is a record of its
  three constructors, over the types of the metrics it makes; the registry of both daemons makes
  metrics without effect. The in-memory flow exporter is a Go channel with its capacity, its
  buffer and its closed flag; the goroutines that \<^verbatim>\<open>Start\<close> creates to drain it are steps of their
  own, interleaved with the calls in a step relation.
\<close>

subsection \<open>Metrics\<close>

record ('c, 'g, 'h) MetricsRegistry =
  NewCounter :: "string \<Rightarrow> string \<Rightarrow> 'c"
  NewGauge :: "string \<Rightarrow> string \<Rightarrow> 'g"
  NewHistogram :: "string \<Rightarrow> string \<Rightarrow> rat list \<Rightarrow> 'h"

record ('c, 'g, 'h) CNIMetrics =
  PodReadyDuration :: 'h
  PolicyReconcileLag :: 'h
  IPAMBlockUtilization :: 'g
  EBPFMapEntries :: 'g
  ConntrackUtilization :: 'g
  WireGuardHandshakeFailures :: 'c
  BPFMapWriteErrors :: 'c

record ('c, 'g, 'h) Metrics =
  CNI :: "('c, 'g, 'h) CNIMetrics"

definition NewCNIMetrics :: "('c, 'g, 'h) MetricsRegistry \<Rightarrow> ('c, 'g, 'h) CNIMetrics" where
  "NewCNIMetrics registry =
     \<lparr>PodReadyDuration = NewHistogram registry ''cni_pod_ready_duration_seconds''
        ''Duration of pod readiness stages''
        [5/1000, 1/100, 25/1000, 5/100, 1/10, 25/100, 5/10, 1, 25/10, 5, 10],
      PolicyReconcileLag = NewHistogram registry ''cni_policy_reconcile_lag_seconds''
        ''Lag in policy reconciliation'' [1/100, 5/100, 1/10, 5/10, 1, 2, 5, 10],
      IPAMBlockUtilization = NewGauge registry ''cni_ipam_block_utilization_ratio'' ''Utilization ratio of IPAM blocks'',
      EBPFMapEntries = NewGauge registry ''cni_ebpf_map_entries'' ''Number of entries in eBPF maps'',
      ConntrackUtilization = NewGauge registry ''cni_conntrack_utilization_ratio'' ''Utilization ratio of conntrack table'',
      WireGuardHandshakeFailures = NewCounter registry ''cni_wireguard_handshake_failures_total''
        ''Total number of WireGuard handshake failures'',
      BPFMapWriteErrors = NewCounter registry ''cni_agent_bpf_map_write_errors_total''
        ''Total number of eBPF map write errors''\<rparr>"

definition NewMetrics :: "('c, 'g, 'h) MetricsRegistry \<Rightarrow> ('c, 'g, 'h) Metrics" where
  "NewMetrics registry = \<lparr>CNI = NewCNIMetrics registry\<rparr>"

text \<open>The metrics without effect.\<close>

datatype noopCounter = NoopCounter
datatype noopGauge = NoopGauge
datatype noopHistogram = NoopHistogram

type_synonym noopMetrics = "(noopCounter, noopGauge, noopHistogram) CNIMetrics"

definition noop_NewCounter :: "string \<Rightarrow> string \<Rightarrow> noopCounter" where
  "noop_NewCounter name help = NoopCounter"

definition noop_NewGauge :: "string \<Rightarrow> string \<Rightarrow> noopGauge" where
  "noop_NewGauge name help = NoopGauge"

definition noop_NewHistogram :: "string \<Rightarrow> string \<Rightarrow> rat list \<Rightarrow> noopHistogram" where
  "noop_NewHistogram name help buckets = NoopHistogram"

definition NewNoopRegistry :: "(noopCounter, noopGauge, noopHistogram) MetricsRegistry" where
  "NewNoopRegistry = \<lparr>NewCounter = noop_NewCounter, NewGauge = noop_NewGauge, NewHistogram = noop_NewHistogram\<rparr>"

fun gauge_Set :: "noopGauge \<Rightarrow> rat \<Rightarrow> noopGauge" where
  "gauge_Set NoopGauge v = NoopGauge"

fun counter_Inc :: "noopCounter \<Rightarrow> noopCounter" where
  "counter_Inc NoopCounter = NoopCounter"

text \<open>A stage timer observes the seconds since its start in the histogram of its stage; the
  histogram is an argument (\<open>with_labels\<close> selects the stage, \<open>observe\<close> records), times are in
  nanoseconds.\<close>

record ('c, 'g, 'h) StageTimer =
  st_stage :: string
  st_start :: gotime
  st_metrics :: "('c, 'g, 'h) CNIMetrics"

definition NewStageTimer :: "gotime \<Rightarrow> ('c, 'g, 'h) CNIMetrics \<Rightarrow> string \<Rightarrow> ('c, 'g, 'h) StageTimer" where
  "NewStageTimer now metrics stage = \<lparr>st_stage = stage, st_start = now, st_metrics = metrics\<rparr>"

definition Done ::
  "('h \<Rightarrow> string \<Rightarrow> 'h) \<Rightarrow> ('h \<Rightarrow> rat \<Rightarrow> 'h) \<Rightarrow> gotime \<Rightarrow> ('c, 'g, 'h) StageTimer \<Rightarrow> 'h" where
  "Done with_labels observe now s =
     observe (with_labels (PodReadyDuration (st_metrics s)) (st_stage s)) (of_int (now - st_start s) / 10 ^ 9)"

text \<open>A registry refuses a name that is taken: the seven names are pairwise distinct. And the
  buckets of both histograms are strictly increasing, which a registry also asks for.\<close>

lemma metric_names_distinct:
  "let m = NewCNIMetrics \<lparr>NewCounter = (\<lambda>n h. n), NewGauge = (\<lambda>n h. n), NewHistogram = (\<lambda>n h b. (n, b))\<rparr>
   in distinct [fst (PodReadyDuration m), fst (PolicyReconcileLag m), IPAMBlockUtilization m, EBPFMapEntries m,
        ConntrackUtilization m, WireGuardHandshakeFailures m, BPFMapWriteErrors m] \<and>
      sorted_wrt (<) (snd (PodReadyDuration m)) \<and> sorted_wrt (<) (snd (PolicyReconcileLag m))"
  by (simp add: NewCNIMetrics_def)

subsection \<open>Tracing\<close>

record CNITracer =
  tr_serviceName :: string
  tr_enabled :: bool

datatype noopSpan = NoopSpan

record TracedCNIAdd =
  ta_Parent :: noopSpan
  ta_Stages :: "(string, noopSpan) fmap"

definition NewCNITracer :: "string \<Rightarrow> bool \<Rightarrow> CNITracer" where
  "NewCNITracer serviceName enabled = \<lparr>tr_serviceName = serviceName, tr_enabled = enabled\<rparr>"

definition StartSpan :: "CNITracer \<Rightarrow> string \<Rightarrow> noopSpan" where
  "StartSpan t name = NoopSpan"

definition NewTracedCNIAdd :: "noopSpan \<Rightarrow> TracedCNIAdd" where
  "NewTracedCNIAdd parent = \<lparr>ta_Parent = parent, ta_Stages = fmempty\<rparr>"

subsection \<open>Flow export\<close>

record FlowRecord =
  fr_SrcIdentity :: u32
  fr_DstIdentity :: u32
  fr_SrcIP :: string
  fr_DstIP :: string
  fr_Proto :: u8
  fr_DstPort :: u16
  fr_Verdict :: string
  fr_MatchedPolicy :: string
  fr_Timestamp :: gotime

text \<open>A channel of flow records: capacity, buffered values (oldest first), closed.\<close>

record flow_channel =
  ch_cap :: nat
  ch_buf :: "FlowRecord list"
  ch_closed :: bool

record RingBufferExporter =
  re_bufferPath :: string
  re_running :: bool
  re_records :: flow_channel

definition not_running :: string where
  "not_running = ''exporter not running''"

definition NewRingBufferExporter :: "string \<Rightarrow> int \<Rightarrow> RingBufferExporter outcome" where
  "NewRingBufferExporter bufferPath bufSize =
     (if bufSize < 0 then Panic ''makechan: size out of range''
      else Ret \<lparr>re_bufferPath = bufferPath, re_running = False,
                re_records = \<lparr>ch_cap = nat bufSize, ch_buf = [], ch_closed = False\<rparr>\<rparr>)"

text \<open>\<^verbatim>\<open>Start\<close> tells whether it created a draining goroutine.\<close>

definition ring_Start :: "RingBufferExporter \<Rightarrow> RingBufferExporter \<times> bool \<times> unit outcome" where
  "ring_Start e = (if re_running e then (e, False, Ret ()) else (e\<lparr>re_running := True\<rparr>, True, Ret ()))"

definition ring_Stop :: "RingBufferExporter \<Rightarrow> RingBufferExporter \<times> unit outcome" where
  "ring_Stop e =
     (if \<not> re_running e then (e, Ret ())
      else let e' = e\<lparr>re_running := False\<rparr>
           in if ch_closed (re_records e') then (e', Panic ''close of closed channel'')
              else (e'\<lparr>re_records := (re_records e')\<lparr>ch_closed := True\<rparr>\<rparr>, Ret ()))"

text \<open>The non-blocking send of \<^verbatim>\<open>Export\<close>: it panics on a closed channel, hands the record to a
  goroutine that is blocked receiving (\<open>waiting\<close>, the only way an unbuffered channel takes a
  value), or appends it to the buffer when there is room. The second component is the record
  handed over.\<close>

definition ring_Export ::
  "bool \<Rightarrow> RingBufferExporter \<Rightarrow> FlowRecord \<Rightarrow> RingBufferExporter \<times> FlowRecord option \<times> unit outcome" where
  "ring_Export waiting e record =
     (if \<not> re_running e then (e, None, Err not_running)
      else let ch = re_records e in
        if ch_closed ch then (e, None, Panic ''send on closed channel'')
        else if waiting then (e, Some record, Ret ())
        else if length (ch_buf ch) < ch_cap ch
        then (e\<lparr>re_records := ch\<lparr>ch_buf := ch_buf ch @ [record]\<rparr>\<rparr>, None, Ret ())
        else (e, None, Err ''buffer full, dropping record''))"

record LogExporter =
  le_running :: bool

definition NewLogExporter :: LogExporter where
  "NewLogExporter = \<lparr>le_running = False\<rparr>"

definition log_Start :: "LogExporter \<Rightarrow> LogExporter \<times> unit outcome" where
  "log_Start e = (e\<lparr>le_running := True\<rparr>, Ret ())"

definition log_Stop :: "LogExporter \<Rightarrow> LogExporter \<times> unit outcome" where
  "log_Stop e = (e\<lparr>le_running := False\<rparr>, Ret ())"

text \<open>The line a log exporter prints; the time format of the library is an argument.\<close>

definition log_line :: "(gotime \<Rightarrow> string) \<Rightarrow> FlowRecord \<Rightarrow> string" where
  "log_line rfc3339 r = ''['' @ rfc3339 (fr_Timestamp r) @ ''] '' @ fr_SrcIP r @ '':'' @ show_nat (unat (fr_SrcIdentity r)) @
     '' -> '' @ fr_DstIP r @ '':'' @ show_nat (unat (fr_DstPort r)) @ '' | '' @ fr_Verdict r @ '' | '' @ fr_MatchedPolicy r @ [CHR 0x0A]"

definition log_Export :: "(gotime \<Rightarrow> string) \<Rightarrow> LogExporter \<Rightarrow> FlowRecord \<Rightarrow> string \<times> unit outcome" where
  "log_Export rfc3339 e record = (if \<not> le_running e then ([], Err not_running) else (log_line rfc3339 record, Ret ()))"

subsection \<open>The exporter interface\<close>

text \<open>What the two exporters share: a flag that starting sets and stopping clears, and refusal of
  every record while it is clear.\<close>

locale flow_exporter =
  fixes start stop :: "'e \<Rightarrow> 'e" and running :: "'e \<Rightarrow> bool"
    and export :: "'e \<Rightarrow> FlowRecord \<Rightarrow> 'e \<times> unit outcome"
  assumes start_running: "running (start e)"
    and stop_running: "\<not> running (stop e)"
    and export_running: "running (fst (export e r)) = running e"
    and export_refused: "\<not> running e \<Longrightarrow> export e r = (e, Err not_running)"
begin

lemma stop_refuses: "foldl (\<lambda>e r. fst (export e r)) (stop e) rs = stop e \<and> snd (export (stop e) r) = Err not_running"
  by (induction rs) (simp_all add: export_refused stop_running)

lemma exports_keep_running: "running (foldl (\<lambda>e r. fst (export e r)) e rs) = running e"
  by (induction rs arbitrary: e) (simp_all add: export_running)

end

interpretation ring_exporter: flow_exporter "\<lambda>e. fst (ring_Start e)" "\<lambda>e. fst (ring_Stop e)" re_running
    "\<lambda>e r. (fst (ring_Export w e r), snd (snd (ring_Export w e r)))" for w
  by unfold_locales (auto simp: ring_Start_def ring_Stop_def ring_Export_def Let_def)

interpretation log_exporter: flow_exporter "\<lambda>e. fst (log_Start e)" "\<lambda>e. fst (log_Stop e)" le_running
    "\<lambda>e r. (e, snd (log_Export f e r))" for f
  by unfold_locales (auto simp: log_Start_def log_Stop_def log_Export_def)

subsection \<open>The ring buffer at work\<close>

text \<open>An exporter with the number of its draining goroutines and the records they have taken.\<close>

record flow_world =
  fw_exporter :: RingBufferExporter
  fw_consumers :: nat
  fw_taken :: "FlowRecord list"

datatype flow_event =
    EvStart
  | EvStop "unit outcome"
  | EvExport FlowRecord "unit outcome"
  | EvTake
  | EvLeave

inductive flow_step :: "flow_world \<Rightarrow> flow_event \<Rightarrow> flow_world \<Rightarrow> bool" where
  start: "ring_Start (fw_exporter w) = (e, spawned, Ret ()) \<Longrightarrow>
     flow_step w EvStart (w\<lparr>fw_exporter := e, fw_consumers := fw_consumers w + (if spawned then 1 else 0)\<rparr>)"
| stop: "ring_Stop (fw_exporter w) = (e, r) \<Longrightarrow> flow_step w (EvStop r) (w\<lparr>fw_exporter := e\<rparr>)"
| export: "waiting \<longrightarrow> 0 < fw_consumers w \<and> ch_buf (re_records (fw_exporter w)) = [] \<Longrightarrow>
     ring_Export waiting (fw_exporter w) x = (e, handed, r) \<Longrightarrow>
     flow_step w (EvExport x r)
       (w\<lparr>fw_exporter := e, fw_taken := fw_taken w @ (case handed of None \<Rightarrow> [] | Some y \<Rightarrow> [y])\<rparr>)"
| take: "0 < fw_consumers w \<Longrightarrow> ch_buf (re_records (fw_exporter w)) = x # xs \<Longrightarrow>
     flow_step w EvTake
       (w\<lparr>fw_exporter := (fw_exporter w)\<lparr>re_records := (re_records (fw_exporter w))\<lparr>ch_buf := xs\<rparr>\<rparr>,
          fw_taken := fw_taken w @ [x]\<rparr>)"
| leave: "0 < fw_consumers w \<Longrightarrow> ch_buf (re_records (fw_exporter w)) = [] \<Longrightarrow>
     ch_closed (re_records (fw_exporter w)) \<Longrightarrow>
     flow_step w EvLeave (w\<lparr>fw_consumers := fw_consumers w - 1\<rparr>)"

inductive flow_run :: "flow_world \<Rightarrow> flow_event list \<Rightarrow> flow_world \<Rightarrow> bool" where
  flow_nil: "flow_run w [] w"
| flow_snoc: "flow_run w es w' \<Longrightarrow> flow_step w' e w'' \<Longrightarrow> flow_run w (es @ [e]) w''"

inductive_cases flow_stepE [elim!]:
  "flow_step w EvStart w'" "flow_step w (EvStop r) w'" "flow_step w (EvExport x r) w'"
  "flow_step w EvTake w'" "flow_step w EvLeave w'"

fun accepted :: "flow_event \<Rightarrow> FlowRecord list" where
  "accepted (EvExport x (Ret _)) = [x]"
| "accepted _ = []"

fun event_panics :: "flow_event \<Rightarrow> bool" where
  "event_panics (EvStop (Panic _)) = True"
| "event_panics (EvExport _ (Panic _)) = True"
| "event_panics _ = False"

fun is_stop :: "flow_event \<Rightarrow> bool" where
  "is_stop (EvStop _) = True"
| "is_stop _ = False"

text \<open>No \<^verbatim>\<open>Start\<close> after a \<^verbatim>\<open>Stop\<close>.\<close>

fun no_restart :: "flow_event list \<Rightarrow> bool" where
  "no_restart [] = True"
| "no_restart (e # es) = ((is_stop e \<longrightarrow> EvStart \<notin> set es) \<and> no_restart es)"

definition new_world :: "string \<Rightarrow> nat \<Rightarrow> flow_world" where
  "new_world path n = \<lparr>fw_exporter = \<lparr>re_bufferPath = path, re_running = False,
     re_records = \<lparr>ch_cap = n, ch_buf = [], ch_closed = False\<rparr>\<rparr>, fw_consumers = 0, fw_taken = []\<rparr>"

abbreviation fw_channel :: "flow_world \<Rightarrow> flow_channel" where
  "fw_channel w \<equiv> re_records (fw_exporter w)"

lemma new_world_exporter: "NewRingBufferExporter path (int n) = Ret (fw_exporter (new_world path n))"
  by (simp add: NewRingBufferExporter_def new_world_def)

lemma no_restart_snoc:
  "no_restart (es @ [e]) \<longleftrightarrow> no_restart es \<and> (e = EvStart \<longrightarrow> (\<forall>s \<in> set es. \<not> is_stop s))"
  by (induction es) auto

lemma flow_step_fifo:
  assumes "flow_step w e w'" and "length (ch_buf (fw_channel w)) \<le> ch_cap (fw_channel w)"
  shows "fw_taken w' @ ch_buf (fw_channel w') = fw_taken w @ ch_buf (fw_channel w) @ accepted e \<and>
    length (ch_buf (fw_channel w')) \<le> ch_cap (fw_channel w') \<and> ch_cap (fw_channel w') = ch_cap (fw_channel w)"
  using assms
  by (cases rule: flow_step.cases)
     (auto simp: ring_Start_def ring_Stop_def ring_Export_def Let_def split: if_splits option.splits)

lemma flow_step_closed:
  assumes "flow_step w e w'"
  shows "ch_closed (fw_channel w') \<Longrightarrow> ch_closed (fw_channel w) \<or> is_stop e"
    and "re_running (fw_exporter w') \<Longrightarrow> re_running (fw_exporter w) \<or> e = EvStart"
    and "ch_closed (fw_channel w') \<Longrightarrow> \<not> ch_closed (fw_channel w) \<Longrightarrow> \<not> re_running (fw_exporter w')"
    and "event_panics e \<longleftrightarrow> ch_closed (fw_channel w) \<and> re_running (fw_exporter w) \<and>
         (is_stop e \<or> (\<exists>x r. e = EvExport x r))"
  using assms
  by (cases rule: flow_step.cases;
      auto simp: ring_Start_def ring_Stop_def ring_Export_def Let_def split: if_splits option.splits)+

lemma flow_run_fifo:
  assumes "flow_run w es w'" and "w = new_world path n"
  shows "fw_taken w' @ ch_buf (fw_channel w') = concat (map accepted es) \<and>
    length (ch_buf (fw_channel w')) \<le> n \<and> ch_cap (fw_channel w') = n"
  using assms
proof (induction rule: flow_run.induct)
  case (flow_snoc w es w' e w'')
  then have IH: "fw_taken w' @ ch_buf (fw_channel w') = concat (map accepted es)"
    "length (ch_buf (fw_channel w')) \<le> n" "ch_cap (fw_channel w') = n" by simp_all
  with flow_step_fifo [OF flow_snoc.hyps(2)] show ?case by simp
qed (simp add: new_world_def)

lemma flow_run_no_restart:
  assumes "flow_run w es w'" and "w = new_world path n" and "no_restart es"
  shows "(ch_closed (fw_channel w') \<longrightarrow> (\<exists>s \<in> set es. is_stop s) \<and> \<not> re_running (fw_exporter w')) \<and>
    (\<forall>e \<in> set es. \<not> event_panics e)"
  using assms
proof (induction rule: flow_run.induct)
  case (flow_snoc w es w' e w'')
  then have IH: "ch_closed (fw_channel w') \<longrightarrow> (\<exists>s \<in> set es. is_stop s) \<and> \<not> re_running (fw_exporter w')"
    "\<forall>e \<in> set es. \<not> event_panics e" and new: "e = EvStart \<longrightarrow> (\<forall>s \<in> set es. \<not> is_stop s)"
    by (auto simp: no_restart_snoc)
  note st = flow_step_closed [OF flow_snoc.hyps(2)]
  have "\<not> event_panics e" using IH(1) st(4) by blast
  moreover have "(\<exists>s \<in> set (es @ [e]). is_stop s) \<and> \<not> re_running (fw_exporter w'')" if c: "ch_closed (fw_channel w'')"
  proof (cases "ch_closed (fw_channel w')")
    case True
    with IH(1) st(2) new show ?thesis by auto
  next
    case False
    with c st(1,3) show ?thesis by auto
  qed
  ultimately show ?case using IH(2) by auto
qed (simp add: new_world_def)

text \<open>C37. The ring buffer exporter under every interleaving of calls and draining goroutines: the
  records it has accepted are exactly those taken by the goroutines followed by those in the
  buffer, in the order of the accepted calls; the buffer never exceeds its capacity; and as long
  as it is not started again after a stop, no call panics.\<close>

theorem ring_buffer_fifo:
  assumes "flow_run (new_world path n) es w"
  shows "fw_taken w @ ch_buf (fw_channel w) = concat (map accepted es) \<and> length (ch_buf (fw_channel w)) \<le> n \<and>
    (no_restart es \<longrightarrow> (\<forall>e \<in> set es. \<not> event_panics e))"
  using flow_run_fifo [OF assms refl] flow_run_no_restart [OF assms refl] by blast

definition ex_flow :: "u32 \<Rightarrow> FlowRecord" where
  "ex_flow i = \<lparr>fr_SrcIdentity = i, fr_DstIdentity = 1, fr_SrcIP = ''10.0.0.2'', fr_DstIP = ''10.0.0.3'', fr_Proto = 6,
     fr_DstPort = 80, fr_Verdict = ''allow'', fr_MatchedPolicy = ''p'', fr_Timestamp = 0\<rparr>"

definition ex_world :: "bool \<Rightarrow> bool \<Rightarrow> FlowRecord list \<Rightarrow> nat \<Rightarrow> FlowRecord list \<Rightarrow> flow_world" where
  "ex_world running closed buf k taken = \<lparr>fw_exporter = \<lparr>re_bufferPath = ''f'', re_running = running,
     re_records = \<lparr>ch_cap = 1, ch_buf = buf, ch_closed = closed\<rparr>\<rparr>, fw_consumers = k, fw_taken = taken\<rparr>"

lemma ex_world_new: "new_world ''f'' 1 = ex_world False False [] 0 []"
  by (simp add: new_world_def ex_world_def)

lemma ex_start: "flow_step (ex_world False c b k t) EvStart (ex_world True c b (k + 1) t)"
  using flow_step.start [of "ex_world False c b k t"] by (simp add: ring_Start_def ex_world_def)

lemma ex_export: "flow_step (ex_world True False [] k t) (EvExport x (Ret ())) (ex_world True False [x] k t)"
  using flow_step.export [of False "ex_world True False [] k t" x] by (simp add: ring_Export_def ex_world_def)

lemma ex_export_full:
  "flow_step (ex_world True False [y] k t) (EvExport x (Err ''buffer full, dropping record'')) (ex_world True False [y] k t)"
  using flow_step.export [of False "ex_world True False [y] k t" x] by (simp add: ring_Export_def ex_world_def)

lemma ex_export_closed:
  "flow_step (ex_world True True b k t) (EvExport x (Panic ''send on closed channel'')) (ex_world True True b k t)"
  using flow_step.export [of False "ex_world True True b k t" x] by (simp add: ring_Export_def ex_world_def)

lemma ex_take: "flow_step (ex_world r c (x # b) (Suc k) t) EvTake (ex_world r c b (Suc k) (t @ [x]))"
  using flow_step.take [of "ex_world r c (x # b) (Suc k) t" x b] by (simp add: ex_world_def)

lemma ex_stop: "flow_step (ex_world True False b k t) (EvStop (Ret ())) (ex_world False True b k t)"
  using flow_step.stop [of "ex_world True False b k t"] by (simp add: ring_Stop_def ex_world_def)

lemma flow_run_extend: "flow_run w es w' \<Longrightarrow> flow_step w' e w'' \<Longrightarrow> fs = es @ [e] \<Longrightarrow> flow_run w fs w''"
  by (simp add: flow_snoc)

theorem ring_buffer_fifo_witness:
  "\<exists>w. flow_run (new_world ''f'' 1)
      [EvStart, EvExport (ex_flow 1) (Ret ()), EvExport (ex_flow 2) (Err ''buffer full, dropping record''), EvTake,
       EvExport (ex_flow 3) (Ret ()), EvStop (Ret ())] w \<and>
    fw_taken w @ ch_buf (fw_channel w) = [ex_flow 1, ex_flow 3] \<and> length (ch_buf (fw_channel w)) \<le> 1"
proof -
  have "flow_run (new_world ''f'' 1) [] (ex_world False False [] 0 [])"
    unfolding ex_world_new by (rule flow_nil)
  from flow_run_extend [OF this ex_start refl]
  have "flow_run (new_world ''f'' 1) [EvStart] (ex_world True False [] 1 [])" by simp
  from flow_run_extend [OF flow_run_extend [OF this ex_export refl] ex_export_full refl, of "ex_flow 1" "ex_flow 2"]
  have "flow_run (new_world ''f'' 1) [EvStart, EvExport (ex_flow 1) (Ret ()),
      EvExport (ex_flow 2) (Err ''buffer full, dropping record'')] (ex_world True False [ex_flow 1] (Suc 0) [])" by simp
  from flow_run_extend [OF flow_run_extend [OF flow_run_extend [OF this ex_take refl] ex_export refl] ex_stop refl, of "ex_flow 3"]
  have run: "flow_run (new_world ''f'' 1)
      [EvStart, EvExport (ex_flow 1) (Ret ()), EvExport (ex_flow 2) (Err ''buffer full, dropping record''), EvTake,
       EvExport (ex_flow 3) (Ret ()), EvStop (Ret ())] (ex_world False True [ex_flow 3] (Suc 0) [ex_flow 1])" (is "flow_run _ ?es ?w")
    by simp
  have "fw_taken ?w @ ch_buf (fw_channel ?w) = concat (map accepted ?es) \<and> length (ch_buf (fw_channel ?w)) \<le> 1"
    using ring_buffer_fifo [OF run] by blast
  then show ?thesis using run by (intro exI [of _ ?w]) simp
qed

text \<open>An exporter that is started again after a stop keeps its closed channel: the next export
  panics.\<close>

lemma ring_buffer_restart_panics:
  "\<exists>w. flow_run (new_world ''f'' 1) [EvStart, EvStop (Ret ()), EvStart, EvExport (ex_flow 1) (Panic ''send on closed channel'')] w"
proof -
  have "flow_run (new_world ''f'' 1) [] (ex_world False False [] 0 [])"
    unfolding ex_world_new by (rule flow_nil)
  from flow_run_extend [OF flow_run_extend [OF flow_run_extend [OF flow_run_extend [OF this ex_start refl] ex_stop refl]
      ex_start refl] ex_export_closed refl]
  show ?thesis by auto
qed

end
