(* ===== verification/Grpc.thy ===== *)
theory Grpc
  imports Prelude
begin

text \<open>
  The protocol between the CNI binary and the node agent (\<^verbatim>\<open>internal/grpc/protocol.go\<close>): one JSON
  request and one JSON response per connection on a Unix socket. The JSON codec, the time and the
  outcome of each system call are arguments; the handler is a record of three functions over the
  state of the agent behind it. A handler that returns an error returns a nil response with it
  (\<open>Err\<close>); a panic in a handler ends the agent's process.
\<close>

subsection \<open>Messages\<close>

definition SocketPath :: string where
  "SocketPath = ''/var/run/coordino/cni.sock''"

record AddRequest =
  ar_ContainerID :: string
  ar_Netns :: string
  ar_IfName :: string
  ar_PodName :: string
  ar_PodNamespace :: string
  ar_Args :: "(string, string) fmap"

record Route =
  rt_Dst :: string
  rt_GW :: string

record DNSConfig =
  dns_Nameservers :: "string list"
  dns_Domain :: string
  dns_Search :: "string list"

record AddResponse =
  as_IP :: string
  as_Gateway :: string
  as_Routes :: "Route list"
  as_DNS :: DNSConfig
  as_Error :: string

record DelRequest =
  dr_ContainerID :: string
  dr_Netns :: string
  dr_IfName :: string
  dr_PodName :: string
  dr_PodNamespace :: string

record DelResponse =
  ds_Error :: string

record CheckRequest =
  cq_ContainerID :: string
  cq_Netns :: string
  cq_IfName :: string
  cq_PodName :: string
  cq_PodNamespace :: string

record CheckResponse =
  cs_OK :: bool
  cs_Error :: string

record HealthResponse =
  hr_Healthy :: bool
  hr_Version :: string
  hr_Uptime :: int

text \<open>What a request wrapper carries, and what the server writes back.\<close>

datatype payload = PlAdd AddRequest | PlDel DelRequest | PlCheck CheckRequest | PlNil

datatype reply = RpAdd AddResponse | RpDel DelResponse | RpCheck CheckResponse | RpHealth HealthResponse

record requestWrapper =
  rw_Method :: string
  rw_Data :: payload

text \<open>The part of \<^verbatim>\<open>encoding/json\<close> the protocol uses: the two encoders, the decoder of the wrapper
  (which leaves the data as raw text) and a decoder per message.\<close>

record json_codec =
  enc_request :: "requestWrapper \<Rightarrow> string outcome"
  dec_wrapper :: "string \<Rightarrow> (string \<times> string) outcome"
  dec_AddRequest :: "string \<Rightarrow> AddRequest outcome"
  dec_DelRequest :: "string \<Rightarrow> DelRequest outcome"
  dec_CheckRequest :: "string \<Rightarrow> CheckRequest outcome"
  enc_reply :: "reply \<Rightarrow> string outcome"
  dec_AddResponse :: "string \<Rightarrow> AddResponse outcome"
  dec_DelResponse :: "string \<Rightarrow> DelResponse outcome"
  dec_CheckResponse :: "string \<Rightarrow> CheckResponse outcome"
  dec_HealthResponse :: "string \<Rightarrow> HealthResponse outcome"

subsection \<open>Server\<close>

record 's RequestHandler =
  HandleAdd :: "'s \<Rightarrow> AddRequest \<Rightarrow> 's \<times> AddResponse outcome"
  HandleDel :: "'s \<Rightarrow> DelRequest \<Rightarrow> 's \<times> DelResponse outcome"
  HandleCheck :: "'s \<Rightarrow> CheckRequest \<Rightarrow> 's \<times> CheckResponse outcome"

datatype listener = Open | Closed

record Server =
  sv_socketPath :: string
  sv_listener :: "listener option"

definition NewServer :: "string \<Rightarrow> Server" where
  "NewServer socketPath = \<lparr>sv_socketPath = socketPath, sv_listener = None\<rparr>"

text \<open>The errors the system reports during a start or a stop.\<close>

record server_env =
  remove_err :: "string option"
  listen_err :: "string option"
  chmod_err :: "string option"
  close_err :: "string option"

text \<open>\<^verbatim>\<open>Start\<close> over the set of socket files; the last component tells whether the accept loop runs.\<close>

definition Start_remove :: "server_env \<Rightarrow> string fset \<Rightarrow> string \<Rightarrow> string fset \<times> unit outcome" where
  "Start_remove env files path =
     (if path |\<in>| files
      then case remove_err env of
             Some e \<Rightarrow> (files, Err (''failed to remove existing socket: '' @ e))
           | None \<Rightarrow> (files |-| {|path|}, Ret ())
      else (files, Ret ()))"

definition server_Start ::
  "server_env \<Rightarrow> Server \<Rightarrow> string fset \<Rightarrow> Server \<times> string fset \<times> bool \<times> unit outcome" where
  "server_Start env s files =
     (case Start_remove env files (sv_socketPath s) of
        (files1, Ret _) \<Rightarrow>
          (case listen_err env of
             Some e \<Rightarrow> (s, files1, False, Err (''failed to listen on unix socket: '' @ e))
           | None \<Rightarrow>
               let s' = s\<lparr>sv_listener := Some Open\<rparr>; files2 = finsert (sv_socketPath s) files1
               in (case chmod_err env of
                     Some e \<Rightarrow> (s', files2, False, Err (''failed to set socket permissions: '' @ e))
                   | None \<Rightarrow> (s', files2, True, Ret ())))
      | (files1, Err e) \<Rightarrow> (s, files1, False, Err e)
      | (files1, Panic e) \<Rightarrow> (s, files1, False, Panic e))"

definition server_Stop :: "server_env \<Rightarrow> Server \<Rightarrow> string fset \<Rightarrow> Server \<times> string fset \<times> unit outcome" where
  "server_Stop env s files =
     (case sv_listener s of
        None \<Rightarrow> (s, files, Ret ())
      | Some Closed \<Rightarrow> (s, files |-| {|sv_socketPath s|}, Err ''use of closed network connection'')
      | Some Open \<Rightarrow>
          (s\<lparr>sv_listener := Some Closed\<rparr>, files |-| {|sv_socketPath s|},
           case close_err env of None \<Rightarrow> Ret () | Some e \<Rightarrow> Err e))"

text \<open>The response slot after the switch on the method: no response, a nil pointer of a response
  type (what a handler that fails returns, encoded as \<^verbatim>\<open>null\<close>), a response, or a panic.\<close>

datatype response_slot = NoResp | NilResp | Resp reply | Crash string

fun slot :: "('a \<Rightarrow> reply) \<Rightarrow> 'a outcome \<Rightarrow> response_slot" where
  "slot f (Ret r) = Resp (f r)"
| "slot f (Err e) = NilResp"
| "slot f (Panic e) = Crash e"

fun on_data :: "'a outcome \<Rightarrow> ('a \<Rightarrow> 's \<times> response_slot) \<Rightarrow> 's \<Rightarrow> 's \<times> response_slot" where
  "on_data (Ret req) f s = f req"
| "on_data (Err e) f s = (s, NoResp)"
| "on_data (Panic e) f s = (s, Crash e)"

definition dispatch ::
  "json_codec \<Rightarrow> 's RequestHandler \<Rightarrow> gotime \<Rightarrow> 's \<Rightarrow> string \<Rightarrow> string \<Rightarrow> 's \<times> response_slot" where
  "dispatch c h now s meth data =
     (if meth = ''ADD'' then on_data (dec_AddRequest c data) (\<lambda>req. map_prod id (slot RpAdd) (HandleAdd h s req)) s
      else if meth = ''DEL'' then on_data (dec_DelRequest c data) (\<lambda>req. map_prod id (slot RpDel) (HandleDel h s req)) s
      else if meth = ''CHECK'' then on_data (dec_CheckRequest c data) (\<lambda>req. map_prod id (slot RpCheck) (HandleCheck h s req)) s
      else if meth = ''HEALTH'' then (s, Resp (RpHealth \<lparr>hr_Healthy = True, hr_Version = ''1.0.0'', hr_Uptime = now\<rparr>))
      else (s, NoResp))"

definition handleConnection ::
  "json_codec \<Rightarrow> 's RequestHandler \<Rightarrow> gotime \<Rightarrow> 's \<Rightarrow> string \<Rightarrow> 's \<times> string outcome" where
  "handleConnection c h now s text =
     (case dec_wrapper c text of
        Err e \<Rightarrow> (s, Ret [])
      | Panic e \<Rightarrow> (s, Panic e)
      | Ret (meth, data) \<Rightarrow>
          (case dispatch c h now s meth data of
             (s', NoResp) \<Rightarrow> (s', Ret [])
           | (s', NilResp) \<Rightarrow> (s', Ret (''null'' @ [CHR 0x0A]))
           | (s', Crash e) \<Rightarrow> (s', Panic e)
           | (s', Resp r) \<Rightarrow> (s', case enc_reply c r of Ret t \<Rightarrow> Ret t | Err e \<Rightarrow> Ret [] | Panic e \<Rightarrow> Panic e)))"

text \<open>The accept loop serves the connections one after the other until one fails to be accepted; the
  handlers of the node agent take its mutex, so their effects are ordered.\<close>

fun acceptLoop ::
  "json_codec \<Rightarrow> 's RequestHandler \<Rightarrow> 's \<Rightarrow> (gotime \<times> string) outcome list \<Rightarrow> 's \<times> string outcome list" where
  "acceptLoop c h s [] = (s, [])"
| "acceptLoop c h s (Ret (now, text) # conns) =
     (case handleConnection c h now s text of
        (s', Panic e) \<Rightarrow> (s', [Panic e])
      | (s', out) \<Rightarrow> (case acceptLoop c h s' conns of (s'', outs) \<Rightarrow> (s'', out # outs)))"
| "acceptLoop c h s (Err e # conns) = (s, [])"
| "acceptLoop c h s (Panic e # conns) = (s, [])"

subsection \<open>Client\<close>

record Client =
  cl_socketPath :: string
  cl_timeout :: int

definition NewClient :: "string \<Rightarrow> Client" where
  "NewClient socketPath = \<lparr>cl_socketPath = socketPath, cl_timeout = 30 * 1000000000\<rparr>"

text \<open>The errors of one connection: of the dial, of the write (with the text that reached the server
  all the same) and of the read.\<close>

record conn_env =
  dial_err :: "string option"
  send_err :: "(string \<times> string) option"
  recv_err :: "string option"

text \<open>\<open>serve\<close> is the server at the other end: what it does with a text and what it writes back. When
  its process dies the client reads an empty response.\<close>

definition sendRequest ::
  "json_codec \<Rightarrow> conn_env \<Rightarrow> ('s \<Rightarrow> string \<Rightarrow> 's \<times> string outcome) \<Rightarrow> 's \<Rightarrow> string \<Rightarrow> payload \<Rightarrow> 's \<times> string outcome" where
  "sendRequest c env serve s meth req =
     (case dial_err env of
        Some e \<Rightarrow> (s, Err (''failed to connect to node agent: '' @ e))
      | None \<Rightarrow>
          (case enc_request c \<lparr>rw_Method = meth, rw_Data = req\<rparr> of
             Panic e \<Rightarrow> (s, Panic e)
           | Err e \<Rightarrow> (s, Err (''failed to encode request: '' @ e))
           | Ret text \<Rightarrow>
               (case send_err env of
                  Some (e, sent) \<Rightarrow> (fst (serve s sent), Err (''failed to encode request: '' @ e))
                | None \<Rightarrow>
                    (case recv_err env of
                       Some e \<Rightarrow> (fst (serve s text), Err (''failed to read response: '' @ e))
                     | None \<Rightarrow> (case serve s text of
                                 (s', Ret respData) \<Rightarrow> (s', Ret respData)
                               | (s', _) \<Rightarrow> (s', Ret []))))))"

fun received :: "(string \<Rightarrow> 'r outcome) \<Rightarrow> 's \<times> string outcome \<Rightarrow> 's \<times> 'r outcome" where
  "received dec (s, Err e) = (s, Err e)"
| "received dec (s, Panic e) = (s, Panic e)"
| "received dec (s, Ret data) =
     (s, case dec data of Ret r \<Rightarrow> Ret r | Err e \<Rightarrow> Err (''failed to unmarshal response: '' @ e) | Panic e \<Rightarrow> Panic e)"

definition client_Add ::
  "json_codec \<Rightarrow> conn_env \<Rightarrow> ('s \<Rightarrow> string \<Rightarrow> 's \<times> string outcome) \<Rightarrow> 's \<Rightarrow> AddRequest \<Rightarrow> 's \<times> AddResponse outcome" where
  "client_Add c env serve s req = received (dec_AddResponse c) (sendRequest c env serve s ''ADD'' (PlAdd req))"

definition client_Del ::
  "json_codec \<Rightarrow> conn_env \<Rightarrow> ('s \<Rightarrow> string \<Rightarrow> 's \<times> string outcome) \<Rightarrow> 's \<Rightarrow> DelRequest \<Rightarrow> 's \<times> DelResponse outcome" where
  "client_Del c env serve s req = received (dec_DelResponse c) (sendRequest c env serve s ''DEL'' (PlDel req))"

definition client_Check ::
  "json_codec \<Rightarrow> conn_env \<Rightarrow> ('s \<Rightarrow> string \<Rightarrow> 's \<times> string outcome) \<Rightarrow> 's \<Rightarrow> CheckRequest \<Rightarrow> 's \<times> CheckResponse outcome" where
  "client_Check c env serve s req = received (dec_CheckResponse c) (sendRequest c env serve s ''CHECK'' (PlCheck req))"

definition client_Health ::
  "json_codec \<Rightarrow> conn_env \<Rightarrow> ('s \<Rightarrow> string \<Rightarrow> 's \<times> string outcome) \<Rightarrow> 's \<Rightarrow> 's \<times> HealthResponse outcome" where
  "client_Health c env serve s = received (dec_HealthResponse c) (sendRequest c env serve s ''HEALTH'' PlNil)"

subsection \<open>What the protocol relies on from the codec\<close>

text \<open>A codec carries a request when the server decodes what the client encodes, and a response when
  the client decodes what the server encodes (\<^verbatim>\<open>encoding/json\<close> on strings of valid text).\<close>

fun dec_payload :: "json_codec \<Rightarrow> payload \<Rightarrow> string \<Rightarrow> bool" where
  "dec_payload c (PlAdd r) raw \<longleftrightarrow> dec_AddRequest c raw = Ret r"
| "dec_payload c (PlDel r) raw \<longleftrightarrow> dec_DelRequest c raw = Ret r"
| "dec_payload c (PlCheck r) raw \<longleftrightarrow> dec_CheckRequest c raw = Ret r"
| "dec_payload c PlNil raw \<longleftrightarrow> True"

definition carries_request :: "json_codec \<Rightarrow> string \<Rightarrow> payload \<Rightarrow> bool" where
  "carries_request c meth p \<longleftrightarrow> (\<exists>text raw. enc_request c \<lparr>rw_Method = meth, rw_Data = p\<rparr> = Ret text \<and>
     dec_wrapper c text = Ret (meth, raw) \<and> dec_payload c p raw)"

fun dec_reply :: "json_codec \<Rightarrow> reply \<Rightarrow> string \<Rightarrow> bool" where
  "dec_reply c (RpAdd r) t \<longleftrightarrow> dec_AddResponse c t = Ret r"
| "dec_reply c (RpDel r) t \<longleftrightarrow> dec_DelResponse c t = Ret r"
| "dec_reply c (RpCheck r) t \<longleftrightarrow> dec_CheckResponse c t = Ret r"
| "dec_reply c (RpHealth r) t \<longleftrightarrow> dec_HealthResponse c t = Ret r"

definition carries_reply :: "json_codec \<Rightarrow> reply \<Rightarrow> bool" where
  "carries_reply c r \<longleftrightarrow> (\<exists>t. enc_reply c r = Ret t \<and> dec_reply c r t)"

definition no_failure :: conn_env where
  "no_failure = \<lparr>dial_err = None, send_err = None, recv_err = None\<rparr>"

subsection \<open>Lemmas\<close>

lemmas client_defs = client_Add_def client_Del_def client_Check_def client_Health_def

text \<open>One exchange without failure: the response slot the handler fills is what the client decodes.\<close>

lemma exchange_ok:
  assumes "carries_request c meth p" and "carries_reply c r"
    and "\<And>raw. dec_payload c p raw \<Longrightarrow> dispatch c h now s meth raw = (s', Resp r)"
  obtains t where "sendRequest c no_failure (handleConnection c h now) s meth p = (s', Ret t)" "dec_reply c r t"
proof -
  obtain tx raw where t: "enc_request c \<lparr>rw_Method = meth, rw_Data = p\<rparr> = Ret tx"
    "dec_wrapper c tx = Ret (meth, raw)" "dec_payload c p raw"
    using assms(1) unfolding carries_request_def by blast
  obtain out where out: "enc_reply c r = Ret out" "dec_reply c r out"
    using assms(2) unfolding carries_reply_def by blast
  show ?thesis using that [of out] t(1,2) out assms(3) [OF t(3)]
    by (simp add: sendRequest_def no_failure_def handleConnection_def)
qed

lemma dispatch_methods:
  "dec_payload c (PlAdd ar) raw \<Longrightarrow> HandleAdd h s ar = (s', Ret r1) \<Longrightarrow> dispatch c h now s ''ADD'' raw = (s', Resp (RpAdd r1))"
  "dec_payload c (PlDel dr) raw \<Longrightarrow> HandleDel h s dr = (s', Ret r2) \<Longrightarrow> dispatch c h now s ''DEL'' raw = (s', Resp (RpDel r2))"
  "dec_payload c (PlCheck cq) raw \<Longrightarrow> HandleCheck h s cq = (s', Ret r3) \<Longrightarrow> dispatch c h now s ''CHECK'' raw = (s', Resp (RpCheck r3))"
  by (simp_all add: dispatch_def)

lemma client_Add_ok:
  assumes "HandleAdd h s req = (s', Ret resp)" "carries_request c ''ADD'' (PlAdd req)" "carries_reply c (RpAdd resp)"
  shows "client_Add c no_failure (handleConnection c h now) s req = (s', Ret resp)"
  by (rule exchange_ok [OF assms(2,3) dispatch_methods(1) [OF _ assms(1)], of now]) (simp_all add: client_defs)

lemma client_Del_ok:
  assumes "HandleDel h s req = (s', Ret resp)" "carries_request c ''DEL'' (PlDel req)" "carries_reply c (RpDel resp)"
  shows "client_Del c no_failure (handleConnection c h now) s req = (s', Ret resp)"
  by (rule exchange_ok [OF assms(2,3) dispatch_methods(2) [OF _ assms(1)], of now]) (simp_all add: client_defs)

lemma client_Check_ok:
  assumes "HandleCheck h s req = (s', Ret resp)" "carries_request c ''CHECK'' (PlCheck req)" "carries_reply c (RpCheck resp)"
  shows "client_Check c no_failure (handleConnection c h now) s req = (s', Ret resp)"
  by (rule exchange_ok [OF assms(2,3) dispatch_methods(3) [OF _ assms(1)], of now]) (simp_all add: client_defs)

text \<open>What the protocol asks of a handler: in the states \<open>ok\<close> it answers every request. Then a client
  whose messages the codec carries always gets the handler's answer.\<close>

locale answering_handler =
  fixes h :: "'s RequestHandler"
    and ok :: "'s \<Rightarrow> bool"
  assumes add_answers: "ok s \<Longrightarrow> \<exists>r. snd (HandleAdd h s ar) = Ret r"
    and del_answers: "ok s \<Longrightarrow> \<exists>r. snd (HandleDel h s dr) = Ret r"
    and check_answers: "ok s \<Longrightarrow> \<exists>r. snd (HandleCheck h s cq) = Ret r"
begin

lemma add_served:
  assumes "ok s" and "carries_request c ''ADD'' (PlAdd ar)"
    and "\<And>t r. HandleAdd h s ar = (t, Ret r) \<Longrightarrow> carries_reply c (RpAdd r)"
  obtains t r where "HandleAdd h s ar = (t, Ret r)"
    "client_Add c no_failure (handleConnection c h now) s ar = (t, Ret r)"
proof -
  obtain t r where r: "HandleAdd h s ar = (t, Ret r)" using add_answers [OF assms(1)] by (metis prod.collapse)
  show ?thesis by (rule that [OF r client_Add_ok [OF r assms(2) assms(3) [OF r]]])
qed

lemma del_served:
  assumes "ok s" and "carries_request c ''DEL'' (PlDel dr)"
    and "\<And>t r. HandleDel h s dr = (t, Ret r) \<Longrightarrow> carries_reply c (RpDel r)"
  obtains t r where "HandleDel h s dr = (t, Ret r)"
    "client_Del c no_failure (handleConnection c h now) s dr = (t, Ret r)"
proof -
  obtain t r where r: "HandleDel h s dr = (t, Ret r)" using del_answers [OF assms(1)] by (metis prod.collapse)
  show ?thesis by (rule that [OF r client_Del_ok [OF r assms(2) assms(3) [OF r]]])
qed

lemma check_served:
  assumes "ok s" and "carries_request c ''CHECK'' (PlCheck cq)"
    and "\<And>t r. HandleCheck h s cq = (t, Ret r) \<Longrightarrow> carries_reply c (RpCheck r)"
  obtains t r where "HandleCheck h s cq = (t, Ret r)"
    "client_Check c no_failure (handleConnection c h now) s cq = (t, Ret r)"
proof -
  obtain t r where r: "HandleCheck h s cq = (t, Ret r)" using check_answers [OF assms(1)] by (metis prod.collapse)
  show ?thesis by (rule that [OF r client_Check_ok [OF r assms(2) assms(3) [OF r]]])
qed

end

text \<open>A connection that cannot be made changes nothing.\<close>

lemma sendRequest_no_connection:
  "dial_err env = Some e \<Longrightarrow> sendRequest c env serve s meth p = (s, Err (''failed to connect to node agent: '' @ e))"
  by (simp add: sendRequest_def)

lemma client_no_connection:
  assumes "dial_err env = Some e"
  shows "client_Add c env serve s ar = (s, Err (''failed to connect to node agent: '' @ e))"
  unfolding client_defs sendRequest_no_connection [OF assms] by simp

text \<open>When only the response is lost, the handler has run all the same: the client reports an error
  for a request that was served.\<close>

lemma lost_response:
  assumes "carries_request c ''ADD'' (PlAdd req)" "HandleAdd h s req = (s', Ret resp)" "carries_reply c (RpAdd resp)"
    and "env = no_failure\<lparr>recv_err := Some e\<rparr>"
  shows "client_Add c env (handleConnection c h now) s req = (s', Err (''failed to read response: '' @ e))"
proof -
  obtain tx raw where t: "enc_request c \<lparr>rw_Method = ''ADD'', rw_Data = PlAdd req\<rparr> = Ret tx"
    "dec_wrapper c tx = Ret (''ADD'', raw)" "dec_payload c (PlAdd req) raw"
    using assms(1) unfolding carries_request_def by blast
  then show ?thesis using assms(4) dispatch_methods(1) [OF t(3) assms(2), of now]
    by (simp add: client_defs sendRequest_def no_failure_def handleConnection_def)
qed

text \<open>A request the server cannot decode, or of a method it does not know, gets no answer and changes
  nothing.\<close>

lemma handleConnection_silent:
  "dec_wrapper c text = Err e \<Longrightarrow> handleConnection c h now s text = (s, Ret [])"
  "dec_wrapper c text = Ret (meth, raw) \<Longrightarrow> meth \<notin> {''ADD'', ''DEL'', ''CHECK'', ''HEALTH''} \<Longrightarrow>
     handleConnection c h now s text = (s, Ret [])"
  by (simp_all add: handleConnection_def dispatch_def)

text \<open>A stop after a successful start leaves no socket file, and a second stop reports an error.\<close>

lemma server_start_stop:
  assumes "server_Start env s files = (s', files', running, Ret ())" and "close_err env = None"
  shows "running \<and> sv_socketPath s |\<in>| files' \<and>
    (\<exists>s'' files''. server_Stop env s' files' = (s'', files'', Ret ()) \<and> sv_socketPath s |\<notin>| files'' \<and>
       snd (snd (server_Stop env s'' files'')) = Err ''use of closed network connection'')"
proof -
  obtain files1 where st: "running" "s' = s\<lparr>sv_listener := Some Open\<rparr>" "files' = finsert (sv_socketPath s) files1"
    using assms(1) by (auto simp: server_Start_def Let_def split: prod.splits outcome.splits option.splits)
  let ?s = "s\<lparr>sv_listener := Some Closed\<rparr>" and ?f = "files' |-| {|sv_socketPath s|}"
  have "server_Stop env s' files' = (?s, ?f, Ret ())" using st(2) assms(2) by (simp add: server_Stop_def)
  moreover have "snd (snd (server_Stop env ?s ?f)) = Err ''use of closed network connection''" by (simp add: server_Stop_def)
  ultimately show ?thesis using st by (intro conjI exI [of _ ?s] exI [of _ ?f]) simp_all
qed

subsection \<open>Properties\<close>

text \<open>C25. Calls over the socket are the handler's calls: with a codec that carries the messages and
  no failure of the connection, the client's ADD, DEL and CHECK return exactly what the handler
  returns and leave the agent in exactly the state the handler leaves; when the connection cannot
  be made, the state is unchanged and the client gets an error.\<close>

theorem rpc_transparent:
  assumes "HandleAdd h s ar = (s1, Ret r1)" and "carries_request c ''ADD'' (PlAdd ar)" and "carries_reply c (RpAdd r1)"
    and "HandleDel h s dr = (s2, Ret r2)" and "carries_request c ''DEL'' (PlDel dr)" and "carries_reply c (RpDel r2)"
    and "HandleCheck h s cq = (s3, Ret r3)" and "carries_request c ''CHECK'' (PlCheck cq)" and "carries_reply c (RpCheck r3)"
    and "dial_err env = Some e"
  shows "client_Add c no_failure (handleConnection c h now) s ar = (s1, Ret r1) \<and>
    client_Del c no_failure (handleConnection c h now) s dr = (s2, Ret r2) \<and>
    client_Check c no_failure (handleConnection c h now) s cq = (s3, Ret r3) \<and>
    client_Add c env (handleConnection c h now) s ar = (s, Err (''failed to connect to node agent: '' @ e))"
  by (intro conjI client_Add_ok [OF assms(1-3)] client_Del_ok [OF assms(4-6)] client_Check_ok [OF assms(7-9)]
      client_no_connection [OF assms(10)])

text \<open>A codec for the messages of one exchange, and a handler that counts.\<close>

definition ex_add_request :: AddRequest where
  "ex_add_request = \<lparr>ar_ContainerID = ''c1'', ar_Netns = ''/var/run/netns/c1'', ar_IfName = ''eth0'', ar_PodName = ''web'',
     ar_PodNamespace = ''prod'', ar_Args = fmempty\<rparr>"

definition ex_del_request :: DelRequest where
  "ex_del_request = \<lparr>dr_ContainerID = ''c1'', dr_Netns = ''/var/run/netns/c1'', dr_IfName = ''eth0'', dr_PodName = ''web'',
     dr_PodNamespace = ''prod''\<rparr>"

definition ex_check_request :: CheckRequest where
  "ex_check_request = \<lparr>cq_ContainerID = ''c1'', cq_Netns = ''/var/run/netns/c1'', cq_IfName = ''eth0'', cq_PodName = ''web'',
     cq_PodNamespace = ''prod''\<rparr>"

definition ex_codec :: "AddResponse \<Rightarrow> json_codec" where
  "ex_codec r = \<lparr>enc_request = (\<lambda>w. Ret (rw_Method w)), dec_wrapper = (\<lambda>t. Ret (t, t)),
     dec_AddRequest = (\<lambda>t. Ret ex_add_request), dec_DelRequest = (\<lambda>t. Ret ex_del_request),
     dec_CheckRequest = (\<lambda>t. Ret ex_check_request), enc_reply = (\<lambda>r. Ret ''{}''),
     dec_AddResponse = (\<lambda>t. Ret r), dec_DelResponse = (\<lambda>t. Ret \<lparr>ds_Error = []\<rparr>),
     dec_CheckResponse = (\<lambda>t. Ret \<lparr>cs_OK = True, cs_Error = []\<rparr>),
     dec_HealthResponse = (\<lambda>t. Err ''unexpected'')\<rparr>"

definition ex_response :: AddResponse where
  "ex_response = \<lparr>as_IP = ''10.0.0.2/24'', as_Gateway = ''10.0.0.1'', as_Routes = [],
     as_DNS = \<lparr>dns_Nameservers = [], dns_Domain = [], dns_Search = []\<rparr>, as_Error = []\<rparr>"

definition ex_handler :: "int RequestHandler" where
  "ex_handler = \<lparr>HandleAdd = (\<lambda>s r. (s + 1, Ret ex_response)), HandleDel = (\<lambda>s r. (s - 1, Ret \<lparr>ds_Error = []\<rparr>)),
     HandleCheck = (\<lambda>s r. (s, Ret \<lparr>cs_OK = True, cs_Error = []\<rparr>))\<rparr>"

lemma ex_codec_carries:
  "carries_request (ex_codec r) ''ADD'' (PlAdd ex_add_request)" "carries_request (ex_codec r) ''DEL'' (PlDel ex_del_request)"
  "carries_request (ex_codec r) ''CHECK'' (PlCheck ex_check_request)" "carries_reply (ex_codec r) (RpAdd r)"
  "carries_reply (ex_codec r) (RpDel \<lparr>ds_Error = []\<rparr>)" "carries_reply (ex_codec r) (RpCheck \<lparr>cs_OK = True, cs_Error = []\<rparr>)"
  by (simp_all add: carries_request_def carries_reply_def ex_codec_def)

theorem rpc_transparent_witness:
  "client_Add (ex_codec ex_response) no_failure (handleConnection (ex_codec ex_response) ex_handler 0) 5 ex_add_request =
     (6, Ret ex_response) \<and>
   client_Del (ex_codec ex_response) no_failure (handleConnection (ex_codec ex_response) ex_handler 0) 5 ex_del_request =
     (4, Ret \<lparr>ds_Error = []\<rparr>)"
proof -
  have h: "HandleAdd ex_handler 5 ex_add_request = (6, Ret ex_response)"
    "HandleDel ex_handler 5 ex_del_request = (4, Ret \<lparr>ds_Error = []\<rparr>)"
    "HandleCheck ex_handler 5 ex_check_request = (5, Ret \<lparr>cs_OK = True, cs_Error = []\<rparr>)"
    by (simp_all add: ex_handler_def)
  have "dial_err (no_failure\<lparr>dial_err := Some ''refused''\<rparr>) = Some ''refused''" by simp
  from rpc_transparent [OF h(1) ex_codec_carries(1,4) h(2) ex_codec_carries(2,5) h(3) ex_codec_carries(3,6) this, of 0]
  show ?thesis by blast
qed

end
