(* ===== verification/NodeAgent.thy ===== *)
theory NodeAgent
  imports CheckpointFile Dataplane Netns Routing PolicyStore EbpfWriter Encryption HostPolicy Observability Grpc
begin

text \<open>
  The node agent (\<^verbatim>\<open>cmd/node-agent/main.go\<close>): the state it is built from, its construction and start,
  the handlers of the three CNI commands with their rollback, the periodic reconciliation and the
  shutdown. The identity allocator of the agent and the one inside the compiler of the policy
  store are one object in the source: the state has it once, inside the store, with
  \<open>ag_identityAllocator\<close> as its name. Every handler holds the agent's mutex for its whole run and is
  one step. The digest, the clock, the interface lookup, the JSON codec, iteration orders and the
  outcomes of system calls are arguments; the file system is the map of \<open>CheckpointFile\<close>.
\<close>

subsection \<open>State\<close>

record PodEndpointInfo =
  pi_IP :: ip
  pi_IdentityID :: u32
  pi_IfName :: string
  pi_Netns :: string

record NodeAgent =
  ag_nodeName :: string
  ag_nodeIP :: string
  ag_podCIDR :: string
  ag_socketPath :: string
  ag_metricsAddr :: string
  ag_bpfMountPath :: string
  ag_checkpointPath :: string
  ag_routingMode :: string
  ag_allocator :: NodeAllocator
  ag_checkpoint :: CheckpointManager
  ag_dp :: DataPlane
  ag_encryption :: Manager
  ag_metrics :: noopMetrics
  ag_tracer :: CNITracer
  ag_hostPolicy :: HostPolicy
  ag_netnsManager :: LinuxNetnsManager
  ag_policyWriter :: EBPFWriter
  ag_policyStore :: PolicyStore
  ag_routingBackend :: RoutingBackend
  ag_podEndpoints :: "(string, PodEndpointInfo) fmap"
  ag_server :: Server

definition ag_identityAllocator :: "NodeAgent \<Rightarrow> IdentityAllocator" where
  "ag_identityAllocator a = cmp_identityAllocator (ps_compiler (ag_policyStore a))"

definition set_identityAllocator :: "IdentityAllocator \<Rightarrow> NodeAgent \<Rightarrow> NodeAgent" where
  "set_identityAllocator ia a = a\<lparr>ag_policyStore := (ag_policyStore a)
     \<lparr>ps_compiler := (ps_compiler (ag_policyStore a))\<lparr>cmp_identityAllocator := ia\<rparr>\<rparr>\<rparr>"

text \<open>A call whose error is ignored: go on, unless it panicked.\<close>

fun then_do :: "'s \<times> 'a outcome \<Rightarrow> ('s \<Rightarrow> 's \<times> 'b outcome) \<Rightarrow> 's \<times> 'b outcome" where
  "then_do (s, Panic e) k = (s, Panic e)"
| "then_do (s, Err e) k = k s"
| "then_do (s, Ret x) k = k s"

subsection \<open>Construction\<close>

record new_env =
  ne_now :: gotime
  ne_read_err :: "string option"
  ne_unmarshal :: "string \<Rightarrow> Checkpoint outcome"
  ne_bpffs :: bool
  ne_version :: "string option"
  ne_btf :: bool

definition restored_allocator ::
  "new_env \<Rightarrow> disk \<Rightarrow> CheckpointManager \<Rightarrow> NodeAllocator \<Rightarrow> NodeAllocator outcome" where
  "restored_allocator env files checkpoint allocator =
     (if Exists checkpoint files
      then (case Load (ne_unmarshal env) (ne_read_err env) checkpoint files of
              Panic e \<Rightarrow> Panic e
            | Err e \<Rightarrow> Ret allocator
            | Ret cp \<Rightarrow> (case Restore (ne_now env) allocator (cp_Records cp) of
                          (al, ws, Panic e) \<Rightarrow> Panic e
                        | (al, ws, _) \<Rightarrow> Ret al))
      else Ret allocator)"

definition NewNodeAgent ::
  "new_env \<Rightarrow> disk \<Rightarrow> string \<Rightarrow> string \<Rightarrow> string \<Rightarrow> string \<Rightarrow> string \<Rightarrow> string \<Rightarrow> string \<Rightarrow> string \<Rightarrow> NodeAgent outcome" where
  "NewNodeAgent env files nodeName nodeIP podCIDR socketPath metricsAddr bpfMountPath checkpointPath routingMode =
     (case NewNodeAllocator podCIDR of
        Panic e \<Rightarrow> Panic e
      | Err e \<Rightarrow> Err (''failed to create allocator: '' @ e)
      | Ret allocator0 \<Rightarrow>
          let checkpoint = NewCheckpointManager checkpointPath in
          (case restored_allocator env files checkpoint allocator0 of
             Panic e \<Rightarrow> Panic e | Err e \<Rightarrow> Err e
           | Ret allocator1 \<Rightarrow>
               (case Allocate (ne_now env) allocator1 ''gateway'' ''kube-system'' of
                  (al, Panic e) \<Rightarrow> Panic e
                | (allocator, _) \<Rightarrow>
                    let loaderCfg = \<lparr>lc_BPFMountPath = bpfMountPath, lc_ProgramDir = [], lc_PinPath = ''/sys/fs/bpf/coordino''\<rparr>;
                        dp = if fst (DetectKernelSupport (ne_bpffs env) (ne_version env) (ne_btf env))
                             then DpEBPF (NewEBPFDataPlane loaderCfg) else DpIptables (NewIptablesDataPlane loaderCfg);
                        identityAlloc = NewIdentityAllocator;
                        policyStore = NewPolicyStore (NewCompiler identityAlloc) None
                    in (case NewRoutingBackend routingMode (fmap_of_list [(''node-ip'', nodeIP)]) of
                          Panic e \<Rightarrow> Panic e
                        | Err e \<Rightarrow> Err (''failed to create routing backend: '' @ e)
                        | Ret routingBackend \<Rightarrow>
                            Ret \<lparr>ag_nodeName = nodeName, ag_nodeIP = nodeIP, ag_podCIDR = podCIDR,
                                 ag_socketPath = socketPath, ag_metricsAddr = metricsAddr,
                                 ag_bpfMountPath = bpfMountPath, ag_checkpointPath = checkpointPath,
                                 ag_routingMode = routingMode, ag_allocator = allocator,
                                 ag_checkpoint = checkpoint, ag_dp = dp,
                                 ag_encryption = NewManager \<lparr>wc_InterfaceName = ''wg0'', wc_ListenPort = 0,
                                                             wc_PrivateKeyPath = [], wc_MTU = 0\<rparr>,
                                 ag_metrics = NewCNIMetrics NewNoopRegistry,
                                 ag_tracer = NewCNITracer ''node-agent'' True,
                                 ag_hostPolicy = NewHostPolicy ''Deny'', ag_netnsManager = NewLinuxNetnsManager,
                                 ag_policyWriter = NewEBPFWriter ''/sys/fs/bpf/coordino/policy_map'',
                                 ag_policyStore = policyStore, ag_routingBackend = routingBackend,
                                 ag_podEndpoints = fmempty, ag_server = NewServer socketPath\<rparr>))))"

subsection \<open>Start and stop\<close>

text \<open>The result says whether the background loops were started.\<close>

definition start_server :: "server_env \<Rightarrow> NodeAgent \<Rightarrow> string fset \<Rightarrow> NodeAgent \<times> string fset \<times> bool \<times> unit outcome" where
  "start_server senv a sockets =
     (case server_Start senv (ag_server a) sockets of
        (s, socks, running, Ret _) \<Rightarrow> (a\<lparr>ag_server := s\<rparr>, socks, True, Ret ())
      | (s, socks, running, Err e) \<Rightarrow> (a\<lparr>ag_server := s\<rparr>, socks, False, Err (''failed to start gRPC server: '' @ e))
      | (s, socks, running, Panic e) \<Rightarrow> (a\<lparr>ag_server := s\<rparr>, socks, False, Panic e))"

definition start_routing :: "server_env \<Rightarrow> NodeAgent \<Rightarrow> string fset \<Rightarrow> NodeAgent \<times> string fset \<times> bool \<times> unit outcome" where
  "start_routing senv a sockets =
     (case rb_Init (ag_routingBackend a)
             \<lparr>ni_Name = ag_nodeName a, ni_PodCIDR = ag_podCIDR a, ni_NodeIP = ag_nodeIP a, ni_PublicIP = []\<rparr> of
        (r, Ret _) \<Rightarrow> start_server senv (a\<lparr>ag_routingBackend := r\<rparr>) sockets
      | (r, Err e) \<Rightarrow> (a\<lparr>ag_routingBackend := r\<rparr>, sockets, False, Err (''failed to init routing backend: '' @ e))
      | (r, Panic e) \<Rightarrow> (a\<lparr>ag_routingBackend := r\<rparr>, sockets, False, Panic e))"

definition agent_Start :: "server_env \<Rightarrow> NodeAgent \<Rightarrow> string fset \<Rightarrow> NodeAgent \<times> string fset \<times> bool \<times> unit outcome" where
  "agent_Start senv a sockets =
     (case dp_Init (ag_dp a) \<lparr>lc_BPFMountPath = ag_bpfMountPath a, lc_ProgramDir = [], lc_PinPath = []\<rparr> of
        (d1, Err e) \<Rightarrow> (a\<lparr>ag_dp := d1\<rparr>, sockets, False, Err (''failed to init data plane: '' @ e))
      | (d1, Panic e) \<Rightarrow> (a\<lparr>ag_dp := d1\<rparr>, sockets, False, Panic e)
      | (d1, Ret _) \<Rightarrow>
          (case dp_LoadPrograms d1 of
             (d2, Err e) \<Rightarrow> (a\<lparr>ag_dp := d2\<rparr>, sockets, False, Err (''failed to load eBPF programs: '' @ e))
           | (d2, Panic e) \<Rightarrow> (a\<lparr>ag_dp := d2\<rparr>, sockets, False, Panic e)
           | (d2, Ret _) \<Rightarrow>
               (case dp_AttachToExistingMaps d2 of
                  (d3, Panic e) \<Rightarrow> (a\<lparr>ag_dp := d3\<rparr>, sockets, False, Panic e)
                | (d3, _) \<Rightarrow> start_routing senv (a\<lparr>ag_dp := d3\<rparr>) sockets)))"

text \<open>\<^verbatim>\<open>Stop\<close>: close the socket, save the checkpoint, close routing and data plane; errors are only
  logged.\<close>

record stop_env =
  se_marshal :: "Checkpoint \<Rightarrow> string outcome"
  se_now :: gotime
  se_order :: "string list"
  se_save :: save_env
  se_server :: server_env

definition agent_Stop :: "stop_env \<Rightarrow> NodeAgent \<Rightarrow> disk \<Rightarrow> string fset \<Rightarrow> NodeAgent \<times> disk \<times> string fset" where
  "agent_Stop env a files sockets =
     (case server_Stop (se_server env) (ag_server a) sockets of (s, socks, r1) \<Rightarrow>
      case Save (se_marshal env) (se_now env) (se_order env) (se_save env) (ag_checkpoint a) (ag_allocator a) files of
        (files', r2) \<Rightarrow>
      (a\<lparr>ag_server := s, ag_routingBackend := fst (rb_Close (ag_routingBackend a)), ag_dp := fst (dp_Close (ag_dp a))\<rparr>,
       files', socks))"

subsection \<open>The calls of the handlers\<close>

definition release_ip :: "NodeAgent \<Rightarrow> string \<Rightarrow> string \<Rightarrow> NodeAgent \<times> unit outcome" where
  "release_ip a p n = (case Release (ag_allocator a) p n of (al, r) \<Rightarrow> (a\<lparr>ag_allocator := al\<rparr>, r))"

definition release_identity :: "NodeAgent \<Rightarrow> u32 \<Rightarrow> NodeAgent \<times> unit outcome" where
  "release_identity a i = (case ReleaseIdentity (ag_identityAllocator a) i of (ia, r) \<Rightarrow> (set_identityAllocator ia a, r))"

definition teardown :: "(byte list \<Rightarrow> byte list) \<Rightarrow> NodeAgent \<Rightarrow> NetnsConfig \<Rightarrow> NodeAgent \<times> unit outcome" where
  "teardown H a cfg = (case TeardownPodNetwork H (ag_netnsManager a) cfg of (m, r) \<Rightarrow> (a\<lparr>ag_netnsManager := m\<rparr>, r))"

definition remove_endpoint :: "NodeAgent \<Rightarrow> ip \<Rightarrow> NodeAgent \<times> unit outcome" where
  "remove_endpoint a p = (case dp_RemovePodEndpoint (ag_dp a) p of (d, r) \<Rightarrow> (a\<lparr>ag_dp := d\<rparr>, r))"

subsection \<open>ADD\<close>

definition add_labels :: "AddRequest \<Rightarrow> labels" where
  "add_labels req = fmap_of_list [(''coordino.io/pod-name'', ar_PodName req), (''coordino.io/ns'', ar_PodNamespace req)]
     ++\<^sub>f ar_Args req"

definition add_error :: "string \<Rightarrow> AddResponse" where
  "add_error msg = \<lparr>as_IP = [], as_Gateway = [], as_Routes = [],
     as_DNS = \<lparr>dns_Nameservers = [], dns_Domain = [], dns_Search = []\<rparr>, as_Error = msg\<rparr>"

definition add_response :: "ip \<Rightarrow> ip \<Rightarrow> AddResponse" where
  "add_response addr gw = \<lparr>as_IP = IP_String addr @ ''/24'', as_Gateway = IP_String gw,
     as_Routes = [\<lparr>rt_Dst = ''0.0.0.0/0'', rt_GW = IP_String gw\<rparr>],
     as_DNS = \<lparr>dns_Nameservers = [''8.8.8.8''], dns_Domain = [], dns_Search = []\<rparr>, as_Error = []\<rparr>"

definition add_config :: "AddRequest \<Rightarrow> ip \<Rightarrow> ip \<Rightarrow> NetnsConfig" where
  "add_config req addr gw = \<lparr>nc_ContainerID = ar_ContainerID req, nc_Netns = ar_Netns req, nc_IfName = ar_IfName req,
     nc_IP = IP_String addr @ ''/'' @ show_nat 24, nc_Gateway = IP_String gw, nc_MTU = 1500\<rparr>"

definition add_info :: "AddRequest \<Rightarrow> ip \<Rightarrow> u32 \<Rightarrow> PodEndpointInfo" where
  "add_info req addr i = \<lparr>pi_IP = addr, pi_IdentityID = i, pi_IfName = ar_IfName req, pi_Netns = ar_Netns req\<rparr>"

text \<open>Step 5 and 6: program the data plane and record the pod.\<close>

definition add_endpoint ::
  "(byte list \<Rightarrow> byte list) \<Rightarrow> gotime \<Rightarrow> (string \<Rightarrow> int option) \<Rightarrow> NodeAgent \<Rightarrow> AddRequest \<Rightarrow> u32 \<Rightarrow> ip \<Rightarrow> ip \<Rightarrow> VethPair \<Rightarrow>
   NodeAgent \<times> AddResponse outcome" where
  "add_endpoint H now ifindex a req i addr gw veth =
     (let ifIndex = case ifindex (vp_HostName veth) of None \<Rightarrow> 0 | Some x \<Rightarrow> x in
      case dp_AddPodEndpoint now (ag_dp a) addr i ifIndex of
        (d, Ret _) \<Rightarrow>
          (a\<lparr>ag_dp := d, ag_podEndpoints := fmupd (pod_key (ar_PodName req) (ar_PodNamespace req)) (add_info req addr i)
               (ag_podEndpoints a)\<rparr>, Ret (add_response addr gw))
      | (d, Panic e) \<Rightarrow> (a\<lparr>ag_dp := d\<rparr>, Panic e)
      | (d, Err e) \<Rightarrow>
          then_do (teardown H (a\<lparr>ag_dp := d\<rparr>) (add_config req addr gw)) (\<lambda>a.
          then_do (release_ip a (ar_PodName req) (ar_PodNamespace req)) (\<lambda>a.
          then_do (release_identity a i) (\<lambda>a.
            (a, Ret (add_error (''dataplane programming failed: '' @ e)))))))"

text \<open>Step 4: the pod's network.\<close>

definition add_network ::
  "(byte list \<Rightarrow> byte list) \<Rightarrow> gotime \<Rightarrow> (string \<Rightarrow> int option) \<Rightarrow> NodeAgent \<Rightarrow> AddRequest \<Rightarrow> u32 \<Rightarrow> ip \<Rightarrow> ip \<Rightarrow>
   NodeAgent \<times> AddResponse outcome" where
  "add_network H now ifindex a req i addr gw =
     (case SetupPodNetwork H (ag_netnsManager a) (add_config req addr gw) of
        (m, Ret veth) \<Rightarrow> add_endpoint H now ifindex (a\<lparr>ag_netnsManager := m\<rparr>) req i addr gw veth
      | (m, Panic e) \<Rightarrow> (a\<lparr>ag_netnsManager := m\<rparr>, Panic e)
      | (m, Err e) \<Rightarrow>
          then_do (release_ip (a\<lparr>ag_netnsManager := m\<rparr>) (ar_PodName req) (ar_PodNamespace req)) (\<lambda>a.
          then_do (release_identity a i) (\<lambda>a.
            (a, Ret (add_error (''netns setup failed: '' @ e))))))"

text \<open>Steps 2 and 3: the address and the gateway.\<close>

definition add_ip ::
  "(byte list \<Rightarrow> byte list) \<Rightarrow> gotime \<Rightarrow> (string \<Rightarrow> int option) \<Rightarrow> NodeAgent \<Rightarrow> AddRequest \<Rightarrow> u32 \<Rightarrow>
   NodeAgent \<times> AddResponse outcome" where
  "add_ip H now ifindex a req i =
     (case Allocate now (ag_allocator a) (ar_PodName req) (ar_PodNamespace req) of
        (al, Panic e) \<Rightarrow> (a\<lparr>ag_allocator := al\<rparr>, Panic e)
      | (al, Err e) \<Rightarrow>
          then_do (release_identity (a\<lparr>ag_allocator := al\<rparr>) i) (\<lambda>a.
            (a, Ret (add_error (''IP allocation failed: '' @ e))))
      | (al, Ret addr) \<Rightarrow>
          (case ParseCIDR (ag_podCIDR a) of
             Ret ipnet \<Rightarrow> add_network H now ifindex (a\<lparr>ag_allocator := al\<rparr>) req i addr (nextIP (net_ip ipnet))
           | _ \<Rightarrow> (a\<lparr>ag_allocator := al\<rparr>, Panic nil_panic)))"

definition agent_HandleAdd ::
  "(byte list \<Rightarrow> byte list) \<Rightarrow> gotime \<Rightarrow> (string \<Rightarrow> int option) \<Rightarrow> NodeAgent \<Rightarrow> AddRequest \<Rightarrow> NodeAgent \<times> AddResponse outcome" where
  "agent_HandleAdd H now ifindex a req =
     (case AllocateIdentity H (ag_identityAllocator a) (add_labels req) of
        (ia, Panic e) \<Rightarrow> (set_identityAllocator ia a, Panic e)
      | (ia, Err e) \<Rightarrow> (set_identityAllocator ia a, Ret (add_error (''identity allocation failed: '' @ e)))
      | (ia, Ret identity) \<Rightarrow> add_ip H now ifindex (set_identityAllocator ia a) req (id_ID identity))"

subsection \<open>DEL and CHECK\<close>

definition agent_HandleDel ::
  "(byte list \<Rightarrow> byte list) \<Rightarrow> NodeAgent \<Rightarrow> DelRequest \<Rightarrow> NodeAgent \<times> DelResponse outcome" where
  "agent_HandleDel H a req =
     (let podKey = pod_key (dr_PodName req) (dr_PodNamespace req) in
      case fmlookup (ag_podEndpoints a) podKey of
        None \<Rightarrow> then_do (release_ip a (dr_PodName req) (dr_PodNamespace req)) (\<lambda>a. (a, Ret \<lparr>ds_Error = []\<rparr>))
      | Some info \<Rightarrow>
          then_do (remove_endpoint a (pi_IP info)) (\<lambda>a.
          then_do (teardown H a \<lparr>nc_ContainerID = dr_ContainerID req, nc_Netns = pi_Netns info, nc_IfName = pi_IfName info,
                               nc_IP = [], nc_Gateway = [], nc_MTU = 0\<rparr>) (\<lambda>a.
          then_do (release_ip a (dr_PodName req) (dr_PodNamespace req)) (\<lambda>a.
          then_do (release_identity a (pi_IdentityID info)) (\<lambda>a.
            (a\<lparr>ag_podEndpoints := fmdrop podKey (ag_podEndpoints a)\<rparr>, Ret \<lparr>ds_Error = []\<rparr>))))))"

definition agent_HandleCheck ::
  "(byte list \<Rightarrow> byte list) \<Rightarrow> NodeAgent \<Rightarrow> CheckRequest \<Rightarrow> CheckResponse outcome" where
  "agent_HandleCheck H a req =
     (case fmlookup (ag_podEndpoints a) (pod_key (cq_PodName req) (cq_PodNamespace req)) of
        None \<Rightarrow> Ret \<lparr>cs_OK = False, cs_Error = ''pod not found in local state''\<rparr>
      | Some info \<Rightarrow>
          (case CheckPodNetwork H (ag_netnsManager a)
                  \<lparr>nc_ContainerID = cq_ContainerID req, nc_Netns = pi_Netns info, nc_IfName = pi_IfName info,
                   nc_IP = [], nc_Gateway = [], nc_MTU = 0\<rparr> of
             Ret _ \<Rightarrow> Ret \<lparr>cs_OK = True, cs_Error = []\<rparr>
           | Err e \<Rightarrow> Ret \<lparr>cs_OK = False, cs_Error = e\<rparr>
           | Panic e \<Rightarrow> Panic e))"

text \<open>The handler the server of the agent is given.\<close>

definition NodeAgentHandler ::
  "(byte list \<Rightarrow> byte list) \<Rightarrow> gotime \<Rightarrow> (string \<Rightarrow> int option) \<Rightarrow> NodeAgent RequestHandler" where
  "NodeAgentHandler H now ifindex =
     \<lparr>HandleAdd = agent_HandleAdd H now ifindex, HandleDel = agent_HandleDel H,
      HandleCheck = (\<lambda>a req. (a, agent_HandleCheck H a req))\<rparr>"

subsection \<open>Reconciliation\<close>

text \<open>The choices the runtime and the system make in one reconciliation.\<close>

record reconcile_env =
  rc_now :: gotime
  rc_alloc_order :: "string list"
  rc_endpoint_order :: "string list"
  rc_save_order :: "string list"
  rc_marshal :: "Checkpoint \<Rightarrow> string outcome"
  rc_save :: save_env

definition gateway_key :: string where
  "gateway_key = ''gateway/kube-system''"

definition active_pods :: "NodeAgent \<Rightarrow> (string, bool) fmap" where
  "active_pods a = fmupd gateway_key True (fmmap (\<lambda>_. True) (ag_podEndpoints a))"

fun program_endpoints ::
  "gotime \<Rightarrow> (string, PodEndpointInfo) fmap \<Rightarrow> string list \<Rightarrow> DataPlane \<Rightarrow> DataPlane \<times> unit outcome" where
  "program_endpoints now eps [] d = (d, Ret ())"
| "program_endpoints now eps (k # ks) d =
     (case fmlookup eps k of
        None \<Rightarrow> program_endpoints now eps ks d
      | Some info \<Rightarrow>
          then_do (dp_AddPodEndpoint now d (pi_IP info) (pi_IdentityID info) 0) (program_endpoints now eps ks))"

definition sync_policy :: "NodeAgent \<Rightarrow> NodeAgent \<times> unit outcome" where
  "sync_policy a =
     (case GetCompiledPolicy (ag_policyStore a) of
        None \<Rightarrow> (a, Ret ())
      | Some compiled \<Rightarrow>
          (case SyncPolicyMap (ag_policyWriter a) (CompileRulesToMapEntries (ag_policyWriter a) (cpol_Rules compiled)) of
             (w, Ret _) \<Rightarrow> (a\<lparr>ag_policyWriter := w\<rparr>, Ret ())
           | (w, Err e) \<Rightarrow> (a\<lparr>ag_policyWriter := w,
                ag_metrics := (ag_metrics a)\<lparr>BPFMapWriteErrors := counter_Inc (BPFMapWriteErrors (ag_metrics a))\<rparr>\<rparr>, Ret ())
           | (w, Panic e) \<Rightarrow> (a\<lparr>ag_policyWriter := w\<rparr>, Panic e)))"

definition agent_reconcile :: "reconcile_env \<Rightarrow> NodeAgent \<Rightarrow> disk \<Rightarrow> (NodeAgent \<times> disk) \<times> unit outcome" where
  "agent_reconcile env a files =
     (case Reconcile (rc_alloc_order env) (ag_allocator a) (active_pods a) of
        (al, Panic e) \<Rightarrow> ((a\<lparr>ag_allocator := al\<rparr>, files), Panic e)
      | (al, _) \<Rightarrow>
     (case program_endpoints (rc_now env) (ag_podEndpoints a) (rc_endpoint_order env) (ag_dp a) of
        (d, Panic e) \<Rightarrow> ((a\<lparr>ag_allocator := al, ag_dp := d\<rparr>, files), Panic e)
      | (d, _) \<Rightarrow>
     (case sync_policy (a\<lparr>ag_allocator := al, ag_dp := d\<rparr>) of
        (a1, Panic e) \<Rightarrow> ((a1, files), Panic e)
      | (a1, _) \<Rightarrow>
     (case Save (rc_marshal env) (rc_now env) (rc_save_order env) (rc_save env) (ag_checkpoint a1) (ag_allocator a1) files of
        (files', Panic e) \<Rightarrow> ((a1, files'), Panic e)
      | (files', _) \<Rightarrow>
          ((a1\<lparr>ag_metrics := (ag_metrics a1)\<lparr>IPAMBlockUtilization :=
                 gauge_Set (IPAMBlockUtilization (ag_metrics a1)) (Utilization (ag_allocator a1))\<rparr>\<rparr>, files'), Ret ())))))"

text \<open>The reconciliation loop: a tick reconciles, the end of the context ends it.\<close>

datatype loop_event = Tick reconcile_env | CtxDone

fun reconciliationLoop :: "NodeAgent \<times> disk \<Rightarrow> loop_event list \<Rightarrow> (NodeAgent \<times> disk) \<times> unit outcome" where
  "reconciliationLoop s [] = (s, Ret ())"
| "reconciliationLoop s (CtxDone # es) = (s, Ret ())"
| "reconciliationLoop s (Tick env # es) =
     (case agent_reconcile env (fst s) (snd s) of
        (s', Panic e) \<Rightarrow> (s', Panic e)
      | (s', _) \<Rightarrow> reconciliationLoop s' es)"

text \<open>The HTTP server: the answers of its handlers, by the pattern they are registered for. They do not
  read the agent's state; a failure to listen is only logged.\<close>

definition agent_http :: "(string \<times> nat \<times> string) list" where
  "agent_http = [(''/metrics'', 200, ''# Metrics stub''), (''/healthz'', 200, ''OK'')]"

subsection \<open>The program\<close>

text \<open>\<^verbatim>\<open>main\<close> up to the wait for a signal: the required flags, construction, start. A fatal log line is
  an error.\<close>

definition agent_main ::
  "new_env \<Rightarrow> server_env \<Rightarrow> disk \<Rightarrow> string fset \<Rightarrow> string \<Rightarrow> string \<Rightarrow> string \<Rightarrow> string \<Rightarrow> string \<Rightarrow> string \<Rightarrow> string \<Rightarrow> string \<Rightarrow>
   NodeAgent outcome" where
  "agent_main env senv files sockets nodeName nodeIP podCIDR socketPath metricsAddr bpfMountPath checkpointPath routingMode =
     (if nodeName = [] then Err ''--node-name is required''
      else if nodeIP = [] then Err ''--node-ip is required''
      else case NewNodeAgent env files nodeName nodeIP podCIDR socketPath metricsAddr bpfMountPath checkpointPath routingMode of
             Panic e \<Rightarrow> Panic e
           | Err e \<Rightarrow> Err (''Failed to initialize NodeAgent: '' @ e)
           | Ret agent \<Rightarrow>
               (case agent_Start senv agent sockets of
                  (a, socks, loops, Ret _) \<Rightarrow> Ret a
                | (a, socks, loops, Err e) \<Rightarrow> Err (''Failed to start NodeAgent: '' @ e)
                | (a, socks, loops, Panic e) \<Rightarrow> Panic e))"

end
