(* ===== verification/AgentSafety.thy ===== *)
theory AgentSafety
  imports NodeAgent
begin

text \<open>
  What the node agent guarantees: the invariant of its state under all requests and reconciliations,
  the exact effect and the rollback of ADD, ADD undone by DEL, the effect of a reconciliation, and
  what happens across a restart. The lemmas rest on the contracts of the components: the address
  pool of \<open>Ipam\<close> (\<open>pool\<close>), the endpoint table of \<open>Dataplane\<close> (\<open>dataplane\<close>) and the reference counts of
  \<open>Identity\<close>.
\<close>

subsection \<open>Frames\<close>

lemma identityAllocator_set [simp]:
  "ag_identityAllocator (set_identityAllocator ia a) = ia"
  "set_identityAllocator (ag_identityAllocator a) a = a"
  "set_identityAllocator ib (set_identityAllocator ia a) = set_identityAllocator ib a"
  by (simp_all add: ag_identityAllocator_def set_identityAllocator_def)

lemma identityAllocator_frame [simp]:
  "ag_identityAllocator (a\<lparr>ag_allocator := al\<rparr>) = ag_identityAllocator a"
  "ag_identityAllocator (a\<lparr>ag_dp := d\<rparr>) = ag_identityAllocator a"
  "ag_identityAllocator (a\<lparr>ag_netnsManager := m\<rparr>) = ag_identityAllocator a"
  "ag_identityAllocator (a\<lparr>ag_podEndpoints := eps\<rparr>) = ag_identityAllocator a"
  "ag_identityAllocator (a\<lparr>ag_metrics := ms\<rparr>) = ag_identityAllocator a"
  "ag_identityAllocator (a\<lparr>ag_policyWriter := w\<rparr>) = ag_identityAllocator a"
  by (simp_all add: ag_identityAllocator_def)

lemma set_identityAllocator_frame [simp]:
  "ag_allocator (set_identityAllocator ia a) = ag_allocator a"
  "ag_dp (set_identityAllocator ia a) = ag_dp a"
  "ag_netnsManager (set_identityAllocator ia a) = ag_netnsManager a"
  "ag_podEndpoints (set_identityAllocator ia a) = ag_podEndpoints a"
  "ag_podCIDR (set_identityAllocator ia a) = ag_podCIDR a"
  "ag_checkpoint (set_identityAllocator ia a) = ag_checkpoint a"
  "ag_hostPolicy (set_identityAllocator ia a) = ag_hostPolicy a"
  "ag_encryption (set_identityAllocator ia a) = ag_encryption a"
  "ag_routingBackend (set_identityAllocator ia a) = ag_routingBackend a"
  "ps_compiled (ag_policyStore (set_identityAllocator ia a)) = ps_compiled (ag_policyStore a)"
  "ps_policies (ag_policyStore (set_identityAllocator ia a)) = ps_policies (ag_policyStore a)"
  by (simp_all add: set_identityAllocator_def)

lemma set_identityAllocator_commute [simp]:
  "(set_identityAllocator ia a)\<lparr>ag_allocator := al\<rparr> = set_identityAllocator ia (a\<lparr>ag_allocator := al\<rparr>)"
  "(set_identityAllocator ia a)\<lparr>ag_dp := d\<rparr> = set_identityAllocator ia (a\<lparr>ag_dp := d\<rparr>)"
  "(set_identityAllocator ia a)\<lparr>ag_netnsManager := m\<rparr> = set_identityAllocator ia (a\<lparr>ag_netnsManager := m\<rparr>)"
  "(set_identityAllocator ia a)\<lparr>ag_podEndpoints := eps\<rparr> = set_identityAllocator ia (a\<lparr>ag_podEndpoints := eps\<rparr>)"
  by (simp_all add: set_identityAllocator_def)

subsection \<open>Calls that cannot panic\<close>

lemma ReleaseIdentity_no_panic: "snd (ReleaseIdentity ia i) \<noteq> Panic e"
  by (simp add: ReleaseIdentity_def Let_def split: option.split)

lemma then_do_no_panic: "(\<And>e. snd r \<noteq> Panic e) \<Longrightarrow> then_do r k = k (fst r)"
  by (cases r; cases "snd r") auto

lemma release_identity_then [simp]:
  "then_do (release_identity a i) k = k (set_identityAllocator (fst (ReleaseIdentity (ag_identityAllocator a) i)) a)"
proof -
  have "snd (release_identity a i) \<noteq> Panic e" for e
    using ReleaseIdentity_no_panic by (simp add: release_identity_def case_prod_beta)
  then have "then_do (release_identity a i) k = k (fst (release_identity a i))" by (rule then_do_no_panic)
  then show ?thesis by (simp add: release_identity_def case_prod_beta)
qed

lemma release_ip_then:
  assumes "alloc_inv (ag_allocator a)"
  shows "then_do (release_ip a p n) k = k (a\<lparr>ag_allocator := fst (Release (ag_allocator a) p n)\<rparr>)"
proof -
  have "snd (release_ip a p n) = Ret ()"
    using pool.give_back_total [OF assms, of p n] by (simp add: release_ip_def case_prod_beta)
  then have "then_do (release_ip a p n) k = k (fst (release_ip a p n))" by (intro then_do_no_panic) simp
  then show ?thesis by (simp add: release_ip_def case_prod_beta)
qed

lemma nl_no_panic:
  "snd (nl_CreateVethPair s x y) \<noteq> Panic e" "snd (nl_MoveToNetns s x y) \<noteq> Panic e"
  "snd (nl_AddAddress s x y) \<noteq> Panic e" "snd (nl_SetInterfaceUp s x) \<noteq> Panic e"
  "snd (nl_AddRoute s x y z) \<noteq> Panic e" "snd (nl_SetMTU s x i) \<noteq> Panic e"
  "snd (nl_DeleteLink s x) \<noteq> Panic e" "nl_GetMAC s x \<noteq> Panic e"
  by (cases s; auto simp: sim_CreateVethPair_def sim_MoveToNetns_def sim_AddAddress_def sim_SetInterfaceUp_def sim_AddRoute_def
      sim_SetMTU_def sim_DeleteLink_def sim_GetMAC_def sim_modify_def recordOp_def Let_def split: option.splits prod.splits outcome.splits)+

lemma and_then_no_panic:
  "(\<And>e. snd r \<noteq> Panic e) \<Longrightarrow> (\<And>s e. snd (k s) \<noteq> Panic e) \<Longrightarrow> snd (and_then r msg k) \<noteq> Panic e"
  by (cases r; cases "snd r") (auto simp: and_then_def)

lemma setup_MACs_no_panic: "setup_MACs s h p \<noteq> Panic e"
  using nl_no_panic(8) by (auto simp: setup_MACs_def split: outcome.splits)

lemma setup_steps_no_panic: "snd (setup_steps c h p s) \<noteq> Panic e"
  unfolding setup_steps_def
  by (intro and_then_no_panic) (auto simp: nl_no_panic setup_MACs_no_panic)

lemma SetupPodNetwork_no_panic: "snd (SetupPodNetwork H l c) \<noteq> Panic e"
proof -
  let ?h = "generateHostVethName H l (nc_ContainerID c)"
  obtain s r where s: "nl_CreateVethPair (lm_nl l) ?h (nc_IfName c) = (s, r)" by fastforce
  obtain s' r' where s': "setup_steps c ?h (nc_IfName c) s = (s', r')" by fastforce
  have "r \<noteq> Panic x" "r' \<noteq> Panic x" for x
    using nl_no_panic(1) [of "lm_nl l" ?h "nc_IfName c" x] setup_steps_no_panic [of c ?h "nc_IfName c" s x] s s' by simp_all
  then show ?thesis using s s' by (cases r; cases r') (simp_all add: SetupPodNetwork_def Let_def)
qed

lemma SetupPodNetwork_Real:
  assumes "lm_nl l = RealNetlinkOperator"
  shows "\<exists>v. SetupPodNetwork H l c = (l, Ret v)"
proof -
  have "l\<lparr>lm_nl := RealNetlinkOperator\<rparr> = l" using assms by (cases l) simp
  then show ?thesis using assms
    by (simp add: SetupPodNetwork_def Let_def setup_steps_def and_then_def setup_MACs_def)
qed

lemma TeardownPodNetwork_Real: "lm_nl l = RealNetlinkOperator \<Longrightarrow> TeardownPodNetwork H l c = (l, Ret ())"
  by (cases l) (simp add: TeardownPodNetwork_def Let_def)

subsection \<open>The course of an ADD\<close>

lemma held_v4:
  assumes "alloc_inv al" and "fmlookup (GetAllocatedIPs al) k = Some x"
  shows "To4 x \<noteq> []"
proof -
  obtain r where r: "fmlookup (na_allocated al) k = Some r" "x = rec_IP r"
    using assms(2) by (auto simp: lookup_GetAllocatedIPs)
  have "To4 (ip_at al i) \<noteq> []" for i by (simp add: ip_at_def To4_uint32ToIP)
  then show ?thesis using alloc_inv_record(2) [OF assms(1) r(1)] r(2) by metis
qed

lemma HandleAdd_cases [consumes 4, case_names full netns added]:
  assumes "alloc_inv (ag_allocator a)" and "identity_ok H X c (ag_identityAllocator a)" and "c + 2 < 2 ^ 32"
    and "ParseCIDR (ag_podCIDR a) = Ret ipnet"
  obtains ia d e where
      "AllocateIdentity H (ag_identityAllocator a) (add_labels req) = (ia, Ret d)"
      "fmlookup (GetAllocatedIPs (ag_allocator a)) (pod_key (ar_PodName req) (ar_PodNamespace req)) = None"
      "agent_HandleAdd H now ifx a req =
         (set_identityAllocator (fst (ReleaseIdentity ia (id_ID d))) a, Ret (add_error (''IP allocation failed: '' @ e)))"
  | ia d al addr m e where
      "AllocateIdentity H (ag_identityAllocator a) (add_labels req) = (ia, Ret d)"
      "Allocate now (ag_allocator a) (ar_PodName req) (ar_PodNamespace req) = (al, Ret addr)"
      "SetupPodNetwork H (ag_netnsManager a) (add_config req addr (nextIP (net_ip ipnet))) = (m, Err e)"
      "agent_HandleAdd H now ifx a req =
         (set_identityAllocator (fst (ReleaseIdentity ia (id_ID d)))
            (a\<lparr>ag_netnsManager := m, ag_allocator := fst (Release al (ar_PodName req) (ar_PodNamespace req))\<rparr>),
          Ret (add_error (''netns setup failed: '' @ e)))"
  | ia d al addr m v x where
      "AllocateIdentity H (ag_identityAllocator a) (add_labels req) = (ia, Ret d)"
      "Allocate now (ag_allocator a) (ar_PodName req) (ar_PodNamespace req) = (al, Ret addr)"
      "SetupPodNetwork H (ag_netnsManager a) (add_config req addr (nextIP (net_ip ipnet))) = (m, Ret v)"
      "To4 addr \<noteq> []"
      "agent_HandleAdd H now ifx a req =
         (set_identityAllocator ia
            (a\<lparr>ag_allocator := al, ag_netnsManager := m, ag_dp := fst (dp_AddPodEndpoint now (ag_dp a) addr (id_ID d) x),
               ag_podEndpoints := fmupd (pod_key (ar_PodName req) (ar_PodNamespace req)) (add_info req addr (id_ID d))
                 (ag_podEndpoints a)\<rparr>),
          Ret (add_response addr (nextIP (net_ip ipnet))))"
proof -
  obtain ia d where i: "AllocateIdentity H (ag_identityAllocator a) (add_labels req) = (ia, Ret d)"
    by (rule AllocateIdentity_Ret [OF assms(2,3)])
  let ?p = "ar_PodName req" and ?n = "ar_PodNamespace req" and ?gw = "nextIP (net_ip ipnet)"
  show ?thesis using assms(1)
  proof (cases rule: pool.acquire_result [of _ now ?p ?n])
    case (err e)
    then show ?thesis using i by (intro that(1) [of ia d e]) (simp_all add: agent_HandleAdd_def add_ip_def)
  next
    case (ok al addr)
    have v4: "To4 addr \<noteq> []" using held_v4 [OF ok(2), of "pod_key ?p ?n"] ok(3) by simp
    obtain m r where m: "SetupPodNetwork H (ag_netnsManager a) (add_config req addr ?gw) = (m, r)" by fastforce
    show ?thesis
    proof (cases r)
      case (Panic e)
      then show ?thesis using m SetupPodNetwork_no_panic [of H "ag_netnsManager a"] by (metis snd_conv)
    next
      case (Err e)
      then show ?thesis using i ok(1,2) m assms(4)
        by (intro that(2) [of ia d al addr m e]) (simp_all add: agent_HandleAdd_def add_ip_def add_network_def release_ip_then)
    next
      case (Ret v)
      let ?x = "case ifx (vp_HostName v) of None \<Rightarrow> 0 | Some x \<Rightarrow> x"
      have "snd (dp_AddPodEndpoint now (ag_dp a) addr (id_ID d) ?x) = Ret ()" using dataplane.add_v4 [OF v4] by blast
      then show ?thesis using i ok(1,2) m assms(4) v4 Ret
        by (intro that(3) [of ia d al addr m v ?x])
           (simp_all add: agent_HandleAdd_def add_ip_def add_network_def add_endpoint_def Let_def case_prod_beta)
    qed
  qed
qed

subsection \<open>The state a handler starts from\<close>

text \<open>The components are in states their operations reach, and the block's text is the one the
  allocator was made from.\<close>

definition agent_base :: "(byte list \<Rightarrow> byte list) \<Rightarrow> labels set \<Rightarrow> nat \<Rightarrow> NodeAgent \<Rightarrow> bool" where
  "agent_base H X c a \<longleftrightarrow> alloc_inv (ag_allocator a) \<and> identity_ok H X c (ag_identityAllocator a) \<and>
     ParseCIDR (ag_podCIDR a) = Ret (na_PodCIDR (ag_allocator a))"

lemma agent_baseD:
  assumes "agent_base H X c a"
  shows "alloc_inv (ag_allocator a)" "identity_ok H X c (ag_identityAllocator a)"
    "ParseCIDR (ag_podCIDR a) = Ret (na_PodCIDR (ag_allocator a))"
  using assms by (simp_all add: agent_base_def)

definition add_key :: "AddRequest \<Rightarrow> string" where
  "add_key req = pod_key (ar_PodName req) (ar_PodNamespace req)"

lemma fresh_pair_config: "fresh_pair H l s (add_config req x y) \<longleftrightarrow> fresh_pair H l s (add_config req [] [])"
  by (simp add: fresh_pair_def add_config_def)

lemma SetupPodNetwork_failed_links:
  assumes "fresh_pair H l s cfg" and "SetupPodNetwork H l cfg = (m, Err e)"
  shows "\<exists>s'. lm_nl m = SimNetlinkOperator s' \<and> sim_Links s' = sim_Links s"
  using assms(1)
proof (cases rule: SetupPodNetwork_cases)
  case (failed e s')
  then have "m = l\<lparr>lm_nl := SimNetlinkOperator s'\<rparr>" using assms(2) by simp
  then show ?thesis using failed(3) by simp
qed (use assms(2) in simp)

lemma ADD_rollback:
  assumes base: "agent_base H X c a" and X: "collision_free H X" "c + 3 < 2 ^ 32" "add_labels req \<in> X" "ms \<in> X"
    and new: "fmlookup (GetAllocatedIPs (ag_allocator a)) (add_key req) = None"
    and add: "agent_HandleAdd H now ifx a req = (a', Ret resp)" "as_Error resp \<noteq> []"
  shows "GetAllocatedIPs (ag_allocator a') = GetAllocatedIPs (ag_allocator a)"
    and "refs H (ag_identityAllocator a') ms = refs H (ag_identityAllocator a) ms"
    and "ag_podEndpoints a' = ag_podEndpoints a \<and> ag_dp a' = ag_dp a"
    and "fresh_pair H (ag_netnsManager a) s (add_config req [] []) \<Longrightarrow>
         \<exists>s'. lm_nl (ag_netnsManager a') = SimNetlinkOperator s' \<and> sim_Links s' = sim_Links s"
proof -
  have c: "c + 2 < 2 ^ 32" using X(2) by simp
  note B = agent_baseD [OF base]
  have "GetAllocatedIPs (ag_allocator a') = GetAllocatedIPs (ag_allocator a) \<and>
    refs H (ag_identityAllocator a') ms = refs H (ag_identityAllocator a) ms \<and>
    ag_podEndpoints a' = ag_podEndpoints a \<and> ag_dp a' = ag_dp a \<and>
    (fresh_pair H (ag_netnsManager a) s (add_config req [] []) \<longrightarrow>
      (\<exists>s'. lm_nl (ag_netnsManager a') = SimNetlinkOperator s' \<and> sim_Links s' = sim_Links s))"
    using B(1,2) c B(3)
  proof (cases rule: HandleAdd_cases [of a H X c _ req now ifx])
    case (full ia d e)
    then show ?thesis using add(1) refs_rollback [OF X(1) B(2) X(2-4) full(1)]
      by (auto simp: fresh_pair_def)
  next
    case (netns ia d al addr m e)
    have links: "\<exists>s'. lm_nl m = SimNetlinkOperator s' \<and> sim_Links s' = sim_Links s"
      if "fresh_pair H (ag_netnsManager a) s (add_config req [] [])"
      using SetupPodNetwork_failed_links netns(3) that fresh_pair_config by blast
    show ?thesis using netns(4) add(1) refs_rollback [OF X(1) B(2) X(2-4) netns(1)]
        pool.rollback [OF B(1) new [unfolded add_key_def] netns(2)] links by auto
  next
    case (added ia d al addr m v x)
    then show ?thesis using add by (simp add: add_response_def)
  qed
  then show "GetAllocatedIPs (ag_allocator a') = GetAllocatedIPs (ag_allocator a)"
    "refs H (ag_identityAllocator a') ms = refs H (ag_identityAllocator a) ms"
    "ag_podEndpoints a' = ag_podEndpoints a \<and> ag_dp a' = ag_dp a"
    "fresh_pair H (ag_netnsManager a) s (add_config req [] []) \<Longrightarrow>
         \<exists>s'. lm_nl (ag_netnsManager a') = SimNetlinkOperator s' \<and> sim_Links s' = sim_Links s"
    by blast+
qed

subsection \<open>Counting\<close>

text \<open>The references of an identity number, and the pods that carry it.\<close>

definition live_refs :: "IdentityAllocator \<Rightarrow> u32 \<Rightarrow> nat" where
  "live_refs ia i = (case GetIdentity ia i of None \<Rightarrow> 0 | Some d \<Rightarrow> nat (id_RefCount d))"

definition pod_set :: "(string, PodEndpointInfo) fmap \<Rightarrow> u32 \<Rightarrow> string set" where
  "pod_set eps i = {k. map_option pi_IdentityID (fmlookup eps k) = Some i}"

definition pods_with :: "(string, PodEndpointInfo) fmap \<Rightarrow> u32 \<Rightarrow> nat" where
  "pods_with eps i = card (pod_set eps i)"

lemma live_refs_Allocate:
  assumes "identity_ok H X c ia" and "c + 2 < 2 ^ 32" and "AllocateIdentity H ia ls = (ib, Ret d)"
  shows "live_refs ib i = live_refs ia i + (if i = id_ID d then 1 else 0)"
proof -
  from assms(2) have "c < 2 ^ 62" by simp
  with assms(1) show ?thesis
  proof (cases rule: AllocateIdentity_cases [of H X c ia ls])
    case (old e)
    then show ?thesis using assms(3) identity_okD(5) [OF assms(1) old(2)]
      by (auto simp: live_refs_def GetIdentity_def put_identity_def nat_add_distrib)
  next
    case new
    have "fmlookup (ia_identities ia) (ia_nextID ia) = None"
      using identity_okD(8) [OF assms(1), of "ia_nextID ia"] by (cases "fmlookup (ia_identities ia) (ia_nextID ia)") auto
    then show ?thesis using new assms(3)
      by (auto simp: live_refs_def GetIdentity_def add_identity_def new_identity_def)
  qed
qed

lemma live_refs_Release:
  assumes "identity_ok H X c ia" and "c + 2 < 2 ^ 32"
  shows "live_refs (fst (ReleaseIdentity ia j)) i = live_refs ia i - (if i = j then 1 else 0)"
proof -
  from assms(2) have "c < 2 ^ 62" by simp
  with assms(1) show ?thesis
  proof (cases rule: ReleaseIdentity_cases [of H X c ia j])
    case absent
    then show ?thesis by (simp add: live_refs_def GetIdentity_def)
  next
    case (last d)
    then show ?thesis using identity_okD(1) [OF assms(1) last(1)]
      by (auto simp: live_refs_def GetIdentity_def drop_identity_def)
  next
    case (more d)
    then show ?thesis using identity_okD(1) [OF assms(1) more(1)]
      by (auto simp: live_refs_def GetIdentity_def put_identity_def nat_diff_distrib')
  qed
qed

lemma finite_pod_set [simp]: "finite (pod_set eps i)"
proof (rule finite_subset)
  show "pod_set eps i \<subseteq> fset (fmdom eps)" by (auto simp: pod_set_def intro: fmdomI)
qed simp

lemma pods_with_upd: "pods_with (fmupd k info eps) i \<le> pods_with eps i + (if i = pi_IdentityID info then 1 else 0)"
proof -
  have sub: "pod_set (fmupd k info eps) i \<subseteq> (if i = pi_IdentityID info then insert k (pod_set eps i) else pod_set eps i)"
    by (auto simp: pod_set_def split: if_splits)
  show ?thesis
  proof (cases "i = pi_IdentityID info")
    case True
    with sub have "pods_with (fmupd k info eps) i \<le> card (insert k (pod_set eps i))"
      unfolding pods_with_def by (intro card_mono) simp_all
    with True show ?thesis by (simp add: pods_with_def card_insert_if split: if_splits)
  next
    case False
    with sub show ?thesis unfolding pods_with_def by (simp add: card_mono)
  qed
qed

lemma pods_with_drop:
  assumes "fmlookup eps k = Some info"
  shows "pods_with (fmdrop k eps) i = pods_with eps i - (if i = pi_IdentityID info then 1 else 0)"
proof -
  have "pod_set (fmdrop k eps) i = pod_set eps i - {k}" by (auto simp: pod_set_def)
  moreover have "k \<in> pod_set eps i \<longleftrightarrow> i = pi_IdentityID info" using assms by (auto simp: pod_set_def)
  ultimately show ?thesis by (simp add: pods_with_def card_Diff_singleton_if)
qed

subsection \<open>The invariant of the agent\<close>

definition tracked_ok :: "NodeAllocator \<Rightarrow> DataPlane \<Rightarrow> string \<Rightarrow> PodEndpointInfo \<Rightarrow> bool" where
  "tracked_ok al d k info \<longleftrightarrow> fmlookup (GetAllocatedIPs al) k = Some (pi_IP info) \<and>
     map_option ep_IdentityID (fmlookup (dp_endpoints d) (IP_String (pi_IP info))) = Some (pi_IdentityID info)"

text \<open>Every endpoint of the data plane is the one of a tracked pod.\<close>

definition no_stale :: "(string, PodEndpointInfo) fmap \<Rightarrow> DataPlane \<Rightarrow> bool" where
  "no_stale eps d \<longleftrightarrow> (\<forall>s. fmlookup (dp_endpoints d) s \<noteq> None \<longrightarrow>
     (\<exists>k info. fmlookup eps k = Some info \<and> s = IP_String (pi_IP info)))"

lemma no_staleI:
  "(\<And>s. fmlookup (dp_endpoints d) s \<noteq> None \<Longrightarrow> \<exists>k info. fmlookup eps k = Some info \<and> s = IP_String (pi_IP info)) \<Longrightarrow> no_stale eps d"
  by (simp add: no_stale_def)

lemma no_staleE:
  assumes "no_stale eps d" and "fmlookup (dp_endpoints d) s \<noteq> None"
  obtains k info where "fmlookup eps k = Some info" "s = IP_String (pi_IP info)"
  using assms by (auto simp: no_stale_def)

definition agent_ok :: "(byte list \<Rightarrow> byte list) \<Rightarrow> labels set \<Rightarrow> nat \<Rightarrow> NodeAgent \<Rightarrow> bool" where
  "agent_ok H X c a \<longleftrightarrow> agent_base H X c a \<and> lm_nl (ag_netnsManager a) = RealNetlinkOperator \<and>
     (\<forall>k info. fmlookup (ag_podEndpoints a) k = Some info \<longrightarrow> tracked_ok (ag_allocator a) (ag_dp a) k info) \<and>
     (\<forall>i. pods_with (ag_podEndpoints a) i \<le> live_refs (ag_identityAllocator a) i) \<and>
     no_stale (ag_podEndpoints a) (ag_dp a)"

lemma agent_okD:
  assumes "agent_ok H X c a"
  shows "agent_base H X c a" "lm_nl (ag_netnsManager a) = RealNetlinkOperator"
    "\<And>k info. fmlookup (ag_podEndpoints a) k = Some info \<Longrightarrow> tracked_ok (ag_allocator a) (ag_dp a) k info"
    "\<And>i. pods_with (ag_podEndpoints a) i \<le> live_refs (ag_identityAllocator a) i"
    "no_stale (ag_podEndpoints a) (ag_dp a)"
  using assms by (simp_all add: agent_ok_def)

lemma held_string_inj:
  assumes "alloc_inv al" "fmlookup (GetAllocatedIPs al) k = Some x" "fmlookup (GetAllocatedIPs al) k' = Some y"
    and "IP_String x = IP_String y"
  shows "k = k'"
proof -
  have "\<exists>i. z = ip_at al i" if "fmlookup (GetAllocatedIPs al) l = Some z" for l z
    using that alloc_inv_record(2) [OF assms(1), of l] by (fastforce simp: lookup_GetAllocatedIPs)
  then obtain i j where "x = ip_at al i" "y = ip_at al j" using assms(2,3) by blast
  with assms(4) have "x = y" by (simp add: ip_at_def)
  with assms(2,3) show ?thesis using held_unique [OF assms(1)] by blast
qed

lemma identity_ok_weaken: "identity_ok H X c ia \<Longrightarrow> c \<le> c' \<Longrightarrow> identity_ok H X c' ia"
  by (rule identity_ok_mono [OF _ _ subset_refl])

lemma tracked_ok_add:
  assumes inv: "alloc_inv al0" and al: "Allocate now al0 p n = (al, Ret addr)" and v4: "To4 addr \<noteq> []"
    and old: "\<And>k info. fmlookup eps k = Some info \<Longrightarrow> tracked_ok al0 d k info"
    and info: "pi_IP info = addr" "pi_IdentityID info = i"
    and k: "fmlookup (fmupd (pod_key p n) info eps) k = Some info'"
  shows "tracked_ok al (fst (dp_AddPodEndpoint now d addr i x)) k info'"
proof -
  have held: "GetAllocatedIPs al = fmupd (pod_key p n) addr (GetAllocatedIPs al0)" by (rule pool.acquire_held [OF inv al])
  have inv': "alloc_inv al" using Allocate_inv [OF inv, of now p n] al by simp
  have dp: "dp_endpoints (fst (dp_AddPodEndpoint now d addr i x)) = fmupd (IP_String addr) (new_entry now addr i x) (dp_endpoints d)"
    using dataplane.add_v4 [OF v4] by blast
  show ?thesis
  proof (cases "k = pod_key p n")
    case True
    then show ?thesis using k info held dp by (simp add: tracked_ok_def new_entry_def)
  next
    case False
    then have t: "tracked_ok al0 d k info'" using k old by simp
    then have h: "fmlookup (GetAllocatedIPs al) k = Some (pi_IP info')" using held False by (simp add: tracked_ok_def)
    have "IP_String (pi_IP info') \<noteq> IP_String addr"
      using held_string_inj [OF inv' h, of "pod_key p n" addr] held False by auto
    then show ?thesis using t h dp by (simp add: tracked_ok_def)
  qed
qed

lemma no_stale_add:
  assumes inv: "alloc_inv al0" and al: "Allocate now al0 p n = (al, Ret addr)" and v4: "To4 addr \<noteq> []"
    and held: "\<And>k info. fmlookup eps k = Some info \<Longrightarrow> fmlookup (GetAllocatedIPs al0) k = Some (pi_IP info)"
    and st: "no_stale eps d" and info: "pi_IP info = addr"
  shows "no_stale (fmupd (pod_key p n) info eps) (fst (dp_AddPodEndpoint now d addr i x))"
proof (rule no_staleI)
  fix s assume s: "fmlookup (dp_endpoints (fst (dp_AddPodEndpoint now d addr i x))) s \<noteq> None"
  show "\<exists>k j. fmlookup (fmupd (pod_key p n) info eps) k = Some j \<and> s = IP_String (pi_IP j)"
  proof (cases "s = IP_String addr")
    case True
    then show ?thesis using info by (intro exI [of _ "pod_key p n"] exI [of _ info]) simp
  next
    case False
    with s have "fmlookup (dp_endpoints d) s \<noteq> None" using dataplane.add_v4 [OF v4, of now d i x] by simp
    then obtain k j where k: "fmlookup eps k = Some j" "s = IP_String (pi_IP j)" by (rule no_staleE [OF st])
    have "k \<noteq> pod_key p n"
    proof
      assume "k = pod_key p n"
      then have "Allocate now al0 p n = (al0, Ret (pi_IP j))" using pool.acquire_old [OF inv] held [OF k(1)] by simp
      with al k(2) False show False by simp
    qed
    with k show ?thesis by (intro exI [of _ k] exI [of _ j]) simp
  qed
qed

lemma no_stale_remove:
  assumes "fmlookup eps k = Some info" and "To4 (pi_IP info) \<noteq> []" and "no_stale eps d"
  shows "no_stale (fmdrop k eps) (fst (dp_RemovePodEndpoint d (pi_IP info)))"
proof (rule no_staleI)
  fix s assume "fmlookup (dp_endpoints (fst (dp_RemovePodEndpoint d (pi_IP info)))) s \<noteq> None"
  then have s: "s \<noteq> IP_String (pi_IP info)" "fmlookup (dp_endpoints d) s \<noteq> None"
    using dataplane.remove_v4 [OF assms(2), of d] by (auto split: if_splits)
  obtain k' j where k': "fmlookup eps k' = Some j" "s = IP_String (pi_IP j)" by (rule no_staleE [OF assms(3) s(2)])
  then have "k' \<noteq> k" using s(1) assms(1) by auto
  with k' show "\<exists>k' j. fmlookup (fmdrop k eps) k' = Some j \<and> s = IP_String (pi_IP j)"
    by (intro exI [of _ k'] exI [of _ j]) simp
qed

lemma HandleAdd_agent_ok:
  assumes ok: "agent_ok H X c a" and c: "c + 3 < 2 ^ 32" and X: "add_labels req \<in> X"
  shows "agent_ok H X (c + 2) (fst (agent_HandleAdd H now ifx a req))"
    and "\<exists>r. snd (agent_HandleAdd H now ifx a req) = Ret r"
proof -
  note A = agent_okD [OF ok] note B = agent_baseD [OF A(1)]
  have c2: "c + 2 < 2 ^ 32" "(c + 1) + 2 < 2 ^ 32" using c by simp_all
  have "agent_ok H X (c + 2) (fst (agent_HandleAdd H now ifx a req)) \<and> (\<exists>r. snd (agent_HandleAdd H now ifx a req) = Ret r)"
    using B(1,2) c2(1) B(3)
  proof (cases rule: HandleAdd_cases [of a H X c _ req now ifx])
    case (full ia d e)
    have ia: "identity_ok H X (c + 1) ia" using AllocateIdentity_ok [OF B(2) c2(1) X] full(1) by simp
    have "identity_ok H X (c + 2) (fst (ReleaseIdentity ia (id_ID d)))"
      using ReleaseIdentity_ok [OF ia c2(2), of "id_ID d"] by simp
    moreover have "live_refs (fst (ReleaseIdentity ia (id_ID d))) i = live_refs (ag_identityAllocator a) i" for i
      using live_refs_Release [OF ia c2(2)] live_refs_Allocate [OF B(2) c2(1) full(1)] by simp
    ultimately show ?thesis using full(3) A B by (simp add: agent_ok_def agent_base_def)
  next
    case (netns ia d al addr m e)
    then show ?thesis using SetupPodNetwork_Real [OF A(2)] by (metis Pair_inject outcome.distinct(1))
  next
    case (added ia d al addr m v x)
    have m: "m = ag_netnsManager a" using SetupPodNetwork_Real [OF A(2)] added(3) by (metis Pair_inject)
    have ia: "identity_ok H X (c + 2) ia"
      using identity_ok_weaken [of H X "c + 1" ia "c + 2"] AllocateIdentity_ok [OF B(2) c2(1) X] added(1) by simp
    have al: "alloc_inv al" "na_PodCIDR al = na_PodCIDR (ag_allocator a)"
      using Allocate_inv [OF B(1), of now "ar_PodName req" "ar_PodNamespace req"]
        ipam_step_frame(1) [OF B(1), of "OpAllocate now (ar_PodName req) (ar_PodNamespace req)"] added(2) by simp_all
    note t = tracked_ok_add [OF B(1) added(2,4) A(3), where info = "add_info req addr (id_ID d)" and i = "id_ID d" and x = x]
    have cnt: "pods_with (fmupd k (add_info req addr (id_ID d)) (ag_podEndpoints a)) i \<le> live_refs ia i" for i k
      using pods_with_upd [of k "add_info req addr (id_ID d)" "ag_podEndpoints a" i] A(4) [of i]
        live_refs_Allocate [OF B(2) c2(1) added(1), of i] by (simp add: add_info_def split: if_splits)
    have ns: "no_stale (fmupd (pod_key (ar_PodName req) (ar_PodNamespace req)) (add_info req addr (id_ID d)) (ag_podEndpoints a))
        (fst (dp_AddPodEndpoint now (ag_dp a) addr (id_ID d) x))"
    proof (rule no_stale_add [OF B(1) added(2,4) _ A(5)])
      show "fmlookup (GetAllocatedIPs (ag_allocator a)) k = Some (pi_IP info)"
        if "fmlookup (ag_podEndpoints a) k = Some info" for k info using A(3) [OF that] by (simp add: tracked_ok_def)
    qed (simp add: add_info_def)
    show ?thesis using added(5) al ia A(2) m t cnt B(3) ns
      by (simp add: agent_ok_def agent_base_def add_info_def del: fmupd_lookup)
  qed
  then show "agent_ok H X (c + 2) (fst (agent_HandleAdd H now ifx a req))" "\<exists>r. snd (agent_HandleAdd H now ifx a req) = Ret r"
    by blast+
qed

definition del_key :: "DelRequest \<Rightarrow> string" where
  "del_key req = pod_key (dr_PodName req) (dr_PodNamespace req)"

lemma HandleDel_untracked:
  assumes "alloc_inv (ag_allocator a)" and "fmlookup (ag_podEndpoints a) (del_key req) = None"
  shows "agent_HandleDel H a req =
    (a\<lparr>ag_allocator := fst (Release (ag_allocator a) (dr_PodName req) (dr_PodNamespace req))\<rparr>, Ret \<lparr>ds_Error = []\<rparr>)"
  using assms by (simp add: agent_HandleDel_def del_key_def Let_def release_ip_then)

lemma teardown_Real:
  assumes "lm_nl (ag_netnsManager b) = RealNetlinkOperator"
  shows "then_do (teardown H b cfg) k = k b"
proof -
  have "teardown H b cfg = (b, Ret ())" unfolding teardown_def TeardownPodNetwork_Real [OF assms] by simp
  then show ?thesis by simp
qed

lemma HandleDel_tracked:
  assumes "alloc_inv (ag_allocator a)" and "fmlookup (ag_podEndpoints a) (del_key req) = Some info"
    and "To4 (pi_IP info) \<noteq> []" and "lm_nl (ag_netnsManager a) = RealNetlinkOperator"
  shows "agent_HandleDel H a req =
    (set_identityAllocator (fst (ReleaseIdentity (ag_identityAllocator a) (pi_IdentityID info)))
       (a\<lparr>ag_dp := fst (dp_RemovePodEndpoint (ag_dp a) (pi_IP info)),
          ag_allocator := fst (Release (ag_allocator a) (dr_PodName req) (dr_PodNamespace req)),
          ag_podEndpoints := fmdrop (del_key req) (ag_podEndpoints a)\<rparr>), Ret \<lparr>ds_Error = []\<rparr>)"
proof -
  have "then_do (remove_endpoint a (pi_IP info)) k = k (a\<lparr>ag_dp := fst (dp_RemovePodEndpoint (ag_dp a) (pi_IP info))\<rparr>)"
    for k :: "NodeAgent \<Rightarrow> NodeAgent \<times> DelResponse outcome"
    using dataplane.remove_v4 [OF assms(3), of "ag_dp a"]
    by (subst then_do_no_panic) (simp_all add: remove_endpoint_def case_prod_beta)
  then show ?thesis using assms(1,2,4) by (simp add: agent_HandleDel_def del_key_def Let_def release_ip_then teardown_Real)
qed

lemma tracked_ok_release:
  assumes "alloc_inv al" and "tracked_ok al d k info" and "k \<noteq> pod_key p n"
  shows "tracked_ok (fst (Release al p n)) d k info"
  using assms pool.give_back_held [OF assms(1), of p n] by (simp add: tracked_ok_def)

lemma HandleDel_agent_ok:
  assumes ok: "agent_ok H X c a" and c: "c + 3 < 2 ^ 32"
  shows "agent_ok H X (c + 2) (fst (agent_HandleDel H a req))" "snd (agent_HandleDel H a req) = Ret \<lparr>ds_Error = []\<rparr>"
proof -
  note A = agent_okD [OF ok] note B = agent_baseD [OF A(1)]
  have c2: "c + 2 < 2 ^ 32" using c by simp
  let ?al = "fst (Release (ag_allocator a) (dr_PodName req) (dr_PodNamespace req))"
  have al: "alloc_inv ?al" "na_PodCIDR ?al = na_PodCIDR (ag_allocator a)"
    using Release_inv [OF B(1)] ipam_step_frame(1) [OF B(1), of "OpRelease (dr_PodName req) (dr_PodNamespace req)"] by simp_all
  have "agent_ok H X (c + 2) (fst (agent_HandleDel H a req)) \<and> snd (agent_HandleDel H a req) = Ret \<lparr>ds_Error = []\<rparr>"
  proof (cases "fmlookup (ag_podEndpoints a) (del_key req)")
    case None
    have "tracked_ok ?al (ag_dp a) k info" if "fmlookup (ag_podEndpoints a) k = Some info" for k info
    proof (rule tracked_ok_release [OF B(1) A(3) [OF that]])
      show "k \<noteq> pod_key (dr_PodName req) (dr_PodNamespace req)" using that None by (auto simp: del_key_def)
    qed
    then show ?thesis using HandleDel_untracked [OF B(1) None] al A identity_ok_weaken [OF B(2), of "c + 2"] B(3)
      by (simp add: agent_ok_def agent_base_def)
  next
    case (Some info)
    let ?ia = "fst (ReleaseIdentity (ag_identityAllocator a) (pi_IdentityID info))"
      and ?d = "fst (dp_RemovePodEndpoint (ag_dp a) (pi_IP info))"
    have held: "fmlookup (GetAllocatedIPs (ag_allocator a)) (del_key req) = Some (pi_IP info)"
      using A(3) [OF Some] by (simp add: tracked_ok_def)
    have v4: "To4 (pi_IP info) \<noteq> []" by (rule held_v4 [OF B(1) held])
    have ia: "identity_ok H X (c + 2) ?ia"
      using identity_ok_weaken [OF ReleaseIdentity_ok [OF B(2) c2], of "c + 2"] by simp
    have t: "tracked_ok ?al ?d k i" if "fmlookup (fmdrop (del_key req) (ag_podEndpoints a)) k = Some i" for k i
    proof -
      from that have k: "k \<noteq> del_key req" "fmlookup (ag_podEndpoints a) k = Some i" by (auto split: if_splits)
      note T = A(3) [OF k(2)]
      have "IP_String (pi_IP i) \<noteq> IP_String (pi_IP info)"
        using held_string_inj [OF B(1) _ held] T k(1) unfolding tracked_ok_def by blast
      then have "tracked_ok (ag_allocator a) ?d k i"
        using T dataplane.remove_v4 [OF v4, of "ag_dp a"] by (simp add: tracked_ok_def)
      then show ?thesis using tracked_ok_release [OF B(1)] k(1) by (simp add: del_key_def)
    qed
    have "pods_with (fmdrop (del_key req) (ag_podEndpoints a)) i \<le> live_refs ?ia i" for i
      using pods_with_drop [OF Some, of i] A(4) [of i] live_refs_Release [OF B(2) c2, of "pi_IdentityID info" i] by auto
    then show ?thesis using HandleDel_tracked [OF B(1) Some v4 A(2)] al ia A(2) t B(3) no_stale_remove [OF Some v4 A(5)]
      by (simp add: agent_ok_def agent_base_def del: fmlookup_drop)
  qed
  then show "agent_ok H X (c + 2) (fst (agent_HandleDel H a req))" "snd (agent_HandleDel H a req) = Ret \<lparr>ds_Error = []\<rparr>"
    by blast+
qed

subsection \<open>The course of a reconciliation\<close>

text \<open>The data plane has the endpoint of a pod, with its identity.\<close>

definition programmed :: "DataPlane \<Rightarrow> PodEndpointInfo \<Rightarrow> bool" where
  "programmed d info \<longleftrightarrow>
     map_option ep_IdentityID (fmlookup (dp_endpoints d) (IP_String (pi_IP info))) = Some (pi_IdentityID info)"

lemma tracked_ok_programmed:
  "tracked_ok al d k info \<longleftrightarrow> fmlookup (GetAllocatedIPs al) k = Some (pi_IP info) \<and> programmed d info"
  by (simp add: tracked_ok_def programmed_def)

lemma programmed_add:
  assumes "To4 (pi_IP info) \<noteq> []"
  shows "programmed (fst (dp_AddPodEndpoint now d (pi_IP info) (pi_IdentityID info) x)) info"
    and "IP_String (pi_IP j) \<noteq> IP_String (pi_IP info) \<Longrightarrow>
      programmed (fst (dp_AddPodEndpoint now d (pi_IP info) (pi_IdentityID info) x)) j \<longleftrightarrow> programmed d j"
  using dataplane.add_v4 [OF assms, of now d "pi_IdentityID info" x] by (simp_all add: programmed_def new_entry_def)

lemma program_endpoints_spec:
  assumes v4: "\<And>k info. fmlookup eps k = Some info \<Longrightarrow> To4 (pi_IP info) \<noteq> []"
    and inj: "\<And>k j info info'. fmlookup eps k = Some info \<Longrightarrow> fmlookup eps j = Some info' \<Longrightarrow>
      IP_String (pi_IP info) = IP_String (pi_IP info') \<Longrightarrow> k = j"
  shows "\<exists>d'. program_endpoints now eps ks d = (d', Ret ()) \<and>
    (\<forall>k info. fmlookup eps k = Some info \<longrightarrow> k \<in> set ks \<or> programmed d info \<longrightarrow> programmed d' info) \<and>
    (no_stale eps d \<longrightarrow> no_stale eps d')"
proof (induction ks arbitrary: d)
  case (Cons k ks)
  show ?case
  proof (cases "fmlookup eps k")
    case None
    then show ?thesis using Cons.IH [of d] by auto
  next
    case (Some info)
    let ?d = "fst (dp_AddPodEndpoint now d (pi_IP info) (pi_IdentityID info) 0)"
    have step: "program_endpoints now eps (k # ks) d = program_endpoints now eps ks ?d"
      using dataplane.add_v4 [OF v4 [OF Some], of now d "pi_IdentityID info" 0] Some
      by (simp add: then_do_no_panic)
    have keep: "programmed ?d i" if "fmlookup eps j = Some i" "j = k \<or> programmed d i" for j i
    proof (cases "IP_String (pi_IP i) = IP_String (pi_IP info)")
      case True
      then have "i = info" using inj [OF that(1) Some] that(1) Some by simp
      then show ?thesis using programmed_add(1) [OF v4 [OF Some]] by simp
    next
      case False
      then have "programmed d i" using that Some by auto
      then show ?thesis using programmed_add(2) [OF v4 [OF Some] False] by simp
    qed
    obtain d' where d': "program_endpoints now eps ks ?d = (d', Ret ())"
      "\<forall>k info. fmlookup eps k = Some info \<longrightarrow> k \<in> set ks \<or> programmed ?d info \<longrightarrow> programmed d' info"
      "no_stale eps ?d \<longrightarrow> no_stale eps d'"
      using Cons.IH [of ?d] by blast
    have ns: "no_stale eps ?d" if "no_stale eps d"
      using that dataplane.add_v4 [OF v4 [OF Some], of now d "pi_IdentityID info" 0] Some
      unfolding no_stale_def by (metis fmupd_lookup)
    have "programmed d' i" if "fmlookup eps j = Some i" "j \<in> set (k # ks) \<or> programmed d i" for j i
      using d'(2) keep [OF that(1)] that by auto
    with step d'(1,3) ns show ?thesis by auto
  qed
qed auto

lemma sync_policy_frame:
  obtains a1 where "sync_policy a = (a1, Ret ())" "ag_allocator a1 = ag_allocator a" "ag_dp a1 = ag_dp a"
    "ag_podEndpoints a1 = ag_podEndpoints a" "ag_policyStore a1 = ag_policyStore a"
    "ag_netnsManager a1 = ag_netnsManager a" "ag_podCIDR a1 = ag_podCIDR a" "ag_checkpoint a1 = ag_checkpoint a"
    "ag_hostPolicy a1 = ag_hostPolicy a" "ag_encryption a1 = ag_encryption a" "ag_routingBackend a1 = ag_routingBackend a"
  by (cases "GetCompiledPolicy (ag_policyStore a)") (simp_all add: sync_policy_def SyncPolicyMap_def)

text \<open>A reconciliation from a state whose pods hold their addresses: the allocator keeps the active
  keys, every pod of the order is programmed, the checkpoint is saved, and nothing else that the
  handlers use changes.\<close>

lemma reconcile_result:
  assumes base: "agent_base H X c a"
    and held: "\<And>k info. fmlookup (ag_podEndpoints a) k = Some info \<Longrightarrow>
      fmlookup (GetAllocatedIPs (ag_allocator a)) k = Some (pi_IP info)"
  obtains a' files' r al rel s where "agent_reconcile env a files = ((a', files'), r)"
    "Reconcile (rc_alloc_order env) (ag_allocator a) (active_pods a) = (al, Ret rel)" "ag_allocator a' = al"
    "alloc_inv al" "na_PodCIDR al = na_PodCIDR (ag_allocator a)"
    "na_allocated al = fmfilter (\<lambda>k. k \<notin> set (rc_alloc_order env) \<or> fmlookup (active_pods a) k = Some True) (na_allocated (ag_allocator a))"
    "\<And>k info. fmlookup (ag_podEndpoints a) k = Some info \<Longrightarrow> k \<in> set (rc_endpoint_order env) \<or> programmed (ag_dp a) info \<Longrightarrow>
       programmed (ag_dp a') info"
    "no_stale (ag_podEndpoints a) (ag_dp a) \<Longrightarrow> no_stale (ag_podEndpoints a) (ag_dp a')"
    "Save (rc_marshal env) (rc_now env) (rc_save_order env) (rc_save env) (ag_checkpoint a) al files = (files', s)"
    "r = (case s of Panic e \<Rightarrow> Panic e | _ \<Rightarrow> Ret ())"
    "ag_podEndpoints a' = ag_podEndpoints a" "ag_policyStore a' = ag_policyStore a"
    "ag_netnsManager a' = ag_netnsManager a" "ag_podCIDR a' = ag_podCIDR a"
    "ag_hostPolicy a' = ag_hostPolicy a" "ag_encryption a' = ag_encryption a" "ag_routingBackend a' = ag_routingBackend a"
proof -
  note B = agent_baseD [OF base]
  obtain al rel where al: "Reconcile (rc_alloc_order env) (ag_allocator a) (active_pods a) = (al, Ret rel)" "alloc_inv al"
    "na_PodCIDR al = na_PodCIDR (ag_allocator a)"
    "na_allocated al = fmfilter (\<lambda>k. k \<notin> set (rc_alloc_order env) \<or> fmlookup (active_pods a) k = Some True) (na_allocated (ag_allocator a))"
    using reconcile_loop_spec [OF B(1), of "active_pods a" "rc_alloc_order env" "[]"] unfolding Reconcile_def by auto
  have v4: "To4 (pi_IP info) \<noteq> []" if "fmlookup (ag_podEndpoints a) k = Some info" for k info
    by (rule held_v4 [OF B(1) held [OF that]])
  have inj: "k = j" if "fmlookup (ag_podEndpoints a) k = Some info" "fmlookup (ag_podEndpoints a) j = Some info'"
    "IP_String (pi_IP info) = IP_String (pi_IP info')" for k j info info'
    by (rule held_string_inj [OF B(1) held [OF that(1)] held [OF that(2)] that(3)])
  obtain d where d: "program_endpoints (rc_now env) (ag_podEndpoints a) (rc_endpoint_order env) (ag_dp a) = (d, Ret ())"
    "\<forall>k info. fmlookup (ag_podEndpoints a) k = Some info \<longrightarrow> k \<in> set (rc_endpoint_order env) \<or> programmed (ag_dp a) info \<longrightarrow> programmed d info"
    "no_stale (ag_podEndpoints a) (ag_dp a) \<longrightarrow> no_stale (ag_podEndpoints a) d"
  proof -
    have "\<exists>d'. program_endpoints (rc_now env) (ag_podEndpoints a) (rc_endpoint_order env) (ag_dp a) = (d', Ret ()) \<and>
      (\<forall>k info. fmlookup (ag_podEndpoints a) k = Some info \<longrightarrow>
        k \<in> set (rc_endpoint_order env) \<or> programmed (ag_dp a) info \<longrightarrow> programmed d' info) \<and>
      (no_stale (ag_podEndpoints a) (ag_dp a) \<longrightarrow> no_stale (ag_podEndpoints a) d')"
      by (rule program_endpoints_spec) (erule v4, erule (2) inj)
    then show ?thesis using that by blast
  qed
  obtain a1 where a1: "sync_policy (a\<lparr>ag_allocator := al, ag_dp := d\<rparr>) = (a1, Ret ())" "ag_allocator a1 = al" "ag_dp a1 = d"
    "ag_podEndpoints a1 = ag_podEndpoints a" "ag_policyStore a1 = ag_policyStore a"
    "ag_netnsManager a1 = ag_netnsManager a" "ag_podCIDR a1 = ag_podCIDR a" "ag_checkpoint a1 = ag_checkpoint a"
    "ag_hostPolicy a1 = ag_hostPolicy a" "ag_encryption a1 = ag_encryption a" "ag_routingBackend a1 = ag_routingBackend a"
    by (rule sync_policy_frame [of "a\<lparr>ag_allocator := al, ag_dp := d\<rparr>"]) simp
  obtain files' s where s: "Save (rc_marshal env) (rc_now env) (rc_save_order env) (rc_save env) (ag_checkpoint a) al files = (files', s)"
    by fastforce
  let ?a = "case s of Panic e \<Rightarrow> a1 | _ \<Rightarrow> a1\<lparr>ag_metrics := (ag_metrics a1)\<lparr>IPAMBlockUtilization :=
                 gauge_Set (IPAMBlockUtilization (ag_metrics a1)) (Utilization (ag_allocator a1))\<rparr>\<rparr>"
  have r: "agent_reconcile env a files = ((?a, files'), case s of Panic e \<Rightarrow> Panic e | _ \<Rightarrow> Ret ())"
    using al(1) d(1) a1 s by (cases s) (simp_all add: agent_reconcile_def)
  have f: "ag_allocator ?a = al" "ag_dp ?a = d" "ag_podEndpoints ?a = ag_podEndpoints a" "ag_policyStore ?a = ag_policyStore a"
    "ag_netnsManager ?a = ag_netnsManager a" "ag_podCIDR ?a = ag_podCIDR a" "ag_hostPolicy ?a = ag_hostPolicy a"
    "ag_encryption ?a = ag_encryption a" "ag_routingBackend ?a = ag_routingBackend a"
    using a1(2-) by (cases s; simp)+
  have p: "programmed (ag_dp ?a) info" if "fmlookup (ag_podEndpoints a) k = Some info"
    "k \<in> set (rc_endpoint_order env) \<or> programmed (ag_dp a) info" for k info
    unfolding f(2) using d(2) that by blast
  have ns: "no_stale (ag_podEndpoints a) (ag_dp ?a)" if "no_stale (ag_podEndpoints a) (ag_dp a)"
    unfolding f(2) using d(3) that by blast
  show ?thesis by (rule that [OF r al(1) f(1) al(2-4) p ns s refl f(3-9)])
qed

lemma tracked_active: "fmlookup (ag_podEndpoints a) k = Some info \<Longrightarrow> fmlookup (active_pods a) k = Some True"
  by (simp add: active_pods_def)

lemma reconcile_agent_ok:
  assumes ok: "agent_ok H X c a"
  shows "agent_ok H X c (fst (fst (agent_reconcile env a files)))"
proof -
  note A = agent_okD [OF ok] note B = agent_baseD [OF A(1)]
  have T: "fmlookup (GetAllocatedIPs (ag_allocator a)) k = Some (pi_IP info) \<and> programmed (ag_dp a) info"
    if "fmlookup (ag_podEndpoints a) k = Some info" for k info
    using A(3) [OF that] by (simp add: tracked_ok_programmed)
  from A(1) conjunct1 [OF T] show ?thesis
  proof (rule reconcile_result [of H X c a env files])
    fix a' files' r al rel s
    assume r: "agent_reconcile env a files = ((a', files'), r)" "ag_allocator a' = al" "alloc_inv al"
      "na_PodCIDR al = na_PodCIDR (ag_allocator a)"
      and al: "na_allocated al = fmfilter (\<lambda>k. k \<notin> set (rc_alloc_order env) \<or> fmlookup (active_pods a) k = Some True)
        (na_allocated (ag_allocator a))"
      and prog: "\<And>k info. fmlookup (ag_podEndpoints a) k = Some info \<Longrightarrow>
        k \<in> set (rc_endpoint_order env) \<or> programmed (ag_dp a) info \<Longrightarrow> programmed (ag_dp a') info"
      and ns: "no_stale (ag_podEndpoints a) (ag_dp a) \<Longrightarrow> no_stale (ag_podEndpoints a) (ag_dp a')"
      and same: "ag_podEndpoints a' = ag_podEndpoints a" "ag_policyStore a' = ag_policyStore a"
        "ag_netnsManager a' = ag_netnsManager a" "ag_podCIDR a' = ag_podCIDR a"
    have "tracked_ok al (ag_dp a') k info" if "fmlookup (ag_podEndpoints a) k = Some info" for k info
      using T [OF that] tracked_active [OF that] prog [OF that] al by (simp add: tracked_ok_programmed lookup_GetAllocatedIPs)
    moreover have "ag_identityAllocator a' = ag_identityAllocator a" using same(2) by (simp add: ag_identityAllocator_def)
    ultimately show ?thesis using r same A(2,4) ns [OF A(5)] B by (simp add: agent_ok_def agent_base_def)
  qed
qed

subsection \<open>Sequences of requests and reconciliations\<close>

datatype agent_op =
    OpAdd gotime "string \<Rightarrow> int option" AddRequest
  | OpDel DelRequest
  | OpCheck CheckRequest
  | OpTick reconcile_env

fun agent_step :: "(byte list \<Rightarrow> byte list) \<Rightarrow> NodeAgent \<times> disk \<Rightarrow> agent_op \<Rightarrow> NodeAgent \<times> disk" where
  "agent_step H (a, files) (OpAdd now ifx req) = (fst (agent_HandleAdd H now ifx a req), files)"
| "agent_step H (a, files) (OpDel req) = (fst (agent_HandleDel H a req), files)"
| "agent_step H (a, files) (OpCheck req) = (a, files)"
| "agent_step H (a, files) (OpTick env) = fst (agent_reconcile env a files)"

lemma agent_base_weaken: "agent_base H X c a \<Longrightarrow> c \<le> c' \<Longrightarrow> agent_base H X c' a"
  by (auto simp: agent_base_def intro: identity_ok_weaken)

lemma agent_ok_weaken: "agent_ok H X c a \<Longrightarrow> c \<le> c' \<Longrightarrow> agent_ok H X c' a"
  by (auto simp: agent_ok_def intro: agent_base_weaken)

lemma agent_step_ok:
  assumes "agent_ok H UNIV c (fst s)" and "c + 3 < 2 ^ 32"
  shows "agent_ok H UNIV (c + 2) (fst (agent_step H s e))"
proof -
  obtain a files where s: "s = (a, files)" by fastforce
  show ?thesis
  proof (cases e)
    case (OpAdd now ifx req)
    then show ?thesis using HandleAdd_agent_ok(1) [of H UNIV c a req] assms by (simp add: s)
  next
    case (OpDel req)
    then show ?thesis using HandleDel_agent_ok(1) assms by (simp add: s)
  next
    case (OpTick env)
    then show ?thesis using agent_ok_weaken [OF reconcile_agent_ok] assms by (simp add: s)
  qed (use agent_ok_weaken assms in \<open>simp add: s\<close>)
qed

lemma agent_run_ok:
  assumes "agent_ok H UNIV c (fst s)" and "c + 2 * length es + 1 < 2 ^ 32"
  shows "agent_ok H UNIV (c + 2 * length es) (fst (foldl (agent_step H) s es))"
  using assms
proof (induction es arbitrary: s c)
  case (Cons e es)
  have "agent_ok H UNIV (c + 2) (fst (agent_step H s e))" using Cons.prems by (intro agent_step_ok) simp_all
  from Cons.IH [OF this] show ?case using Cons.prems(2) by (simp add: algebra_simps)
qed simp

subsection \<open>A started agent\<close>

lemma NewNodeAgent_Ret:
  assumes "NewNodeAgent env files nm ip cidr sock maddr bpf cpath mode = Ret a"
  obtains al0 al1 where "NewNodeAllocator cidr = Ret al0"
    "restored_allocator env files (NewCheckpointManager cpath) al0 = Ret al1"
    "ag_allocator a = fst (Allocate (ne_now env) al1 ''gateway'' ''kube-system'')"
    "ag_podCIDR a = cidr" "ag_podEndpoints a = fmempty" "ag_policyStore a = NewPolicyStore (NewCompiler NewIdentityAllocator) None"
    "ag_netnsManager a = NewLinuxNetnsManager" "ag_hostPolicy a = NewHostPolicy ''Deny''"
    "wg_scope (ag_encryption a) = ScopeDisabled" "dp_endpoints (ag_dp a) = fmempty" "NewRoutingBackend mode (fmap_of_list [(''node-ip'', ip)]) = Ret (ag_routingBackend a)"
proof -
  obtain al0 where al0: "NewNodeAllocator cidr = Ret al0"
    using assms by (cases "NewNodeAllocator cidr") (simp_all add: NewNodeAgent_def)
  obtain al1 where al1: "restored_allocator env files (NewCheckpointManager cpath) al0 = Ret al1"
    using assms al0 by (cases "restored_allocator env files (NewCheckpointManager cpath) al0") (simp_all add: NewNodeAgent_def)
  obtain al r where al: "Allocate (ne_now env) al1 ''gateway'' ''kube-system'' = (al, r)" by fastforce
  have np: "r \<noteq> Panic e" for e using assms al0 al1 al by (cases r) (simp_all add: NewNodeAgent_def)
  obtain rb where rb: "NewRoutingBackend mode (fmap_of_list [(''node-ip'', ip)]) = Ret rb"
    using assms al0 al1 al np
    by (cases "NewRoutingBackend mode (fmap_of_list [(''node-ip'', ip)])"; cases r) (simp_all add: NewNodeAgent_def Let_def)
  show ?thesis
    by (rule that [OF al0 al1])
       (use assms al0 al1 al np rb in \<open>cases r; clarsimp simp: NewNodeAgent_def Let_def NewManager_def NewEBPFDataPlane_def NewIptablesDataPlane_def\<close>)+
qed

lemma dp_start_frame:
  "dp_endpoints (fst (dp_Init d c)) = dp_endpoints d" "dp_endpoints (fst (dp_LoadPrograms d)) = dp_endpoints d"
  "dp_endpoints (fst (dp_AttachToExistingMaps d)) = dp_endpoints d"
  by (cases d; simp add: ed_Init_def it_Init_def ed_LoadPrograms_def it_LoadPrograms_def ed_AttachToExistingMaps_def
      it_AttachToExistingMaps_def case_prod_beta)+

lemma agent_Start_frame:
  assumes "agent_Start senv a socks = (b, socks', loops, r)"
  shows "ag_allocator b = ag_allocator a" "ag_podCIDR b = ag_podCIDR a" "ag_podEndpoints b = ag_podEndpoints a"
    "ag_policyStore b = ag_policyStore a" "ag_netnsManager b = ag_netnsManager a" "ag_hostPolicy b = ag_hostPolicy a"
    "ag_encryption b = ag_encryption a" "dp_endpoints (ag_dp b) = dp_endpoints (ag_dp a)"
proof -
  obtain d1 r1 where d1: "dp_Init (ag_dp a) \<lparr>lc_BPFMountPath = ag_bpfMountPath a, lc_ProgramDir = [], lc_PinPath = []\<rparr> = (d1, r1)"
    by fastforce
  obtain d2 r2 where d2: "dp_LoadPrograms d1 = (d2, r2)" by fastforce
  obtain d3 r3 where d3: "dp_AttachToExistingMaps d2 = (d3, r3)" by fastforce
  have d: "dp_endpoints d1 = dp_endpoints (ag_dp a)" "dp_endpoints d2 = dp_endpoints (ag_dp a)" "dp_endpoints d3 = dp_endpoints (ag_dp a)"
    using dp_start_frame(1) [of "ag_dp a"] dp_start_frame(2) [of d1] dp_start_frame(3) [of d2] d1 d2 d3 by (metis fst_conv)+
  show "ag_allocator b = ag_allocator a" "ag_podCIDR b = ag_podCIDR a" "ag_podEndpoints b = ag_podEndpoints a"
    "ag_policyStore b = ag_policyStore a" "ag_netnsManager b = ag_netnsManager a" "ag_hostPolicy b = ag_hostPolicy a"
    "ag_encryption b = ag_encryption a" "dp_endpoints (ag_dp b) = dp_endpoints (ag_dp a)"
    using assms d
    by (auto simp: agent_Start_def start_routing_def start_server_def d1 d2 d3 split: outcome.splits prod.splits)
qed

lemma restored_allocator_inv:
  assumes "alloc_inv al" and "restored_allocator env files m al = Ret al'"
  shows "alloc_inv al'" "na_PodCIDR al' = na_PodCIDR al"
proof -
  have "al' = al \<or> (\<exists>now rs. al' = fst (Restore now al rs))"
  proof (cases "Exists m files")
    case True
    then show ?thesis
    proof (cases "Load (ne_unmarshal env) (ne_read_err env) m files")
      case (Ret cp)
      obtain b ws r where b: "Restore (ne_now env) al (cp_Records cp) = (b, ws, r)" using prod_cases3 by blast
      then have "al' = b" using assms(2) True Ret by (cases r) (simp_all add: restored_allocator_def)
      then have "al' = fst (Restore (ne_now env) al (cp_Records cp))" using b by simp
      then show ?thesis by blast
    qed (use assms(2) True in \<open>simp_all add: restored_allocator_def\<close>)
  qed (use assms(2) in \<open>simp add: restored_allocator_def\<close>)
  then have "alloc_inv al' \<and> na_PodCIDR al' = na_PodCIDR al" using Restore_inv [OF assms(1)] assms(1) by blast
  then show "alloc_inv al'" "na_PodCIDR al' = na_PodCIDR al" by simp_all
qed

lemma agent_main_Ret:
  assumes "agent_main env senv files socks nm ip cidr sock maddr bpf cpath mode = Ret a"
  obtains a0 socks' loops where "NewNodeAgent env files nm ip cidr sock maddr bpf cpath mode = Ret a0"
    "agent_Start senv a0 socks = (a, socks', loops, Ret ())"
proof -
  obtain a0 where a0: "NewNodeAgent env files nm ip cidr sock maddr bpf cpath mode = Ret a0"
    using assms by (cases "NewNodeAgent env files nm ip cidr sock maddr bpf cpath mode")
      (simp_all add: agent_main_def split: if_splits)
  obtain b socks' loops r where b: "agent_Start senv a0 socks = (b, socks', loops, r)" using prod_cases4 by blast
  have "r = Ret () \<and> b = a" using assms a0 b by (cases r) (simp_all add: agent_main_def split: if_splits)
  with a0 b show ?thesis using that by blast
qed

lemma agent_main_ok:
  assumes "agent_main env senv files socks nm ip cidr sock maddr bpf cpath mode = Ret a"
    and "ParseCIDR cidr = Ret net" and "length (net_mask net) = 4"
  shows "agent_ok H X 0 a"
proof -
  obtain a0 socks' loops where a0: "NewNodeAgent env files nm ip cidr sock maddr bpf cpath mode = Ret a0"
    "agent_Start senv a0 socks = (a, socks', loops, Ret ())" by (rule agent_main_Ret [OF assms(1)])
  note S = agent_Start_frame [OF a0(2)]
  from a0(1) show ?thesis
  proof (rule NewNodeAgent_Ret)
    fix al0 al1
    assume al: "NewNodeAllocator cidr = Ret al0" "restored_allocator env files (NewCheckpointManager cpath) al0 = Ret al1"
      "ag_allocator a0 = fst (Allocate (ne_now env) al1 ''gateway'' ''kube-system'')" "ag_podCIDR a0 = cidr"
      and e: "ag_podEndpoints a0 = fmempty" "ag_policyStore a0 = NewPolicyStore (NewCompiler NewIdentityAllocator) None"
        "ag_netnsManager a0 = NewLinuxNetnsManager" "dp_endpoints (ag_dp a0) = fmempty"
    have net: "na_PodCIDR al0 = net" using NewNodeAllocator_Ret(1) [OF al(1)] assms(2) by simp
    have "alloc_inv al0" using NewNodeAllocator_v4 [OF al(1)] assms(3) net by blast
    note r = restored_allocator_inv [OF this al(2)]
    have "alloc_inv (ag_allocator a0)" "na_PodCIDR (ag_allocator a0) = net"
      using Allocate_inv [OF r(1), of "ne_now env"] al(3) r(2) net
        ipam_step_frame(1) [OF r(1), of "OpAllocate (ne_now env) ''gateway'' ''kube-system''"] by simp_all
    then show ?thesis
      using S e al(4) assms(2) NewIdentityAllocator_ok [of H X]
      by (simp add: agent_ok_def agent_base_def ag_identityAllocator_def NewPolicyStore_def NewCompiler_def
          NewLinuxNetnsManager_def pods_with_def pod_set_def no_stale_def)
  qed
qed

subsection \<open>Properties\<close>

text \<open>C1. The invariant of the node agent: from a start on any IPv4 block and any checkpoint, after any
  sequence of ADD, DEL and CHECK requests and reconciliations (fewer than 2 to the 31 of them,
  before the identity counter can wrap), every pod the agent tracks holds its address in the
  allocator, its endpoint in the data plane carries its identity number, that identity is live,
  the data plane has no endpoint of anything but a tracked pod, no two pods have the same
  address, and the next ADD or DEL does not panic.\<close>

theorem agent_keeps_pods_apart:
  assumes "agent_main env senv files socks nm ip cidr sock maddr bpf cpath mode = Ret a0"
    and "ParseCIDR cidr = Ret net" and "length (net_mask net) = 4" and "2 * length ops + 3 < 2 ^ 32"
    and "foldl (agent_step H) (a0, files) ops = (a, fs)"
  shows "(\<forall>k info. fmlookup (ag_podEndpoints a) k = Some info \<longrightarrow>
       fmlookup (GetAllocatedIPs (ag_allocator a)) k = Some (pi_IP info) \<and>
       map_option ep_IdentityID (fmlookup (dp_endpoints (ag_dp a)) (IP_String (pi_IP info))) = Some (pi_IdentityID info) \<and>
       GetIdentity (ag_identityAllocator a) (pi_IdentityID info) \<noteq> None) \<and>
     (\<forall>k k' i i'. fmlookup (ag_podEndpoints a) k = Some i \<longrightarrow> fmlookup (ag_podEndpoints a) k' = Some i' \<longrightarrow>
       k \<noteq> k' \<longrightarrow> IP_String (pi_IP i) \<noteq> IP_String (pi_IP i')) \<and>
     (\<forall>x. fmlookup (dp_endpoints (ag_dp a)) x \<noteq> None \<longrightarrow>
       (\<exists>k info. fmlookup (ag_podEndpoints a) k = Some info \<and> x = IP_String (pi_IP info))) \<and>
     (\<exists>r. snd (agent_HandleAdd H now ifx a areq) = Ret r) \<and> (\<exists>r. snd (agent_HandleDel H a dreq) = Ret r)"
proof -
  have c: "0 + 2 * length ops + 1 < 2 ^ 32" "2 * length ops + 3 < 2 ^ 32" using assms(4) by simp_all
  have "agent_ok H UNIV 0 (fst (a0, files))" using agent_main_ok [OF assms(1-3)] by simp
  from agent_run_ok [OF this c(1)] have ok: "agent_ok H UNIV (2 * length ops) a" by (simp add: assms(5))
  note A = agent_okD [OF ok] note B = agent_baseD [OF A(1)]
  have "GetIdentity (ag_identityAllocator a) (pi_IdentityID info) \<noteq> None"
    if "fmlookup (ag_podEndpoints a) k = Some info" for k info
  proof -
    have "k \<in> pod_set (ag_podEndpoints a) (pi_IdentityID info)" using that by (simp add: pod_set_def)
    then have "0 < pods_with (ag_podEndpoints a) (pi_IdentityID info)" unfolding pods_with_def by (auto simp: card_gt_0_iff)
    then have "0 < live_refs (ag_identityAllocator a) (pi_IdentityID info)"
      using A(4) [of "pi_IdentityID info"] by linarith
    then show ?thesis by (auto simp: live_refs_def split: option.splits)
  qed
  then have pods: "\<forall>k info. fmlookup (ag_podEndpoints a) k = Some info \<longrightarrow>
       fmlookup (GetAllocatedIPs (ag_allocator a)) k = Some (pi_IP info) \<and>
       map_option ep_IdentityID (fmlookup (dp_endpoints (ag_dp a)) (IP_String (pi_IP info))) = Some (pi_IdentityID info) \<and>
       GetIdentity (ag_identityAllocator a) (pi_IdentityID info) \<noteq> None"
    using A(3) [unfolded tracked_ok_def] by blast
  have "IP_String (pi_IP i) \<noteq> IP_String (pi_IP i')" if "fmlookup (ag_podEndpoints a) k = Some i"
    "fmlookup (ag_podEndpoints a) k' = Some i'" "k \<noteq> k'" for k k' i i'
    using held_string_inj [OF B(1), of k "pi_IP i" k' "pi_IP i'"] pods that by blast
  with pods A(5) [unfolded no_stale_def] HandleAdd_agent_ok(2) [OF ok c(2), of areq now ifx] HandleDel_agent_ok(2) [OF ok c(2), of dreq]
  show ?thesis by blast
qed

text \<open>A node with the block \<^verbatim>\<open>10.0.0.0/29\<close>, and a checkpoint codec for the one checkpoint it writes.\<close>

definition ex_checkpoint :: Checkpoint where
  "ex_checkpoint = \<lparr>cp_PodCIDR = ''10.0.0.0/29'', cp_Records =
     [\<lparr>cr_PodName = ''gateway'', cr_PodNamespace = ''kube-system'', cr_IP = ''10.0.0.1'', cr_AllocatedAt = 0\<rparr>,
      \<lparr>cr_PodName = ''a'', cr_PodNamespace = ''ns'', cr_IP = ''10.0.0.2'', cr_AllocatedAt = 0\<rparr>],
     cp_Timestamp = 0, cp_Version = 1\<rparr>"

definition ex_marshal_cp :: "Checkpoint \<Rightarrow> string outcome" where
  "ex_marshal_cp c = (if c = ex_checkpoint then Ret ''{}'' else Err ''unsupported value'')"

definition ex_unmarshal_cp :: "string \<Rightarrow> Checkpoint outcome" where
  "ex_unmarshal_cp t = (if t = ''{}'' then Ret ex_checkpoint else Err ''unexpected end of JSON input'')"

definition ex_new_env :: new_env where
  "ex_new_env = \<lparr>ne_now = 0, ne_read_err = None, ne_unmarshal = ex_unmarshal_cp, ne_bpffs = True,
     ne_version = Some ''Linux version 6.1'', ne_btf = True\<rparr>"

definition ex_server_env :: server_env where
  "ex_server_env = \<lparr>remove_err = None, listen_err = None, chmod_err = None, close_err = None\<rparr>"

definition ex_start :: "disk \<Rightarrow> NodeAgent outcome" where
  "ex_start files = agent_main ex_new_env ex_server_env files {||} ''n1'' ''192.0.2.1'' ''10.0.0.0/29'' ''/run/cni.sock''
     '':9090'' ''/sys/fs/bpf'' ''/var/cp'' ''vxlan''"

definition ex_request :: "string \<Rightarrow> AddRequest" where
  "ex_request p = \<lparr>ar_ContainerID = p, ar_Netns = ''/ns/'' @ p, ar_IfName = ''eth0'', ar_PodName = p, ar_PodNamespace = ''ns'',
     ar_Args = fmempty\<rparr>"

definition ex_delete :: "string \<Rightarrow> DelRequest" where
  "ex_delete p = \<lparr>dr_ContainerID = p, dr_Netns = ''/ns/'' @ p, dr_IfName = ''eth0'', dr_PodName = p, dr_PodNamespace = ''ns''\<rparr>"

definition ex_no_index :: "string \<Rightarrow> int option" where
  "ex_no_index nm = None"

definition ex_tick :: "string list \<Rightarrow> string list \<Rightarrow> reconcile_env" where
  "ex_tick allocs eps = \<lparr>rc_now = 0, rc_alloc_order = allocs, rc_endpoint_order = eps, rc_save_order = allocs,
     rc_marshal = ex_marshal_cp, rc_save = \<lparr>write_err = None, rename_err = None\<rparr>\<rparr>"

definition ex_run :: "disk \<Rightarrow> agent_op list \<Rightarrow> (NodeAgent \<times> disk) option" where
  "ex_run files ops = (case ex_start files of Ret a \<Rightarrow> Some (foldl (agent_step ex_H) (a, files) ops) | _ \<Rightarrow> None)"

definition ex_agent_ops :: "agent_op list" where
  "ex_agent_ops = [OpAdd 0 ex_no_index (ex_request ''a''), OpAdd 0 ex_no_index (ex_request ''b''), OpDel (ex_delete ''a''),
     OpTick (ex_tick [''gateway/kube-system'', ''b/ns''] [''b/ns'']), OpAdd 0 ex_no_index (ex_request ''c'')]"

lemma ex_net:
  obtains net where "ParseCIDR ''10.0.0.0/29'' = Ret net" "length (net_mask net) = 4"
proof
  show "ParseCIDR ''10.0.0.0/29'' = Ret (the (returned (ParseCIDR ''10.0.0.0/29'')))" by code_simp
  show "length (net_mask (the (returned (ParseCIDR ''10.0.0.0/29'')))) = 4" by code_simp
qed

text \<open>The address of a tracked pod, printed.\<close>

definition pod_address :: "(NodeAgent \<times> disk) option \<Rightarrow> string \<Rightarrow> string option" where
  "pod_address s k = (case s of None \<Rightarrow> None | Some (a, fs) \<Rightarrow>
     (case fmlookup (ag_podEndpoints a) k of None \<Rightarrow> None | Some i \<Rightarrow> Some (IP_String (pi_IP i))))"

lemma ex_run_eval: "pod_address (ex_run fmempty ex_agent_ops) ''c/ns'' = Some ''10.0.0.2''"
  by code_simp

theorem agent_keeps_pods_apart_witness:
  "\<exists>a fs info. ex_run fmempty ex_agent_ops = Some (a, fs) \<and> fmlookup (ag_podEndpoints a) ''c/ns'' = Some info \<and>
     fmlookup (GetAllocatedIPs (ag_allocator a)) ''c/ns'' = Some (pi_IP info) \<and>
     GetIdentity (ag_identityAllocator a) (pi_IdentityID info) \<noteq> None \<and>
     (\<exists>r. snd (agent_HandleDel ex_H a (ex_delete ''b'')) = Ret r)"
proof -
  obtain s where s: "ex_run fmempty ex_agent_ops = Some s"
    using ex_run_eval by (cases "ex_run fmempty ex_agent_ops") (simp_all add: pod_address_def)
  then obtain a0 where a0: "ex_start fmempty = Ret a0" "foldl (agent_step ex_H) (a0, fmempty) ex_agent_ops = (fst s, snd s)"
    by (cases "ex_start fmempty") (simp_all add: ex_run_def)
  obtain net where net: "ParseCIDR ''10.0.0.0/29'' = Ret net" "length (net_mask net) = 4" by (rule ex_net)
  have len: "2 * length ex_agent_ops + 3 < 2 ^ 32" by (simp add: ex_agent_ops_def)
  obtain info where info: "fmlookup (ag_podEndpoints (fst s)) ''c/ns'' = Some info" using ex_run_eval s
    by (cases s) (auto simp: pod_address_def split: option.splits)
  note P = agent_keeps_pods_apart [OF a0(1) [unfolded ex_start_def] net len a0(2), of 0 ex_no_index "ex_request ''d''" "ex_delete ''b''"]
  from P info have "fmlookup (GetAllocatedIPs (ag_allocator (fst s))) ''c/ns'' = Some (pi_IP info)"
    "GetIdentity (ag_identityAllocator (fst s)) (pi_IdentityID info) \<noteq> None" by blast+
  moreover from P have "\<exists>r. snd (agent_HandleDel ex_H (fst s) (ex_delete ''b'')) = Ret r" by blast
  ultimately show ?thesis using s info by (intro exI [of _ "fst s"] exI [of _ "snd s"] exI [of _ info]) simp
qed

end
