(* ===== verification/AgentLifecycle.thy ===== *)
theory AgentLifecycle
  imports AgentSafety
begin

text \<open>
  Single runs of the node agent: a failing ADD and its rollback, ADD undone by DEL, one
  reconciliation, a restart, and what of the agent's parts no run ever uses. The lemmas and the
  invariant are in \<open>AgentSafety\<close>.
\<close>

subsection \<open>ADD, and DEL after it\<close>

definition del_of :: "AddRequest \<Rightarrow> DelRequest" where
  "del_of req = \<lparr>dr_ContainerID = ar_ContainerID req, dr_Netns = ar_Netns req, dr_IfName = ar_IfName req,
     dr_PodName = ar_PodName req, dr_PodNamespace = ar_PodNamespace req\<rparr>"

lemma del_of_key: "del_key (del_of req) = add_key req"
  by (simp add: del_key_def del_of_def add_key_def)

lemma ADD_DEL:
  assumes ok: "agent_ok H X c a" and X: "collision_free H X" "c + 3 < 2 ^ 32" "add_labels req \<in> X" "ms \<in> X"
    and new: "fmlookup (GetAllocatedIPs (ag_allocator a)) (add_key req) = None"
    and add: "agent_HandleAdd H now ifx a req = (a1, Ret resp)" "as_Error resp = []"
    and del: "agent_HandleDel H a1 (del_of req) = (a2, r)"
  shows "GetAllocatedIPs (ag_allocator a2) = GetAllocatedIPs (ag_allocator a)"
    and "refs H (ag_identityAllocator a2) ms = refs H (ag_identityAllocator a) ms"
    and "ag_podEndpoints a2 = ag_podEndpoints a" and "dp_endpoints (ag_dp a2) = dp_endpoints (ag_dp a)"
proof -
  note A = agent_okD [OF ok] note B = agent_baseD [OF A(1)]
  have c: "c + 2 < 2 ^ 32" using X(2) by simp
  have untracked: "fmlookup (ag_podEndpoints a) (add_key req) = None"
    using A(3) [of "add_key req"] new by (cases "fmlookup (ag_podEndpoints a) (add_key req)") (auto simp: tracked_ok_def)
  have "GetAllocatedIPs (ag_allocator a2) = GetAllocatedIPs (ag_allocator a) \<and>
    refs H (ag_identityAllocator a2) ms = refs H (ag_identityAllocator a) ms \<and>
    ag_podEndpoints a2 = ag_podEndpoints a \<and> dp_endpoints (ag_dp a2) = dp_endpoints (ag_dp a)"
    using B(1,2) c B(3)
  proof (cases rule: HandleAdd_cases [of a H X c _ req now ifx])
    case (full ia d e)
    then show ?thesis using add by (simp add: add_error_def)
  next
    case (netns ia d al addr m e)
    then show ?thesis using add by (simp add: add_error_def)
  next
    case (added ia d al addr m v x)
    let ?i = "add_info req addr (id_ID d)" and ?d = "fst (dp_AddPodEndpoint now (ag_dp a) addr (id_ID d) x)"
    have a1: "ag_allocator a1 = al" "ag_dp a1 = ?d" "ag_identityAllocator a1 = ia" "ag_netnsManager a1 = m"
      "ag_podEndpoints a1 = fmupd (add_key req) ?i (ag_podEndpoints a)"
      using added(5) add(1) by (simp_all add: add_key_def)
    have inv: "alloc_inv al" using Allocate_inv [OF B(1), of now "ar_PodName req" "ar_PodNamespace req"] added(2) by simp
    have m: "lm_nl m = RealNetlinkOperator" using SetupPodNetwork_Real [OF A(2)] added(3) A(2) by (metis Pair_inject)
    have "agent_HandleDel H a1 (del_of req) =
      (set_identityAllocator (fst (ReleaseIdentity ia (id_ID d)))
        (a1\<lparr>ag_dp := fst (dp_RemovePodEndpoint ?d addr), ag_allocator := fst (Release al (ar_PodName req) (ar_PodNamespace req)),
            ag_podEndpoints := fmdrop (add_key req) (ag_podEndpoints a1)\<rparr>), Ret \<lparr>ds_Error = []\<rparr>)"
      using HandleDel_tracked [of a1 "del_of req" ?i H] a1 inv m added(4)
      by (simp add: del_of_key) (simp add: add_info_def del_of_def)
    then have a2: "a2 = set_identityAllocator (fst (ReleaseIdentity ia (id_ID d)))
        (a1\<lparr>ag_dp := fst (dp_RemovePodEndpoint ?d addr), ag_allocator := fst (Release al (ar_PodName req) (ar_PodNamespace req)),
            ag_podEndpoints := fmdrop (add_key req) (ag_podEndpoints a1)\<rparr>)" using del by simp
    have "fmlookup (dp_endpoints (ag_dp a)) (IP_String addr) = None"
    proof (rule ccontr)
      assume "fmlookup (dp_endpoints (ag_dp a)) (IP_String addr) \<noteq> None"
      then obtain k info where k: "fmlookup (ag_podEndpoints a) k = Some info" "IP_String addr = IP_String (pi_IP info)"
        by (rule no_staleE [OF A(5)])
      have h: "GetAllocatedIPs al = fmupd (add_key req) addr (GetAllocatedIPs (ag_allocator a))"
        using pool.acquire_held [OF B(1) added(2)] by (simp add: add_key_def)
      have ne: "k \<noteq> add_key req" using k(1) untracked by auto
      then have "fmlookup (GetAllocatedIPs al) k = Some (pi_IP info)" using A(3) [OF k(1)] h by (simp add: tracked_ok_def)
      moreover have "fmlookup (GetAllocatedIPs al) (add_key req) = Some addr" using h by simp
      ultimately show False using held_string_inj [OF inv] k(2) ne by metis
    qed
    then have "dp_endpoints (fst (dp_RemovePodEndpoint ?d addr)) = dp_endpoints (ag_dp a)"
      by (rule dataplane.add_remove [OF added(4)])
    moreover have "fmdrop (add_key req) (ag_podEndpoints a1) = ag_podEndpoints a"
      using untracked by (intro fmap_eqI) (simp add: a1(5))
    ultimately show ?thesis
      using pool.rollback [OF B(1) new [unfolded add_key_def] added(2)] refs_rollback [OF X(1) B(2) X(2-4) added(1)]
      by (simp add: a2)
  qed
  then show "GetAllocatedIPs (ag_allocator a2) = GetAllocatedIPs (ag_allocator a)"
    "refs H (ag_identityAllocator a2) ms = refs H (ag_identityAllocator a) ms"
    "ag_podEndpoints a2 = ag_podEndpoints a" "dp_endpoints (ag_dp a2) = dp_endpoints (ag_dp a)" by blast+
qed

subsection \<open>Parts that no run uses\<close>

text \<open>The policies, host rules, encryption and routes of an agent that nothing was ever put into.\<close>

definition idle :: "NodeAgent \<Rightarrow> bool" where
  "idle a \<longleftrightarrow> ps_policies (ag_policyStore a) = fmempty \<and> GetCompiledPolicy (ag_policyStore a) = None \<and>
     GetRules (ag_hostPolicy a) = [] \<and> \<not> IsEnabled (ag_encryption a) \<and> rb_routes (ag_routingBackend a) = fmempty"

lemma HandleAdd_idle:
  assumes "agent_base H X c a" and "c + 2 < 2 ^ 32" and "idle a"
  shows "idle (fst (agent_HandleAdd H now ifx a req))"
proof -
  note B = agent_baseD [OF assms(1)]
  show ?thesis using B(1,2) assms(2) B(3)
    by (cases rule: HandleAdd_cases [of a H X c _ req now ifx])
       (use assms(3) in \<open>simp_all add: idle_def GetCompiledPolicy_def\<close>)
qed

lemma HandleDel_idle:
  assumes "agent_ok H X c a" and "idle a"
  shows "idle (fst (agent_HandleDel H a req))"
proof -
  note A = agent_okD [OF assms(1)] note B = agent_baseD [OF A(1)]
  show ?thesis
  proof (cases "fmlookup (ag_podEndpoints a) (del_key req)")
    case None
    then show ?thesis using HandleDel_untracked [OF B(1) None] assms(2) by (simp add: idle_def)
  next
    case (Some info)
    have "To4 (pi_IP info) \<noteq> []" using A(3) [OF Some] held_v4 [OF B(1)] by (auto simp: tracked_ok_def)
    then show ?thesis using HandleDel_tracked [OF B(1) Some _ A(2)] assms(2) by (simp add: idle_def GetCompiledPolicy_def)
  qed
qed

lemma reconcile_idle:
  assumes "agent_ok H X c a" and "idle a"
  shows "idle (fst (fst (agent_reconcile env a files)))"
proof -
  note A = agent_okD [OF assms(1)]
  have h: "fmlookup (GetAllocatedIPs (ag_allocator a)) k = Some (pi_IP info)"
    if "fmlookup (ag_podEndpoints a) k = Some info" for k info using A(3) [OF that] by (simp add: tracked_ok_def)
  from A(1) h show ?thesis
    by (rule reconcile_result [of H X c a env files]) (use assms(2) in \<open>simp_all add: idle_def\<close>)
qed

lemma agent_step_idle:
  assumes "agent_ok H UNIV c (fst s)" and "c + 3 < 2 ^ 32" and "idle (fst s)"
  shows "idle (fst (agent_step H s e))"
proof -
  obtain a files where s: "s = (a, files)" by fastforce
  show ?thesis
  proof (cases e)
    case (OpAdd now ifx req)
    then show ?thesis using HandleAdd_idle [OF agent_okD(1)] assms by (simp add: s)
  next
    case (OpDel req)
    then show ?thesis using HandleDel_idle assms by (simp add: s)
  next
    case (OpTick env)
    then show ?thesis using reconcile_idle assms by (simp add: s)
  qed (use assms in \<open>simp add: s\<close>)
qed

lemma agent_run_idle:
  assumes "agent_ok H UNIV c (fst s)" and "c + 2 * length es + 1 < 2 ^ 32" and "idle (fst s)"
  shows "idle (fst (foldl (agent_step H) s es))"
  using assms
proof (induction es arbitrary: s c)
  case (Cons e es)
  have "agent_ok H UNIV (c + 2) (fst (agent_step H s e))" using Cons.prems by (intro agent_step_ok) simp_all
  moreover have "idle (fst (agent_step H s e))" using agent_step_idle [OF Cons.prems(1)] Cons.prems(2,3) by simp
  ultimately show ?case using Cons.IH [of "c + 2" "agent_step H s e"] Cons.prems(2) by simp
qed simp

lemma rb_Init_routes: "rb_routes (fst (rb_Init r n)) = rb_routes r"
  by (cases r) (simp_all add: bgp_Init_def vx_Init_def EnsureVXLANInterface_def Let_def)

lemma NewRoutingBackend_routes: "NewRoutingBackend mode cfg = Ret r \<Longrightarrow> rb_routes r = fmempty"
  by (auto simp: NewRoutingBackend_def NewBGPBackend_def NewVXLANBackend_def Let_def split: if_splits)

lemma agent_Start_routes:
  assumes "agent_Start senv a socks = (b, socks', loops, r)"
  shows "rb_routes (ag_routingBackend b) = rb_routes (ag_routingBackend a)"
proof -
  have "ag_routingBackend b = ag_routingBackend a \<or> (\<exists>n. ag_routingBackend b = fst (rb_Init (ag_routingBackend a) n))"
    using assms
    by (auto simp: agent_Start_def start_routing_def start_server_def split: outcome.splits prod.splits) (metis fst_conv)+
  then show ?thesis using rb_Init_routes by metis
qed

lemma agent_main_idle:
  assumes "agent_main env senv files socks nm ip cidr sock maddr bpf cpath mode = Ret a"
  shows "idle a"
proof -
  obtain a0 socks' loops where a0: "NewNodeAgent env files nm ip cidr sock maddr bpf cpath mode = Ret a0"
    "agent_Start senv a0 socks = (a, socks', loops, Ret ())" by (rule agent_main_Ret [OF assms])
  note S = agent_Start_frame [OF a0(2)]
  have i: "ag_policyStore a0 = NewPolicyStore (NewCompiler NewIdentityAllocator) None" "ag_hostPolicy a0 = NewHostPolicy ''Deny''"
    "wg_scope (ag_encryption a0) = ScopeDisabled" "rb_routes (ag_routingBackend a0) = fmempty"
    by (rule NewNodeAgent_Ret [OF a0(1)], simp add: NewRoutingBackend_routes)+
  show ?thesis unfolding idle_def S agent_Start_routes [OF a0(2)]
    by (simp add: i NewPolicyStore_def GetCompiledPolicy_def NewHostPolicy_def GetRules_def IsEnabled_def)
qed

subsection \<open>Properties\<close>


lemma ex_labels_free: "collision_free ex_H {add_labels (ex_request ''a'')}"
proof -
  have "valid_labels (add_labels (ex_request ''a''))" by code_simp
  then show ?thesis by (simp add: collision_free_def ex_H_def)
qed

lemma ex_start_ok:
  obtains a where "ex_start fmempty = Ret a" "agent_ok ex_H X 0 a" "fmlookup (GetAllocatedIPs (ag_allocator a)) ''a/ns'' = None"
proof -
  have "is_ret (ex_start fmempty)" by code_simp
  then obtain a where a: "ex_start fmempty = Ret a" by (cases "ex_start fmempty") simp_all
  have "(case ex_start fmempty of Ret a \<Rightarrow> fmlookup (GetAllocatedIPs (ag_allocator a)) ''a/ns'' = None | _ \<Rightarrow> False)"
    by code_simp
  then have "fmlookup (GetAllocatedIPs (ag_allocator a)) ''a/ns'' = None" by (simp add: a)
  moreover obtain net where "ParseCIDR ''10.0.0.0/29'' = Ret net" "length (net_mask net) = 4" by (rule ex_net)
  then have "agent_ok ex_H X 0 a" by (rule agent_main_ok [OF a [unfolded ex_start_def]])
  ultimately show ?thesis using that a by blast
qed

lemma ex_request_key: "add_key (ex_request p) = pod_key p ''ns''"
  by (simp add: add_key_def ex_request_def)

definition ex_broken :: "NodeAgent \<Rightarrow> NodeAgent" where
  "ex_broken a = a\<lparr>ag_netnsManager := ex_netns ''SetMTU:eth0''\<rparr>"

lemma ex_broken_fails:
  "case ex_start fmempty of Ret a \<Rightarrow>
     (case snd (agent_HandleAdd ex_H 0 ex_no_index (ex_broken a) (ex_request ''a'')) of Ret r \<Rightarrow> as_Error r \<noteq> [] | _ \<Rightarrow> False)
   | _ \<Rightarrow> False"
  by code_simp


text \<open>C6. DEL undoes ADD: in a reachable state of the agent, when the ADD of a pod that holds no
  address succeeds, the DEL of that pod gives back the addresses held, the reference counts, the
  tracked pods and the endpoints of the data plane as they were before the ADD.\<close>

theorem DEL_undoes_ADD:
  assumes "agent_ok H X c a" and "collision_free H X" and "c + 3 < 2 ^ 32" and "add_labels req \<in> X" and "ms \<in> X"
    and "fmlookup (GetAllocatedIPs (ag_allocator a)) (add_key req) = None"
    and "agent_HandleAdd H now ifx a req = (a1, Ret resp)" and "as_Error resp = []"
    and "agent_HandleDel H a1 (del_of req) = (a2, r)"
  shows "GetAllocatedIPs (ag_allocator a2) = GetAllocatedIPs (ag_allocator a) \<and>
    refs H (ag_identityAllocator a2) ms = refs H (ag_identityAllocator a) ms \<and>
    ag_podEndpoints a2 = ag_podEndpoints a \<and> dp_endpoints (ag_dp a2) = dp_endpoints (ag_dp a)"
  using ADD_DEL [OF assms] by blast

lemma ex_add_succeeds:
  "case ex_start fmempty of Ret a \<Rightarrow>
     (case snd (agent_HandleAdd ex_H 0 ex_no_index a (ex_request ''a'')) of
        Ret r \<Rightarrow> as_Error r = [] \<and> as_IP r = ''10.0.0.2/24'' | _ \<Rightarrow> False)
   | _ \<Rightarrow> False"
  by code_simp

theorem DEL_undoes_ADD_witness:
  "\<exists>a a1 a2 resp r. agent_HandleAdd ex_H 0 ex_no_index a (ex_request ''a'') = (a1, Ret resp) \<and> as_IP resp = ''10.0.0.2/24'' \<and>
     agent_HandleDel ex_H a1 (del_of (ex_request ''a'')) = (a2, r) \<and>
     GetAllocatedIPs (ag_allocator a2) = GetAllocatedIPs (ag_allocator a) \<and> ag_podEndpoints a2 = ag_podEndpoints a"
proof -
  let ?X = "{add_labels (ex_request ''a'')}"
  obtain a where a: "ex_start fmempty = Ret a" "agent_ok ex_H ?X 0 a" "fmlookup (GetAllocatedIPs (ag_allocator a)) ''a/ns'' = None"
    by (rule ex_start_ok)
  obtain a1 resp where r: "agent_HandleAdd ex_H 0 ex_no_index a (ex_request ''a'') = (a1, Ret resp)" "as_Error resp = []"
    "as_IP resp = ''10.0.0.2/24''"
    using ex_add_succeeds a(1)
    by (cases "agent_HandleAdd ex_H 0 ex_no_index a (ex_request ''a'')") (auto split: outcome.splits)
  obtain a2 out where d: "agent_HandleDel ex_H a1 (del_of (ex_request ''a'')) = (a2, out)" by fastforce
  have new: "fmlookup (GetAllocatedIPs (ag_allocator a)) (add_key (ex_request ''a'')) = None"
    using a(3) by (simp add: ex_request_key pod_key_def)
  from DEL_undoes_ADD [OF a(2) ex_labels_free _ _ _ new r(1,2) d, of "add_labels (ex_request ''a'')"] r d
  show ?thesis by (intro exI [of _ a] exI [of _ a1] exI [of _ a2] exI [of _ resp] exI [of _ out]) simp
qed

text \<open>C11. A reconciliation is exact, for every iteration order: from a state whose tracked pods hold
  their addresses, whatever the data plane has lost, the allocator afterwards holds exactly the
  addresses of the tracked pods and of the gateway, every tracked pod has its endpoint with its
  identity, the tracked pods are the same, and the checkpoint on disk is the one of the new
  allocation.\<close>

theorem agent_reconcile_exact:
  assumes "agent_base H X c a"
    and "\<forall>k info. fmlookup (ag_podEndpoints a) k = Some info \<longrightarrow> fmlookup (GetAllocatedIPs (ag_allocator a)) k = Some (pi_IP info)"
    and "range_order (na_allocated (ag_allocator a)) (rc_alloc_order env)"
    and "range_order (ag_podEndpoints a) (rc_endpoint_order env)"
    and "agent_reconcile env a files = ((a', files'), r)"
  shows "GetAllocatedIPs (ag_allocator a') =
      fmfilter (\<lambda>k. k = gateway_key \<or> fmlookup (ag_podEndpoints a) k \<noteq> None) (GetAllocatedIPs (ag_allocator a)) \<and>
    (\<forall>k info. fmlookup (ag_podEndpoints a) k = Some info \<longrightarrow>
       map_option ep_IdentityID (fmlookup (dp_endpoints (ag_dp a')) (IP_String (pi_IP info))) = Some (pi_IdentityID info)) \<and>
    ag_podEndpoints a' = ag_podEndpoints a \<and> ag_identityAllocator a' = ag_identityAllocator a \<and>
    files' = fst (Save (rc_marshal env) (rc_now env) (rc_save_order env) (rc_save env) (ag_checkpoint a) (ag_allocator a') files)"
proof (rule reconcile_result [OF assms(1), of env files])
  show "fmlookup (GetAllocatedIPs (ag_allocator a)) k = Some (pi_IP info)"
    if "fmlookup (ag_podEndpoints a) k = Some info" for k info using assms(2) that by blast
next
  fix b fs q al rel s
  assume b: "agent_reconcile env a files = ((b, fs), q)" "ag_allocator b = al"
    "na_allocated al = fmfilter (\<lambda>k. k \<notin> set (rc_alloc_order env) \<or> fmlookup (active_pods a) k = Some True) (na_allocated (ag_allocator a))"
    and prog: "\<And>k info. fmlookup (ag_podEndpoints a) k = Some info \<Longrightarrow>
      k \<in> set (rc_endpoint_order env) \<or> programmed (ag_dp a) info \<Longrightarrow> programmed (ag_dp b) info"
    and save: "Save (rc_marshal env) (rc_now env) (rc_save_order env) (rc_save env) (ag_checkpoint a) al files = (fs, s)"
    and same: "ag_podEndpoints b = ag_podEndpoints a" "ag_policyStore b = ag_policyStore a"
  have a': "a' = b" "files' = fs" using b(1) assms(5) by simp_all
  have dom: "k \<in> set (rc_alloc_order env) \<longleftrightarrow> fmlookup (na_allocated (ag_allocator a)) k \<noteq> None"
    "k \<in> set (rc_endpoint_order env) \<longleftrightarrow> fmlookup (ag_podEndpoints a) k \<noteq> None" for k
    using range_orderD(2) [OF assms(3)] range_orderD(2) [OF assms(4)] by blast+
  have act: "fmlookup (active_pods a) k = Some True \<longleftrightarrow> k = gateway_key \<or> fmlookup (ag_podEndpoints a) k \<noteq> None" for k
    by (auto simp: active_pods_def)
  have "GetAllocatedIPs al = fmfilter (\<lambda>k. k = gateway_key \<or> fmlookup (ag_podEndpoints a) k \<noteq> None) (GetAllocatedIPs (ag_allocator a))"
    by (rule fmap_eqI) (simp add: lookup_GetAllocatedIPs b(3) dom(1) act)
  moreover have "programmed (ag_dp b) info" if "fmlookup (ag_podEndpoints a) k = Some info" for k info
    using prog [OF that] dom(2) that by simp
  ultimately show ?thesis using b(2) save same unfolding a' programmed_def by (simp add: ag_identityAllocator_def)
qed

lemma ex_two_orders:
  "case ex_run fmempty [OpAdd 0 ex_no_index (ex_request ''a'')] of None \<Rightarrow> False | Some (a, fs) \<Rightarrow>
     range_order (na_allocated (ag_allocator a)) [''gateway/kube-system'', ''a/ns''] \<and> range_order (ag_podEndpoints a) [''a/ns'']"
  unfolding range_order_def by code_simp

lemma ex_run_ok:
  assumes "ex_run fmempty ops = Some (a, fs)" and "2 * length ops + 1 < (2::nat) ^ 32"
  shows "agent_ok ex_H UNIV (2 * length ops) a"
proof -
  obtain a0 where a0: "ex_start fmempty = Ret a0" "foldl (agent_step ex_H) (a0, fmempty) ops = (a, fs)"
    using assms(1) by (cases "ex_start fmempty") (simp_all add: ex_run_def)
  obtain net where net: "ParseCIDR ''10.0.0.0/29'' = Ret net" "length (net_mask net) = 4" by (rule ex_net)
  have "agent_ok ex_H UNIV 0 (fst (a0, fmempty))" using agent_main_ok [OF a0(1) [unfolded ex_start_def] net] by simp
  from agent_run_ok [OF this, of ops] show ?thesis using assms(2) a0(2) by simp
qed

theorem agent_reconcile_exact_witness:
  "\<exists>a a' files' r. agent_reconcile (ex_tick [''gateway/kube-system'', ''a/ns''] [''a/ns'']) a fmempty = ((a', files'), r) \<and>
     GetAllocatedIPs (ag_allocator a') =
       fmfilter (\<lambda>k. k = gateway_key \<or> fmlookup (ag_podEndpoints a) k \<noteq> None) (GetAllocatedIPs (ag_allocator a)) \<and>
     fmlookup (ag_podEndpoints a) ''a/ns'' \<noteq> None"
proof -
  let ?env = "ex_tick [''gateway/kube-system'', ''a/ns''] [''a/ns'']"
  obtain a fs where a: "ex_run fmempty [OpAdd 0 ex_no_index (ex_request ''a'')] = Some (a, fs)"
    and o: "range_order (na_allocated (ag_allocator a)) (rc_alloc_order ?env)" "range_order (ag_podEndpoints a) (rc_endpoint_order ?env)"
    using ex_two_orders by (auto simp: ex_tick_def split: option.splits)
  have ok: "agent_ok ex_H UNIV 2 a" using ex_run_ok [OF a] by simp
  have h: "\<forall>k info. fmlookup (ag_podEndpoints a) k = Some info \<longrightarrow> fmlookup (GetAllocatedIPs (ag_allocator a)) k = Some (pi_IP info)"
    using agent_okD(3) [OF ok] unfolding tracked_ok_def by blast
  obtain a' files' r where r: "agent_reconcile ?env a fmempty = ((a', files'), r)" using prod.exhaust by metis
  have "fmlookup (ag_podEndpoints a) ''a/ns'' \<noteq> None" using range_orderD(2) [OF o(2), of "''a/ns''"] by (simp add: ex_tick_def)
  with agent_reconcile_exact [OF agent_okD(1) [OF ok] h o r] r show ?thesis by blast
qed

text \<open>C39. What the agent is built with and never uses: on an IPv4 block, from the start on and after any
  sequence of requests and reconciliations, the policy store has no policy and nothing compiled
  (so a reconciliation never writes the policy maps), the host policy has no rule, encryption is
  disabled, and there is no route to another node.\<close>

theorem agent_enforces_no_policy:
  assumes "agent_main env senv files socks nm ip cidr sock maddr bpf cpath mode = Ret a0"
    and "ParseCIDR cidr = Ret net" and "length (net_mask net) = 4" and "2 * length ops + 1 < 2 ^ 32"
    and "foldl (agent_step H) (a0, files) ops = (a, fs)"
  shows "ps_policies (ag_policyStore a) = fmempty \<and> GetCompiledPolicy (ag_policyStore a) = None \<and>
     GetRules (ag_hostPolicy a) = [] \<and> \<not> IsEnabled (ag_encryption a) \<and> rb_routes (ag_routingBackend a) = fmempty"
proof -
  have "agent_ok H UNIV 0 (fst (a0, files))" using agent_main_ok [OF assms(1-3)] by simp
  moreover have "0 + 2 * length ops + 1 < 2 ^ 32" using assms(4) by simp
  moreover have "idle (fst (a0, files))" using agent_main_idle [OF assms(1)] by simp
  ultimately have "idle (fst (foldl (agent_step H) (a0, files) ops))" by (rule agent_run_idle)
  then show ?thesis by (simp add: assms(5) idle_def)
qed

theorem agent_enforces_no_policy_witness:
  "\<exists>a fs. ex_run fmempty ex_agent_ops = Some (a, fs) \<and> GetCompiledPolicy (ag_policyStore a) = None \<and>
     rb_routes (ag_routingBackend a) = fmempty"
proof -
  obtain s where s: "ex_run fmempty ex_agent_ops = Some s"
    using ex_run_eval by (cases "ex_run fmempty ex_agent_ops") (simp_all add: pod_address_def)
  then obtain a0 where a0: "ex_start fmempty = Ret a0" "foldl (agent_step ex_H) (a0, fmempty) ex_agent_ops = (fst s, snd s)"
    by (cases "ex_start fmempty") (simp_all add: ex_run_def)
  obtain net where net: "ParseCIDR ''10.0.0.0/29'' = Ret net" "length (net_mask net) = 4" by (rule ex_net)
  have len: "2 * length ex_agent_ops + 1 < 2 ^ 32" by (simp add: ex_agent_ops_def)
  from agent_enforces_no_policy [OF a0(1) [unfolded ex_start_def] net len a0(2)] s
  show ?thesis by (intro exI [of _ "fst s"] exI [of _ "snd s"]) simp
qed

text \<open>The first reconciliation after a start: no pod is tracked yet, so every address the checkpoint
  brought back is released, except the gateway's.\<close>

lemma first_reconcile_forgets:
  assumes "agent_main env senv files socks nm ip cidr sock maddr bpf cpath mode = Ret a"
    and "ParseCIDR cidr = Ret net" and "length (net_mask net) = 4"
    and "range_order (na_allocated (ag_allocator a)) (rc_alloc_order renv)" and "k \<noteq> gateway_key"
  shows "fmlookup (GetAllocatedIPs (ag_allocator (fst (fst (agent_reconcile renv a fs))))) k = None"
proof -
  have base: "agent_base H X 0 a" for H X using agent_okD(1) [OF agent_main_ok [OF assms(1-3)]] .
  obtain a0 socks' loops where a0: "NewNodeAgent env files nm ip cidr sock maddr bpf cpath mode = Ret a0"
    "agent_Start senv a0 socks = (a, socks', loops, Ret ())" by (rule agent_main_Ret [OF assms(1)])
  have none: "ag_podEndpoints a = fmempty"
    by (rule NewNodeAgent_Ret [OF a0(1)]) (simp add: agent_Start_frame(3) [OF a0(2)])
  show ?thesis
  proof (rule reconcile_result [OF base, of renv fs])
    show "fmlookup (GetAllocatedIPs (ag_allocator a)) k = Some (pi_IP info)"
      if "fmlookup (ag_podEndpoints a) k = Some info" for k info using that none by simp
  next
    fix b gs q al rel s
    assume "agent_reconcile renv a fs = ((b, gs), q)" "ag_allocator b = al"
      "na_allocated al = fmfilter (\<lambda>k. k \<notin> set (rc_alloc_order renv) \<or> fmlookup (active_pods a) k = Some True) (na_allocated (ag_allocator a))"
    then show ?thesis using range_orderD(2) [OF assms(4), of k] assms(5)
      by (auto simp: lookup_GetAllocatedIPs none active_pods_def)
  qed
qed

definition ex_stop :: stop_env where
  "ex_stop = \<lparr>se_marshal = ex_marshal_cp, se_now = 0, se_order = [''gateway/kube-system'', ''a/ns''],
     se_save = \<lparr>write_err = None, rename_err = None\<rparr>, se_server = ex_server_env\<rparr>"


text \<open>A repeated ADD that fails in the network set-up releases the address of the running pod: the next
  pod gets it, and two tracked pods have one address. It needs an operator that can fail; the
  stubs the agent is built with cannot.\<close>

lemma failing_repeat_ADD_reuses_address:
  "case ex_run fmempty [OpAdd 0 ex_no_index (ex_request ''a'')] of None \<Rightarrow> False | Some (a1, f1) \<Rightarrow>
     (let a2 = fst (agent_HandleAdd ex_H 0 ex_no_index (ex_broken a1) (ex_request ''a''));
          a3 = fst (agent_HandleAdd ex_H 0 ex_no_index (a2\<lparr>ag_netnsManager := NewLinuxNetnsManager\<rparr>) (ex_request ''b''))
      in pod_address (Some (a3, f1)) ''a/ns'' = Some ''10.0.0.2'' \<and> pod_address (Some (a3, f1)) ''b/ns'' = Some ''10.0.0.2'')"
  by code_simp

end
