(* ===== verification/CniPlugin.thy ===== *)
theory CniPlugin
  imports AgentLifecycle
begin

text \<open>
  The CNI binary (\<^verbatim>\<open>cmd/cni-plugin/main.go\<close>): it reads the network configuration from standard input
  and the command from the environment, calls the node agent over the socket and prints the CNI
  result or error. Standard input, the environment and the configuration decoder are arguments;
  what it prints is the value it hands to the JSON encoder, and an error ends the process with
  exit status 1, a panic with status 2. The properties join the binary, the protocol and the agent.
\<close>

subsection \<open>Data\<close>

record CNIConfig =
  cc_CNIVersion :: string
  cc_Name :: string
  cc_Type :: string

record IPConfig =
  ipc_Address :: string
  ipc_Gateway :: string

record RouteConfig =
  rcf_Dst :: string
  rcf_GW :: string

record DNSResult =
  dnr_Nameservers :: "string list"
  dnr_Domain :: string
  dnr_Search :: "string list"

record CNIResult =
  crs_CNIVersion :: string
  crs_IPs :: "IPConfig list"
  crs_Routes :: "RouteConfig list"
  crs_DNS :: DNSResult

record CNIError =
  cer_Code :: nat
  cer_Msg :: string
  cer_Details :: string

datatype plugin_output =
    ResultOut CNIResult
  | NoOut
  | ErrorOut CNIError
  | VersionOut string "string list"
  | CrashOut string

fun exit_status :: "plugin_output \<Rightarrow> int" where
  "exit_status (ErrorOut e) = 1"
| "exit_status (CrashOut e) = 2"
| "exit_status _ = 0"

definition outputError :: "nat \<Rightarrow> string \<Rightarrow> string \<Rightarrow> plugin_output" where
  "outputError code msg details = ErrorOut \<lparr>cer_Code = code, cer_Msg = msg, cer_Details = details\<rparr>"

definition outputVersion :: plugin_output where
  "outputVersion = VersionOut ''1.0.0'' [''0.3.0'', ''0.3.1'', ''0.4.0'', ''1.0.0'']"

fun outputResult :: "CNIResult option \<Rightarrow> plugin_output" where
  "outputResult None = NoOut"
| "outputResult (Some result) = ResultOut result"

subsection \<open>Arguments\<close>

fun parse_pairs :: "string list \<Rightarrow> (string, string) fmap \<Rightarrow> (string, string) fmap" where
  "parse_pairs [] args = args"
| "parse_pairs (pair # pairs) args =
     parse_pairs pairs (case split_on CHR ''='' pair of [k, v] \<Rightarrow> fmupd k v args | _ \<Rightarrow> args)"

definition parseCNIArgs :: "string \<Rightarrow> (string, string) fmap" where
  "parseCNIArgs argsStr = (if argsStr = [] then fmempty else parse_pairs (split_on CHR '';'' argsStr) fmempty)"

text \<open>A read of a missing key of a Go map gives the empty string.\<close>

definition arg :: "(string, string) fmap \<Rightarrow> string \<Rightarrow> string" where
  "arg m k = (case fmlookup m k of None \<Rightarrow> [] | Some v \<Rightarrow> v)"

subsection \<open>Commands\<close>

text \<open>The environment variables of one call, and the way to the agent: the codec, the failures of the
  connection and the server.\<close>

record cni_env =
  CNI_COMMAND :: string
  CNI_CONTAINERID :: string
  CNI_NETNS :: string
  CNI_IFNAME :: string
  CNI_ARGS :: string

definition add_result :: "CNIConfig \<Rightarrow> AddResponse \<Rightarrow> CNIResult" where
  "add_result config resp =
     \<lparr>crs_CNIVersion = cc_CNIVersion config,
      crs_IPs = [\<lparr>ipc_Address = as_IP resp, ipc_Gateway = as_Gateway resp\<rparr>],
      crs_Routes = map (\<lambda>r. \<lparr>rcf_Dst = rt_Dst r, rcf_GW = rt_GW r\<rparr>) (as_Routes resp),
      crs_DNS = \<lparr>dnr_Nameservers = dns_Nameservers (as_DNS resp), dnr_Domain = dns_Domain (as_DNS resp),
                dnr_Search = dns_Search (as_DNS resp)\<rparr>\<rparr>"

definition add_request :: "cni_env \<Rightarrow> AddRequest" where
  "add_request ev = (let k8sArgs = parseCNIArgs (CNI_ARGS ev) in
     \<lparr>ar_ContainerID = CNI_CONTAINERID ev, ar_Netns = CNI_NETNS ev, ar_IfName = CNI_IFNAME ev,
      ar_PodName = arg k8sArgs ''K8S_POD_NAME'', ar_PodNamespace = arg k8sArgs ''K8S_POD_NAMESPACE'', ar_Args = k8sArgs\<rparr>)"

definition del_request :: "cni_env \<Rightarrow> DelRequest" where
  "del_request ev = (let k8sArgs = parseCNIArgs (CNI_ARGS ev) in
     \<lparr>dr_ContainerID = CNI_CONTAINERID ev, dr_Netns = CNI_NETNS ev, dr_IfName = CNI_IFNAME ev,
      dr_PodName = arg k8sArgs ''K8S_POD_NAME'', dr_PodNamespace = arg k8sArgs ''K8S_POD_NAMESPACE''\<rparr>)"

definition check_request :: "cni_env \<Rightarrow> CheckRequest" where
  "check_request ev = (let k8sArgs = parseCNIArgs (CNI_ARGS ev) in
     \<lparr>cq_ContainerID = CNI_CONTAINERID ev, cq_Netns = CNI_NETNS ev, cq_IfName = CNI_IFNAME ev,
      cq_PodName = arg k8sArgs ''K8S_POD_NAME'', cq_PodNamespace = arg k8sArgs ''K8S_POD_NAMESPACE''\<rparr>)"

fun add_output :: "CNIConfig \<Rightarrow> AddResponse outcome \<Rightarrow> plugin_output" where
  "add_output config (Ret resp) =
     (if as_Error resp \<noteq> [] then outputError 5 ''node agent returned error for ADD'' (as_Error resp)
      else outputResult (Some (add_result config resp)))"
| "add_output config (Err e) = outputError 4 ''failed to call node agent ADD'' e"
| "add_output config (Panic e) = CrashOut e"

fun del_output :: "DelResponse outcome \<Rightarrow> plugin_output" where
  "del_output (Ret resp) =
     (if ds_Error resp \<noteq> [] then outputError 5 ''node agent returned error for DEL'' (ds_Error resp) else outputResult None)"
| "del_output (Err e) = outputError 4 ''failed to call node agent DEL'' e"
| "del_output (Panic e) = CrashOut e"

fun check_output :: "CheckResponse outcome \<Rightarrow> plugin_output" where
  "check_output (Ret resp) =
     (if cs_Error resp \<noteq> [] \<or> \<not> cs_OK resp
      then outputError 5 ''node agent returned error for CHECK'' (if cs_Error resp = [] then ''check failed'' else cs_Error resp)
      else outputResult None)"
| "check_output (Err e) = outputError 4 ''failed to call node agent CHECK'' e"
| "check_output (Panic e) = CrashOut e"

definition plugin_main ::
  "(string \<Rightarrow> CNIConfig outcome) \<Rightarrow> string outcome \<Rightarrow> cni_env \<Rightarrow> json_codec \<Rightarrow> conn_env \<Rightarrow>
   ('s \<Rightarrow> string \<Rightarrow> 's \<times> string outcome) \<Rightarrow> 's \<Rightarrow> 's \<times> plugin_output" where
  "plugin_main unmarshal stdin ev c conn serve s =
     (case stdin of
        Ret configData \<Rightarrow>
          (case unmarshal configData of
             Ret config \<Rightarrow>
               (if CNI_COMMAND ev = ''VERSION'' then (s, outputVersion)
                else if CNI_COMMAND ev = [] then (s, outputError 3 ''CNI_COMMAND is not set'' [])
                else if CNI_COMMAND ev = ''ADD'' then map_prod id (add_output config) (client_Add c conn serve s (add_request ev))
                else if CNI_COMMAND ev = ''DEL'' then map_prod id del_output (client_Del c conn serve s (del_request ev))
                else if CNI_COMMAND ev = ''CHECK'' then map_prod id check_output (client_Check c conn serve s (check_request ev))
                else (s, outputError 3 ''unsupported CNI_COMMAND'' (CNI_COMMAND ev)))
           | Err e \<Rightarrow> (s, outputError 2 ''failed to parse CNI config JSON'' e)
           | Panic e \<Rightarrow> (s, CrashOut e))
      | Err e \<Rightarrow> (s, outputError 1 ''failed to read CNI config from stdin'' e)
      | Panic e \<Rightarrow> (s, CrashOut e))"

subsection \<open>Arguments: printing and parsing\<close>

definition print_pair :: "string \<times> string \<Rightarrow> string" where
  "print_pair kv = fst kv @ CHR ''='' # snd kv"

definition print_args :: "(string \<times> string) list \<Rightarrow> string" where
  "print_args kvs = join_on CHR '';'' (map print_pair kvs)"

definition plain_pair :: "string \<times> string \<Rightarrow> bool" where
  "plain_pair kv \<longleftrightarrow> CHR ''='' \<notin> set (fst kv) \<and> CHR '';'' \<notin> set (fst kv) \<and> CHR ''='' \<notin> set (snd kv) \<and> CHR '';'' \<notin> set (snd kv)"

lemma split_pair: "CHR ''='' \<notin> set k \<Longrightarrow> CHR ''='' \<notin> set v \<Longrightarrow> split_on CHR ''='' (k @ CHR ''='' # v) = [k, v]"
  by (simp add: split_on_app split_on_free)

lemma parse_pairs_print:
  assumes "\<forall>kv \<in> set kvs. plain_pair kv"
  shows "fmlookup (parse_pairs (map print_pair kvs) m) k =
    (case map_of (rev kvs) k of Some v \<Rightarrow> Some v | None \<Rightarrow> fmlookup m k)"
  using assms
proof (induction kvs arbitrary: m)
  case (Cons kv kvs)
  obtain a b where kv: "kv = (a, b)" by fastforce
  have "split_on CHR ''='' (print_pair kv) = [a, b]" using Cons.prems kv split_pair by (simp add: print_pair_def plain_pair_def)
  then show ?case using Cons.IH [of "fmupd a b m"] Cons.prems
    by (auto simp: kv map_add_def split: option.splits)
qed simp

lemma print_args_split:
  assumes "kvs \<noteq> []" and "\<forall>kv \<in> set kvs. plain_pair kv"
  shows "split_on CHR '';'' (print_args kvs) = map print_pair kvs" "print_args kvs \<noteq> []"
proof -
  have "\<forall>x \<in> set (map print_pair kvs). CHR '';'' \<notin> set x" using assms(2) by (auto simp: plain_pair_def print_pair_def)
  then show s: "split_on CHR '';'' (print_args kvs) = map print_pair kvs"
    unfolding print_args_def using assms(1) by (intro split_on_join) simp_all
  show "print_args kvs \<noteq> []"
  proof
    assume "print_args kvs = []"
    then have "map print_pair kvs = [[]]" using s by simp
    then show False by (auto simp: print_pair_def)
  qed
qed

lemma parse_print:
  assumes "kvs \<noteq> []" and "\<forall>kv \<in> set kvs. plain_pair kv"
  shows "fmlookup (parseCNIArgs (print_args kvs)) k = map_of (rev kvs) k"
  using print_args_split [OF assms] parse_pairs_print [OF assms(2), of fmempty k]
  by (simp add: parseCNIArgs_def split: option.splits)

text \<open>A pair with a second equals sign is dropped as a whole.\<close>

lemma parse_drops_equals:
  assumes "CHR '';'' \<notin> set k" "CHR '';'' \<notin> set v" "CHR '';'' \<notin> set w" "CHR ''='' \<notin> set k" "CHR ''='' \<notin> set v" "CHR ''='' \<notin> set w"
  shows "parseCNIArgs (k @ CHR ''='' # v @ CHR ''='' # w) = fmempty"
  using assms by (simp add: parseCNIArgs_def split_on_free split_on_app)

subsection \<open>The whole way of an ADD\<close>

definition agent_serve ::
  "json_codec \<Rightarrow> (byte list \<Rightarrow> byte list) \<Rightarrow> gotime \<Rightarrow> (string \<Rightarrow> int option) \<Rightarrow> NodeAgent \<Rightarrow> string \<Rightarrow> NodeAgent \<times> string outcome" where
  "agent_serve c H now ifx = handleConnection c (NodeAgentHandler H now ifx) now"

text \<open>The agent's handler answers every request in the states its requests reach.\<close>

definition agent_ready :: "(byte list \<Rightarrow> byte list) \<Rightarrow> NodeAgent \<Rightarrow> bool" where
  "agent_ready H a \<longleftrightarrow> (\<exists>n. n + 3 < 2 ^ 32 \<and> agent_ok H UNIV n a)"

lemma agent_readyI: "agent_ok H X n a \<Longrightarrow> n + 3 < 2 ^ 32 \<Longrightarrow> agent_ready H a"
  unfolding agent_ready_def agent_ok_def agent_base_def
  by (intro exI [of _ n]) (auto intro: identity_ok_mono)

lemma HandleCheck_answers:
  assumes "lm_nl (ag_netnsManager a) = RealNetlinkOperator"
  shows "\<exists>e. agent_HandleCheck H a req = Ret \<lparr>cs_OK = False, cs_Error = e\<rparr> \<and> e \<noteq> []"
  using assms by (auto simp: agent_HandleCheck_def CheckPodNetwork_def Let_def split: option.splits)

interpretation agent_handler: answering_handler "NodeAgentHandler H now ifx" "agent_ready H" for H now ifx
proof
  fix a ar dr cq
  assume "agent_ready H a"
  then obtain n where n: "n + 3 < 2 ^ 32" "agent_ok H UNIV n a" by (auto simp: agent_ready_def)
  show "\<exists>r. snd (HandleAdd (NodeAgentHandler H now ifx) a ar) = Ret r"
    using HandleAdd_agent_ok(2) [OF n(2,1), of ar now ifx] by (simp add: NodeAgentHandler_def)
  show "\<exists>r. snd (HandleDel (NodeAgentHandler H now ifx) a dr) = Ret r"
    using HandleDel_agent_ok(2) [OF n(2,1), of dr] by (simp add: NodeAgentHandler_def)
  show "\<exists>r. snd (HandleCheck (NodeAgentHandler H now ifx) a cq) = Ret r"
    using HandleCheck_answers [OF agent_okD(2) [OF n(2)], of H cq] by (auto simp: NodeAgentHandler_def)
qed

lemma plugin_ADD_call:
  assumes "CNI_COMMAND ev = ''ADD''" and "unmarshal data = Ret config" and "agent_ready H a"
    and "carries_request c ''ADD'' (PlAdd (add_request ev))"
    and "\<And>b resp. agent_HandleAdd H now ifx a (add_request ev) = (b, Ret resp) \<Longrightarrow> carries_reply c (RpAdd resp)"
  obtains b resp where "agent_HandleAdd H now ifx a (add_request ev) = (b, Ret resp)"
    "plugin_main unmarshal (Ret data) ev c no_failure (agent_serve c H now ifx) a = (b, add_output config (Ret resp))"
proof -
  have reply: "carries_reply c (RpAdd r)" if "HandleAdd (NodeAgentHandler H now ifx) a (add_request ev) = (t, Ret r)" for t r
    using that assms(5) by (simp add: NodeAgentHandler_def)
  obtain t r where "HandleAdd (NodeAgentHandler H now ifx) a (add_request ev) = (t, Ret r)"
    "client_Add c no_failure (handleConnection c (NodeAgentHandler H now ifx) now) a (add_request ev) = (t, Ret r)"
    by (rule agent_handler.add_served [OF assms(3,4) reply])
  then show ?thesis
    using assms(1,2) by (intro that [of t r]) (simp_all add: NodeAgentHandler_def plugin_main_def agent_serve_def)
qed

text \<open>A DEL always succeeds, for a pod the agent does not know too; a CHECK always fails, since the real
  netlink operator of the agent reports every link as missing.\<close>

lemma plugin_DEL_succeeds:
  assumes "CNI_COMMAND ev = ''DEL''" and "unmarshal data = Ret config" and "agent_ready H a"
    and "carries_request c ''DEL'' (PlDel (del_request ev))" and "carries_reply c (RpDel \<lparr>ds_Error = []\<rparr>)"
  shows "plugin_main unmarshal (Ret data) ev c no_failure (agent_serve c H now ifx) a =
    (fst (agent_HandleDel H a (del_request ev)), outputResult None)"
proof -
  obtain n where n: "n + 3 < 2 ^ 32" "agent_ok H UNIV n a" using assms(3) by (auto simp: agent_ready_def)
  have h: "HandleDel (NodeAgentHandler H now ifx) a (del_request ev) =
      (fst (agent_HandleDel H a (del_request ev)), Ret \<lparr>ds_Error = []\<rparr>)"
    using HandleDel_agent_ok(2) [OF n(2,1), of "del_request ev"] by (simp add: NodeAgentHandler_def prod_eq_iff)
  from client_Del_ok [OF h assms(4,5), of now] show ?thesis
    using assms(1,2) by (simp add: plugin_main_def agent_serve_def)
qed

lemma plugin_CHECK_fails:
  assumes "CNI_COMMAND ev = ''CHECK''" and "unmarshal data = Ret config" and "agent_ready H a"
    and "carries_request c ''CHECK'' (PlCheck (check_request ev))" and "\<And>r. carries_reply c (RpCheck r)"
  shows "\<exists>e. plugin_main unmarshal (Ret data) ev c no_failure (agent_serve c H now ifx) a = (a, ErrorOut e)"
proof -
  obtain n where n: "agent_ok H UNIV n a" using assms(3) by (auto simp: agent_ready_def)
  from HandleCheck_answers [OF agent_okD(2) [OF n], of H "check_request ev"] obtain e where
    e: "agent_HandleCheck H a (check_request ev) = Ret \<lparr>cs_OK = False, cs_Error = e\<rparr>" "e \<noteq> []" by blast
  then have h: "HandleCheck (NodeAgentHandler H now ifx) a (check_request ev) = (a, Ret \<lparr>cs_OK = False, cs_Error = e\<rparr>)"
    by (simp add: NodeAgentHandler_def)
  from client_Check_ok [OF h assms(4,5), of now] show ?thesis
    using assms(1,2) e(2) by (simp add: plugin_main_def agent_serve_def outputError_def)
qed

lemma add_response_held:
  assumes ok: "agent_ok H X c a" and c: "c + 2 < 2 ^ 32" and add: "agent_HandleAdd H now ifx a req = (a', Ret resp)" "as_Error resp = []"
  shows "\<exists>addr. fmlookup (GetAllocatedIPs (ag_allocator a')) (add_key req) = Some addr \<and> as_IP resp = IP_String addr @ ''/24'' \<and>
    map_option pi_IP (fmlookup (ag_podEndpoints a') (add_key req)) = Some addr"
proof -
  note A = agent_okD [OF ok] note B = agent_baseD [OF A(1)]
  show ?thesis using B(1,2) c B(3)
  proof (cases rule: HandleAdd_cases [of a H X c _ req now ifx])
    case (full ia d e)
    then show ?thesis using add by (simp add: add_error_def)
  next
    case (netns ia d al addr m e)
    then show ?thesis using add by (simp add: add_error_def)
  next
    case (added ia d al addr m v x)
    then have "ag_allocator a' = al" "resp = add_response addr (nextIP (net_ip (na_PodCIDR (ag_allocator a))))"
      "ag_podEndpoints a' = fmupd (add_key req) (add_info req addr (id_ID d)) (ag_podEndpoints a)"
      using add(1) by (simp_all add: add_key_def)
    then show ?thesis using pool.acquire_held [OF B(1) added(2)]
      by (simp add: add_response_def add_key_def add_info_def)
  qed
qed

subsection \<open>Properties\<close>

text \<open>C7. An ADD from end to end: the plugin called with the command ADD, over a connection that does
  not fail and a codec that carries the messages, on an agent in a reachable state. The agent
  answers; if its answer has no error, the plugin exits with 0 and prints one address, which is
  the address (with /24) the agent's allocator holds for that pod afterwards; otherwise it exits
  with 1, and for a pod without an address the allocator, the tracked pods and the data plane are
  as they were.\<close>

theorem plugin_ADD_end_to_end:
  assumes "agent_ok H X n a" and "n + 3 < 2 ^ 32" and "collision_free H X" and "add_labels (add_request ev) \<in> X"
    and "CNI_COMMAND ev = ''ADD''" and "unmarshal data = Ret config"
    and "carries_request c ''ADD'' (PlAdd (add_request ev))" 
    and "\<forall>b resp. agent_HandleAdd H now ifx a (add_request ev) = (b, Ret resp) \<longrightarrow> carries_reply c (RpAdd resp)"
    and "fmlookup (GetAllocatedIPs (ag_allocator a)) (add_key (add_request ev)) = None"
    and "plugin_main unmarshal (Ret data) ev c no_failure (agent_serve c H now ifx) a = (a', out)"
  shows "(\<exists>result addr. out = ResultOut result \<and> exit_status out = 0 \<and>
            map ipc_Address (crs_IPs result) = [IP_String addr @ ''/24''] \<and>
            fmlookup (GetAllocatedIPs (ag_allocator a')) (add_key (add_request ev)) = Some addr) \<or>
         (\<exists>e. out = ErrorOut e \<and> cer_Code e = 5 \<and> exit_status out = 1 \<and>
            GetAllocatedIPs (ag_allocator a') = GetAllocatedIPs (ag_allocator a) \<and>
            ag_podEndpoints a' = ag_podEndpoints a \<and> ag_dp a' = ag_dp a)"
proof -
  let ?req = "add_request ev"
  have ready: "agent_ready H a" by (rule agent_readyI [OF assms(1,2)])
  obtain b resp where b: "agent_HandleAdd H now ifx a ?req = (b, Ret resp)"
    and m: "plugin_main unmarshal (Ret data) ev c no_failure (agent_serve c H now ifx) a = (b, add_output config (Ret resp))"
    by (rule plugin_ADD_call [where unmarshal = unmarshal and data = data, OF assms(5,6) ready assms(7)])
       (use assms(8) in blast)+
  have out: "a' = b" "out = add_output config (Ret resp)" using m assms(10) by simp_all
  show ?thesis
  proof (cases "as_Error resp = []")
    case True
    have n: "n + 2 < 2 ^ 32" using assms(2) by simp
    from add_response_held [OF assms(1) n b True] obtain addr where
      "fmlookup (GetAllocatedIPs (ag_allocator b)) (add_key ?req) = Some addr" "as_IP resp = IP_String addr @ ''/24''" by blast
    then show ?thesis using True out by (simp add: add_result_def)
  next
    case False
    note R = ADD_rollback [OF agent_okD(1) [OF assms(1)] assms(3,2,4,4,9) b False]
    show ?thesis using False out R(1,3) by (simp add: outputError_def)
  qed
qed

definition ex_cni_env :: cni_env where
  "ex_cni_env = \<lparr>CNI_COMMAND = ''ADD'', CNI_CONTAINERID = ''c1'', CNI_NETNS = ''/ns'', CNI_IFNAME = ''eth0'',
     CNI_ARGS = ''K8S_POD_NAME=a;K8S_POD_NAMESPACE=ns''\<rparr>"

definition ex_add_codec :: "AddResponse \<Rightarrow> json_codec" where
  "ex_add_codec r = (ex_codec r)\<lparr>dec_AddRequest := (\<lambda>t. Ret (add_request ex_cni_env))\<rparr>"

lemma ex_add_codec_carries:
  "carries_request (ex_add_codec r) ''ADD'' (PlAdd (add_request ex_cni_env))" "carries_reply (ex_add_codec r) (RpAdd r)"
  by (simp_all add: carries_request_def carries_reply_def ex_add_codec_def ex_codec_def)

lemma ex_cni_key: "add_key (add_request ex_cni_env) = ''a/ns''"
  by code_simp

lemma ex_cni_labels: "collision_free ex_H {add_labels (add_request ex_cni_env)}"
proof -
  have "valid_labels (add_labels (add_request ex_cni_env))" by code_simp
  then show ?thesis by (simp add: collision_free_def ex_H_def)
qed

lemma ex_cni_answer:
  "case ex_start fmempty of Ret a \<Rightarrow>
     (case snd (agent_HandleAdd ex_H 0 ex_no_index a (add_request ex_cni_env)) of
        Ret r \<Rightarrow> as_Error r = [] \<and> as_IP r = ''10.0.0.2/24'' | _ \<Rightarrow> False)
   | _ \<Rightarrow> False"
  by code_simp

theorem plugin_ADD_end_to_end_witness:
  "\<exists>a a' c unmarshal result. plugin_main unmarshal (Ret ''{}'') ex_cni_env c no_failure (agent_serve c ex_H 0 ex_no_index) a =
       (a', ResultOut result) \<and> map ipc_Address (crs_IPs result) = [''10.0.0.2/24''] \<and>
     map_option (\<lambda>x. IP_String x @ ''/24'') (fmlookup (GetAllocatedIPs (ag_allocator a')) ''a/ns'') = Some ''10.0.0.2/24''"
proof -
  let ?X = "{add_labels (add_request ex_cni_env)}" and ?u = "\<lambda>t :: string. Ret \<lparr>cc_CNIVersion = [], cc_Name = [], cc_Type = []\<rparr>"
  obtain a where a: "ex_start fmempty = Ret a" "agent_ok ex_H ?X 0 a" "fmlookup (GetAllocatedIPs (ag_allocator a)) ''a/ns'' = None"
    by (rule ex_start_ok)
  obtain b r where r: "agent_HandleAdd ex_H 0 ex_no_index a (add_request ex_cni_env) = (b, Ret r)" "as_Error r = []" "as_IP r = ''10.0.0.2/24''"
    using ex_cni_answer a(1)
    by (cases "agent_HandleAdd ex_H 0 ex_no_index a (add_request ex_cni_env)") (auto split: outcome.splits)
  let ?c = "ex_add_codec r"
  have cmd: "CNI_COMMAND ex_cni_env = ''ADD''" by (simp add: ex_cni_env_def)
  have call: "plugin_main ?u (Ret ''{}'') ex_cni_env ?c no_failure (agent_serve ?c ex_H 0 ex_no_index) a =
      (b, add_output \<lparr>cc_CNIVersion = [], cc_Name = [], cc_Type = []\<rparr> (Ret r))" (is "_ = (b, ?out)")
  proof -
    have ready: "agent_ready ex_H a" by (rule agent_readyI [OF a(2)]) simp
    show ?thesis
      by (rule plugin_ADD_call [where unmarshal = ?u and data = "''{}''" and now = 0 and ifx = ex_no_index,
            OF cmd refl ready ex_add_codec_carries(1) [of r]])
         (use r(1) ex_add_codec_carries(2) in auto)
  qed
  have "\<forall>b' resp. agent_HandleAdd ex_H 0 ex_no_index a (add_request ex_cni_env) = (b', Ret resp) \<longrightarrow> carries_reply ?c (RpAdd resp)"
    using r(1) ex_add_codec_carries(2) by simp
  moreover have "fmlookup (GetAllocatedIPs (ag_allocator a)) (add_key (add_request ex_cni_env)) = None" using a(3) by (simp add: ex_cni_key)
  ultimately obtain result addr where "?out = ResultOut result" "map ipc_Address (crs_IPs result) = [IP_String addr @ ''/24'']"
      "fmlookup (GetAllocatedIPs (ag_allocator b)) ''a/ns'' = Some addr"
    using plugin_ADD_end_to_end [of ex_H ?X 0 a ex_cni_env ?u "''{}''" _ ?c 0 ex_no_index b ?out] a(2) ex_cni_labels cmd
      ex_add_codec_carries(1) [of r] call r(2) by (auto simp: ex_cni_key outputError_def)
  moreover have "?out = ResultOut (add_result \<lparr>cc_CNIVersion = [], cc_Name = [], cc_Type = []\<rparr> r)" using r(2) by simp
  ultimately show ?thesis using call r(3)
    by (intro exI [of _ a] exI [of _ b] exI [of _ ?c] exI [of _ ?u] exI [of _ result]) (simp add: add_result_def)
qed

text \<open>C40. The argument string of the runtime parses back: for pairs whose keys and values have neither
  an equals sign nor a semicolon, reading any key of the parsed map gives the value of its last
  pair, and a key that does not occur is missing.\<close>

theorem parseCNIArgs_print:
  assumes "kvs \<noteq> []" and "\<forall>kv \<in> set kvs. plain_pair kv"
  shows "fmlookup (parseCNIArgs (print_args kvs)) k = map_of (rev kvs) k"
  by (rule parse_print [OF assms])

theorem parseCNIArgs_print_witness:
  "fmlookup (parseCNIArgs ''K8S_POD_NAME=a;K8S_POD_NAMESPACE=ns'') ''K8S_POD_NAME'' = Some ''a''"
proof -
  let ?kvs = "[(''K8S_POD_NAME'', ''a''), (''K8S_POD_NAMESPACE'', ''ns'')]"
  have "\<forall>kv \<in> set ?kvs. plain_pair kv" by (simp add: plain_pair_def)
  from parseCNIArgs_print [OF _ this, of "''K8S_POD_NAME''"] show ?thesis by (simp add: print_args_def print_pair_def)
qed

end
