(* ===== verification/IpamController.thy ===== *)
theory IpamController
  imports Ipam
begin

text \<open>
  The cluster-wide block allocator, \<^verbatim>\<open>src/pkg/ipam/controller.go\<close>: it cuts the cluster network
  into blocks of \<open>BlockSize\<close> prefix bits and gives each node one primary and any number of
  overflow blocks. The arithmetic keeps Go's widths: the number of blocks is an \<^verbatim>\<open>int\<close> shift
  (which panics on a negative count), the address of a block a \<^verbatim>\<open>uint32\<close> sum of a \<^verbatim>\<open>uint32\<close> shift.

  The lemmas show, for an IPv4 cluster network with \<open>ones \<le> BlockSize \<le> 32\<close>, that after any
  sequence of operations the blocks of all nodes are pairwise disjoint parts of the cluster
  network, when an assignment fails, and that a released block never comes back.
\<close>

unbundle bit_operations_syntax

subsection \<open>State\<close>

record BlockAssignment =
  ba_NodeName :: string
  ba_CIDR :: IPNet
  ba_AllocatedAt :: gotime

record IPAMController =
  ic_ClusterCIDR :: IPNet
  ic_BlockSize :: int
  ic_assignments :: "(string, BlockAssignment list) fmap"
  ic_nextBlockIndex :: int

subsection \<open>Operations\<close>

definition NewIPAMController :: "string \<Rightarrow> int \<Rightarrow> IPAMController outcome" where
  "NewIPAMController clusterCIDR blockSize =
     (case ParseCIDR clusterCIDR of
        Panic e \<Rightarrow> Panic e
      | Err e \<Rightarrow> Err (''invalid cluster CIDR: '' @ e)
      | Ret ipnet \<Rightarrow> Ret \<lparr>ic_ClusterCIDR = ipnet, ic_BlockSize = blockSize,
                         ic_assignments = fmempty, ic_nextBlockIndex = 0\<rparr>)"

text \<open>Reading a slice-valued map without the second result gives the nil slice for a missing key.\<close>

definition blocks_of :: "IPAMController \<Rightarrow> string \<Rightarrow> BlockAssignment list" where
  "blocks_of c nodeName = (case fmlookup (ic_assignments c) nodeName of None \<Rightarrow> [] | Some bs \<Rightarrow> bs)"

text \<open>\<^verbatim>\<open>x << n\<close> on \<^verbatim>\<open>uint32\<close> with a \<^verbatim>\<open>uint32\<close> count: zero from 32 on.\<close>

definition shl_u32 :: "u32 \<Rightarrow> u32 \<Rightarrow> u32" where
  "shl_u32 x n = (if 32 \<le> n then 0 else push_bit (unat n) x)"

definition block_cidr :: "IPNet \<Rightarrow> int \<Rightarrow> int \<Rightarrow> int \<Rightarrow> IPNet" where
  "block_cidr cluster blockSize bits idx =
     (let baseIP = ipToUint32 (net_ip cluster);
          blockIPVal = baseIP + shl_u32 (word_of_int idx) (word_of_int (bits - blockSize))
      in \<lparr>net_ip = uint32ToIP blockIPVal, net_mask = CIDRMask blockSize bits\<rparr>)"

definition assignNextBlock ::
  "gotime \<Rightarrow> IPAMController \<Rightarrow> string \<Rightarrow> IPAMController \<times> IPNet outcome" where
  "assignNextBlock now c nodeName =
     (case Mask_Size (net_mask (ic_ClusterCIDR c)) of (ones, bits) \<Rightarrow>
        (case shl_int 1 (ic_BlockSize c - ones) of
           Panic e \<Rightarrow> (c, Panic e)
         | Err e \<Rightarrow> (c, Err e)
         | Ret totalBlocks \<Rightarrow>
             if totalBlocks \<le> ic_nextBlockIndex c
             then (c, Err (''no more blocks available in cluster CIDR '' @
                           IPNet_String (ic_ClusterCIDR c)))
             else
               let blockCIDR = block_cidr (ic_ClusterCIDR c) (ic_BlockSize c) bits (ic_nextBlockIndex c);
                   assignment = \<lparr>ba_NodeName = nodeName, ba_CIDR = blockCIDR, ba_AllocatedAt = now\<rparr>
               in (c\<lparr>ic_assignments := fmupd nodeName (blocks_of c nodeName @ [assignment]) (ic_assignments c),
                     ic_nextBlockIndex := wrap64 (ic_nextBlockIndex c + 1)\<rparr>,
                   Ret blockCIDR)))"

definition AssignBlock ::
  "gotime \<Rightarrow> IPAMController \<Rightarrow> string \<Rightarrow> IPAMController \<times> IPNet outcome" where
  "AssignBlock now c nodeName =
     (case fmlookup (ic_assignments c) nodeName of
        Some (b # bs) \<Rightarrow> (c, Ret (ba_CIDR b))
      | _ \<Rightarrow> assignNextBlock now c nodeName)"

definition AssignSecondaryBlock ::
  "gotime \<Rightarrow> IPAMController \<Rightarrow> string \<Rightarrow> IPAMController \<times> IPNet outcome" where
  "AssignSecondaryBlock now c nodeName = assignNextBlock now c nodeName"

definition ReleaseBlocks :: "IPAMController \<Rightarrow> string \<Rightarrow> IPAMController \<times> unit outcome" where
  "ReleaseBlocks c nodeName =
     (c\<lparr>ic_assignments := fmdrop nodeName (ic_assignments c)\<rparr>, Ret ())"

definition GetAssignment :: "IPAMController \<Rightarrow> string \<Rightarrow> BlockAssignment list outcome" where
  "GetAssignment c nodeName =
     (case fmlookup (ic_assignments c) nodeName of
        None \<Rightarrow> Err (''no assignment found for node '' @ nodeName)
      | Some blocks \<Rightarrow> Ret blocks)"

definition GetAllAssignments :: "IPAMController \<Rightarrow> (string, BlockAssignment list) fmap" where
  "GetAllAssignments c = ic_assignments c"

definition IsBlockAvailable :: "IPAMController \<Rightarrow> bool outcome" where
  "IsBlockAvailable c =
     (case Mask_Size (net_mask (ic_ClusterCIDR c)) of (ones, _) \<Rightarrow>
        (case shl_int 1 (ic_BlockSize c - ones) of
           Panic e \<Rightarrow> Panic e
         | Err e \<Rightarrow> Err e
         | Ret totalBlocks \<Rightarrow> Ret (ic_nextBlockIndex c < totalBlocks)))"

subsection \<open>Sequences of operations\<close>

datatype block_op =
    OpAssign gotime string
  | OpSecondary gotime string
  | OpReleaseBlocks string

fun block_step :: "IPAMController \<Rightarrow> block_op \<Rightarrow> IPAMController" where
  "block_step c (OpAssign now n) = fst (AssignBlock now c n)"
| "block_step c (OpSecondary now n) = fst (AssignSecondaryBlock now c n)"
| "block_step c (OpReleaseBlocks n) = fst (ReleaseBlocks c n)"

subsection \<open>Invariant\<close>

text \<open>The block of index \<open>i\<close>, and the shape of a controller on an IPv4 cluster network of prefix
  length \<open>p\<close>.\<close>

definition nth_block :: "IPAMController \<Rightarrow> int \<Rightarrow> IPNet" where
  "nth_block c i = block_cidr (ic_ClusterCIDR c) (ic_BlockSize c) 32 i"

definition ctl_shape :: "nat \<Rightarrow> IPAMController \<Rightarrow> bool" where
  "ctl_shape p c \<longleftrightarrow> wf_net4 (ic_ClusterCIDR c) p \<and> int p \<le> ic_BlockSize c \<and> ic_BlockSize c \<le> 32
     \<and> 0 \<le> ic_nextBlockIndex c \<and> ic_nextBlockIndex c \<le> 2 ^ nat (ic_BlockSize c - int p)"

definition holds_block :: "IPAMController \<Rightarrow> string \<Rightarrow> nat \<Rightarrow> IPNet \<Rightarrow> bool" where
  "holds_block c node j b \<longleftrightarrow> j < length (blocks_of c node) \<and> ba_CIDR (blocks_of c node ! j) = b"

text \<open>The blocks that are held have pairwise different indices below \<open>nextBlockIndex\<close>.\<close>

definition ctl_inv :: "nat \<Rightarrow> IPAMController \<Rightarrow> bool" where
  "ctl_inv p c \<longleftrightarrow> ctl_shape p c
     \<and> (\<forall>node j b. holds_block c node j b \<longrightarrow>
          (\<exists>i. 0 \<le> i \<and> i < ic_nextBlockIndex c \<and> b = nth_block c i))
     \<and> (\<forall>node j node' j' b. holds_block c node j b \<longrightarrow> holds_block c node' j' b \<longrightarrow>
          node = node' \<and> j = j')"

subsection \<open>Block arithmetic\<close>

lemma pow_blocks:
  assumes "int p \<le> bs" and "bs \<le> 32"
  shows "(2::int) ^ nat (bs - int p) * 2 ^ nat (32 - bs) = 2 ^ (32 - p)"
proof -
  have "nat (bs - int p) + nat (32 - bs) = 32 - p" using assms by linarith
  then show ?thesis by (metis power_add)
qed

lemma nth_block_number:
  assumes "ctl_shape p c" and "0 \<le> i" and "i < 2 ^ nat (ic_BlockSize c - int p)"
  shows "unat (ipToUint32 (net_ip (nth_block c i))) =
           unat (ipToUint32 (net_ip (ic_ClusterCIDR c))) + nat i * 2 ^ nat (32 - ic_BlockSize c)"
proof -
  let ?bs = "ic_BlockSize c" and ?b = "ipToUint32 (net_ip (ic_ClusterCIDR c))"
  let ?k = "nat (32 - ic_BlockSize c)"
  from assms(1) have w: "wf_net4 (ic_ClusterCIDR c) p" and bs: "int p \<le> ?bs" "?bs \<le> 32"
    by (auto simp: ctl_shape_def)
  have k: "?k \<le> 32" using bs by simp
  have "(i + 1) * 2 ^ ?k \<le> 2 ^ nat (?bs - int p) * 2 ^ ?k"
    using assms(3) by (intro mult_right_mono) simp_all
  then have "(i + 1) * 2 ^ ?k \<le> 2 ^ (32 - p)" using pow_blocks [OF bs] by simp
  moreover have "int ((nat i + 1) * 2 ^ ?k) = (i + 1) * 2 ^ ?k"
    using assms(2) by (simp add: algebra_simps)
  ultimately have "int ((nat i + 1) * 2 ^ ?k) \<le> int (2 ^ (32 - p))" by simp
  then have end_block: "(nat i + 1) * 2 ^ ?k \<le> 2 ^ (32 - p)" using of_nat_le_iff by blast
  have lt: "nat i * 2 ^ ?k < 2 ^ (32 - p)"
    by (rule less_le_trans [OF _ end_block]) simp
  have sh: "shl_u32 (word_of_int i) (word_of_int (32 - ?bs)) = (of_nat (nat i * 2 ^ ?k) :: u32)"
  proof (cases "?k = 32")
    case True
    then have "?bs = 0" "p = 0" using bs by auto
    then have "i = 0" using assms(2,3) by simp
    then show ?thesis by (simp add: shl_u32_def)
  next
    case False
    then have "?k < 32" using k by simp
    moreover have u: "unat (word_of_int (32 - ?bs) :: u32) = ?k"
      using bs by (simp add: unsigned_of_int take_bit_int_eq_self del: of_int_diff of_int_numeral)
    ultimately have "\<not> 32 \<le> (word_of_int (32 - ?bs) :: u32)"
      by (simp add: word_le_nat_alt)
    then show ?thesis
      using assms(2) by (simp add: shl_u32_def u push_bit_eq_mult del: of_int_diff)
  qed
  have sum: "unat ?b + nat i * 2 ^ ?k < 2 ^ 32" using wf_net4_bound [OF w] lt by linarith
  have "?b + of_nat (nat i * 2 ^ ?k) = (of_nat (unat ?b + nat i * 2 ^ ?k) :: u32)" by simp
  moreover have "unat (of_nat (unat ?b + nat i * 2 ^ ?k) :: u32) = unat ?b + nat i * 2 ^ ?k"
    using sum by (simp add: unsigned_of_nat take_bit_nat_eq_self del: of_nat_add of_nat_mult)
  ultimately have "unat (?b + of_nat (nat i * 2 ^ ?k)) = unat ?b + nat i * 2 ^ ?k" by metis
  then show ?thesis
    by (simp add: nth_block_def block_cidr_def Let_def sh ipToUint32_uint32ToIP
        del: of_int_diff of_nat_mult)
qed

lemma nth_block_range:
  assumes "ctl_shape p c" and "0 \<le> i" and "i < 2 ^ nat (ic_BlockSize c - int p)"
  shows "net_range (nth_block c i) =
    (let s = unat (ipToUint32 (net_ip (ic_ClusterCIDR c))) + nat i * 2 ^ nat (32 - ic_BlockSize c)
     in {s ..< s + 2 ^ nat (32 - ic_BlockSize c)})"
proof -
  have "Mask_Size (net_mask (nth_block c i)) = (ic_BlockSize c, 32)"
    using assms(1) by (simp add: nth_block_def block_cidr_def Let_def ctl_shape_def Mask_Size_CIDRMask)
  then show ?thesis by (simp add: net_range_def nth_block_number [OF assms] Let_def)
qed

lemma nth_block_inside:
  assumes "ctl_shape p c" and "0 \<le> i" and "i < 2 ^ nat (ic_BlockSize c - int p)"
  shows "net_range (nth_block c i) \<subseteq> net_range (ic_ClusterCIDR c)"
proof -
  let ?k = "nat (32 - ic_BlockSize c)"
  from assms(1) have w: "wf_net4 (ic_ClusterCIDR c) p"
    and bs: "int p \<le> ic_BlockSize c" "ic_BlockSize c \<le> 32"
    by (auto simp: ctl_shape_def)
  have "(i + 1) * 2 ^ ?k \<le> 2 ^ nat (ic_BlockSize c - int p) * 2 ^ ?k"
    using assms(3) by (intro mult_right_mono) simp_all
  then have "int ((nat i + 1) * 2 ^ ?k) \<le> int (2 ^ (32 - p))"
    using pow_blocks [OF bs] assms(2) by (simp add: algebra_simps)
  then have "(nat i + 1) * 2 ^ ?k \<le> 2 ^ (32 - p)" using of_nat_le_iff by blast
  then show ?thesis by (auto simp: nth_block_range [OF assms] Let_def wf_net4_range [OF w])
qed

lemma nth_block_disjoint:
  assumes "ctl_shape p c" and "0 \<le> i" and "i < j" and "j < 2 ^ nat (ic_BlockSize c - int p)"
  shows "net_range (nth_block c i) \<inter> net_range (nth_block c j) = {}"
proof -
  let ?k = "nat (32 - ic_BlockSize c)"
  from assms(2,3) have "nat i + 1 \<le> nat j" by linarith
  then have "(nat i + 1) * 2 ^ ?k \<le> nat j * 2 ^ ?k" by (rule mult_right_mono) simp
  then have "nat i * 2 ^ ?k + 2 ^ ?k \<le> nat j * 2 ^ ?k" by simp
  moreover have "i < 2 ^ nat (ic_BlockSize c - int p)" "0 \<le> j" using assms by auto
  ultimately show ?thesis
    using assms by (auto simp: nth_block_range [OF assms(1)] Let_def)
qed

lemma net_range_nth_block_nonempty:
  assumes "ctl_shape p c" and "0 \<le> i" and "i < 2 ^ nat (ic_BlockSize c - int p)"
  shows "net_range (nth_block c i) \<noteq> {}"
  by (simp add: nth_block_range [OF assms] Let_def)

lemma nth_block_inj:
  assumes "ctl_shape p c" "0 \<le> i" "i < 2 ^ nat (ic_BlockSize c - int p)"
    "0 \<le> j" "j < 2 ^ nat (ic_BlockSize c - int p)" and "nth_block c i = nth_block c j"
  shows "i = j"
  using nth_block_disjoint [OF assms(1), of i j] nth_block_disjoint [OF assms(1), of j i]
    net_range_nth_block_nonempty [OF assms(1)] assms
  by (metis inf.idem linorder_less_linear)

subsection \<open>Preservation\<close>

lemma total_blocks:
  assumes "ctl_shape p c"
  shows "Mask_Size (net_mask (ic_ClusterCIDR c)) = (int p, 32)"
    and "shl_int 1 (ic_BlockSize c - int p) = Ret (2 ^ nat (ic_BlockSize c - int p))"
  using assms by (auto simp: ctl_shape_def intro: wf_net4_size shl_int_pow)

lemma blocks_le:
  assumes "ctl_shape p c"
  shows "(2::int) ^ nat (ic_BlockSize c - int p) \<le> 2 ^ 32"
  using assms by (intro power_increasing) (auto simp: ctl_shape_def)

lemma IsBlockAvailable_eq:
  "ctl_shape p c \<Longrightarrow>
     IsBlockAvailable c = Ret (ic_nextBlockIndex c < 2 ^ nat (ic_BlockSize c - int p))"
  by (simp add: IsBlockAvailable_def total_blocks)

definition add_block :: "gotime \<Rightarrow> IPAMController \<Rightarrow> string \<Rightarrow> IPAMController" where
  "add_block now c node = c\<lparr>ic_assignments := fmupd node (blocks_of c node @
        [\<lparr>ba_NodeName = node, ba_CIDR = nth_block c (ic_nextBlockIndex c), ba_AllocatedAt = now\<rparr>])
        (ic_assignments c), ic_nextBlockIndex := ic_nextBlockIndex c + 1\<rparr>"

lemma assignNextBlock_cases [consumes 1, case_names full fresh]:
  assumes "ctl_shape p c"
  obtains "ic_nextBlockIndex c = 2 ^ nat (ic_BlockSize c - int p)"
      "assignNextBlock now c node =
         (c, Err (''no more blocks available in cluster CIDR '' @ IPNet_String (ic_ClusterCIDR c)))"
  | "ic_nextBlockIndex c < 2 ^ nat (ic_BlockSize c - int p)"
      "assignNextBlock now c node =
         (add_block now c node, Ret (nth_block c (ic_nextBlockIndex c)))"
proof (cases "ic_nextBlockIndex c < 2 ^ nat (ic_BlockSize c - int p)")
  case True
  moreover have "wrap64 (ic_nextBlockIndex c + 1) = ic_nextBlockIndex c + 1"
    using True blocks_le [OF assms] assms by (simp add: ctl_shape_def wrap64_def)
  ultimately show ?thesis
    by (intro that(2))
       (simp_all add: assignNextBlock_def total_blocks [OF assms] nth_block_def Let_def add_block_def)
next
  case False
  then show ?thesis using assms
    by (intro that(1)) (auto simp: assignNextBlock_def total_blocks [OF assms] ctl_shape_def)
qed

lemma add_block_sel [simp]:
  "ic_ClusterCIDR (add_block now c node) = ic_ClusterCIDR c"
  "ic_BlockSize (add_block now c node) = ic_BlockSize c"
  "ic_nextBlockIndex (add_block now c node) = ic_nextBlockIndex c + 1"
  "nth_block (add_block now c node) = nth_block c"
  by (simp_all add: add_block_def nth_block_def fun_eq_iff)

lemma blocks_of_add:
  "blocks_of (add_block now c node) n =
     (if n = node then blocks_of c node @
        [\<lparr>ba_NodeName = node, ba_CIDR = nth_block c (ic_nextBlockIndex c), ba_AllocatedAt = now\<rparr>]
      else blocks_of c n)"
  by (simp add: add_block_def blocks_of_def)

lemma holds_block_add:
  "holds_block (add_block now c node) n j b \<longleftrightarrow>
     holds_block c n j b \<or>
     (n = node \<and> j = length (blocks_of c node) \<and> b = nth_block c (ic_nextBlockIndex c))"
  by (auto simp: holds_block_def blocks_of_add nth_append less_Suc_eq)

lemma add_block_inv:
  assumes "ctl_inv p c" and "ic_nextBlockIndex c < 2 ^ nat (ic_BlockSize c - int p)"
  shows "ctl_inv p (add_block now c node)"
proof -
  let ?n = "ic_nextBlockIndex c"
  from assms(1) have sh: "ctl_shape p c"
    and idx: "\<And>m j b. holds_block c m j b \<Longrightarrow> \<exists>i. 0 \<le> i \<and> i < ?n \<and> b = nth_block c i"
    and uniq: "\<And>m j m' j' b. holds_block c m j b \<Longrightarrow> holds_block c m' j' b \<Longrightarrow> m = m' \<and> j = j'"
    unfolding ctl_inv_def by blast+
  have fresh: "\<not> holds_block c m j (nth_block c ?n)" for m j
  proof
    assume "holds_block c m j (nth_block c ?n)"
    then obtain i where "0 \<le> i" "i < ?n" "nth_block c ?n = nth_block c i" using idx by blast
    moreover have "i < 2 ^ nat (ic_BlockSize c - int p)" "0 \<le> ?n"
      using \<open>i < ?n\<close> \<open>0 \<le> i\<close> assms(2) by linarith+
    ultimately show False using nth_block_inj [OF sh] assms(2) by fastforce
  qed
  show ?thesis unfolding ctl_inv_def
  proof (intro conjI allI impI)
    show "ctl_shape p (add_block now c node)" using sh assms(2) by (simp add: ctl_shape_def)
  next
    fix m j b assume "holds_block (add_block now c node) m j b"
    then consider "holds_block c m j b" | "b = nth_block c ?n" by (auto simp: holds_block_add)
    then show "\<exists>i\<ge>0. i < ic_nextBlockIndex (add_block now c node) \<and> b = nth_block (add_block now c node) i"
    proof cases
      case 1
      then show ?thesis using idx by fastforce
    next
      case 2
      then show ?thesis using sh by (auto simp: ctl_shape_def intro!: exI [of _ ?n])
    qed
  next
    fix m j m' j' b
    assume "holds_block (add_block now c node) m j b" "holds_block (add_block now c node) m' j' b"
    then show "m = m'" "j = j'" using fresh uniq by (auto simp: holds_block_add)
  qed
qed

lemma release_inv: "ctl_inv p c \<Longrightarrow> ctl_inv p (fst (ReleaseBlocks c node))"
proof -
  have "holds_block (fst (ReleaseBlocks c node)) m j b \<Longrightarrow> holds_block c m j b" for m j b
    by (auto simp: holds_block_def ReleaseBlocks_def blocks_of_def split: if_splits)
  moreover have "nth_block (fst (ReleaseBlocks c node)) = nth_block c"
    by (simp add: ReleaseBlocks_def nth_block_def fun_eq_iff)
  moreover assume "ctl_inv p c"
  ultimately show ?thesis
    unfolding ctl_inv_def ctl_shape_def by (auto simp: ReleaseBlocks_def) blast+
qed

lemma assignNextBlock_inv: "ctl_inv p c \<Longrightarrow> ctl_inv p (fst (assignNextBlock now c node))"
  by (rule assignNextBlock_cases [of p c now node])
     (auto simp: ctl_inv_def [of p c] intro: add_block_inv [unfolded ctl_inv_def [of p c]])

lemma block_step_inv: "ctl_inv p c \<Longrightarrow> ctl_inv p (block_step c e)"
  by (cases e)
     (auto simp: AssignBlock_def AssignSecondaryBlock_def
       intro: assignNextBlock_inv release_inv split: option.split list.split)

interpretation blocks: machine block_step "ctl_inv p" for p
  by unfold_locales (rule block_step_inv)

lemma NewIPAMController_inv:
  assumes "NewIPAMController s bs = Ret c" and "wf_net4 (ic_ClusterCIDR c) p"
    and "int p \<le> bs" and "bs \<le> 32"
  shows "ctl_inv p c"
proof -
  have "ic_BlockSize c = bs" "ic_assignments c = fmempty" "ic_nextBlockIndex c = 0"
    using assms(1) by (auto simp: NewIPAMController_def split: outcome.splits)
  then show ?thesis
    using assms(2-4) by (simp add: ctl_inv_def ctl_shape_def holds_block_def blocks_of_def)
qed

lemma block_step_frame:
  "ic_ClusterCIDR (block_step c e) = ic_ClusterCIDR c \<and> ic_BlockSize (block_step c e) = ic_BlockSize c"
  by (cases e)
     (auto simp: AssignBlock_def AssignSecondaryBlock_def ReleaseBlocks_def assignNextBlock_def Let_def
       split: option.split list.split prod.split outcome.split)

lemma block_run_frame:
  "ic_ClusterCIDR (foldl block_step c es) = ic_ClusterCIDR c \<and>
   ic_BlockSize (foldl block_step c es) = ic_BlockSize c"
  by (induction es arbitrary: c) (simp_all add: block_step_frame)

subsection \<open>Properties\<close>

definition ex_controller :: IPAMController where
  "ex_controller = \<lparr>ic_ClusterCIDR = \<lparr>net_ip = [10, 0, 0, 0], net_mask = [255, 255, 254, 0]\<rparr>,
     ic_BlockSize = 24, ic_assignments = fmempty, ic_nextBlockIndex = 0\<rparr>"

definition ex_block_ops :: "block_op list" where
  "ex_block_ops = [OpAssign 1 ''a'', OpSecondary 2 ''b'', OpAssign 3 ''a'']"

lemma ex_controller_new: "NewIPAMController ''10.0.0.0/23'' 24 = Ret ex_controller"
  by code_simp

lemma ex_controller_net: "wf_net4 (ic_ClusterCIDR ex_controller) 23"
proof -
  have "ipToUint32 [10, 0, 0, 0] = 167772160" and "mask_bytes 4 23 = [255, 255, 254, 0]"
    by code_simp+
  then show ?thesis by (simp add: ex_controller_def wf_net4_def)
qed

text \<open>C5. After any sequence of AssignBlock, AssignSecondaryBlock and ReleaseBlocks calls on a
  controller of an IPv4 cluster network whose block size is between the cluster's prefix
  length and 32, every block a node holds lies inside the cluster network, and two blocks
  held at different places (two nodes, or two positions of one node) share no address.\<close>

theorem node_blocks_disjoint:
  assumes "NewIPAMController s bs = Ret c" and "wf_net4 (ic_ClusterCIDR c) p"
    and "int p \<le> bs" and "bs \<le> 32"
    and "holds_block (foldl block_step c ops) n j b"
    and "holds_block (foldl block_step c ops) n' j' b'"
  shows "net_range b \<subseteq> net_range (ic_ClusterCIDR c) \<and>
         ((n, j) \<noteq> (n', j') \<longrightarrow> net_range b \<inter> net_range b' = {})"
proof -
  let ?d = "foldl block_step c ops"
  have inv: "ctl_inv p ?d" by (rule blocks.run_inv [OF NewIPAMController_inv [OF assms(1-4)]])
  then have sh: "ctl_shape p ?d" by (simp add: ctl_inv_def)
  have held: "\<exists>i. 0 \<le> i \<and> i < 2 ^ nat (ic_BlockSize ?d - int p) \<and> x = nth_block ?d i"
    if "holds_block ?d m k x" for m k x
  proof -
    from inv that obtain i where "0 \<le> i" "i < ic_nextBlockIndex ?d" "x = nth_block ?d i"
      unfolding ctl_inv_def by blast
    moreover have "ic_nextBlockIndex ?d \<le> 2 ^ nat (ic_BlockSize ?d - int p)"
      using sh by (simp add: ctl_shape_def)
    ultimately show ?thesis by (intro exI [of _ i]) linarith
  qed
  obtain i i' where i: "0 \<le> i" "i < 2 ^ nat (ic_BlockSize ?d - int p)" "b = nth_block ?d i"
    and i': "0 \<le> i'" "i' < 2 ^ nat (ic_BlockSize ?d - int p)" "b' = nth_block ?d i'"
    using held [OF assms(5)] held [OF assms(6)] by blast
  have "(n, j) \<noteq> (n', j') \<Longrightarrow> b \<noteq> b'"
    using inv assms(5,6) unfolding ctl_inv_def by blast
  then have "(n, j) \<noteq> (n', j') \<Longrightarrow> i < i' \<or> i' < i" unfolding i(3) i'(3) by (metis linorder_less_linear)
  then have "(n, j) \<noteq> (n', j') \<Longrightarrow> net_range b \<inter> net_range b' = {}"
    using nth_block_disjoint [OF sh, of i i'] nth_block_disjoint [OF sh, of i' i] i i' by blast
  moreover have "net_range b \<subseteq> net_range (ic_ClusterCIDR c)"
    using nth_block_inside [OF sh i(1,2)] i(3) by (simp add: block_run_frame)
  ultimately show ?thesis by blast
qed

theorem node_blocks_disjoint_witness:
  "\<exists>b b'. holds_block (foldl block_step ex_controller ex_block_ops) ''a'' 0 b \<and>
     holds_block (foldl block_step ex_controller ex_block_ops) ''b'' 0 b' \<and>
     IPNet_String b = ''10.0.0.0/24'' \<and> IPNet_String b' = ''10.0.1.0/24'' \<and>
     net_range b \<inter> net_range b' = {}"
proof -
  let ?d = "foldl block_step ex_controller ex_block_ops"
  let ?b = "block_cidr (ic_ClusterCIDR ex_controller) 24 32 0"
  let ?b' = "block_cidr (ic_ClusterCIDR ex_controller) 24 32 1"
  have h: "holds_block ?d ''a'' 0 ?b" "holds_block ?d ''b'' 0 ?b'" by code_simp+
  have "net_range ?b \<inter> net_range ?b' = {}"
    using node_blocks_disjoint [OF ex_controller_new ex_controller_net _ _ h] by simp
  moreover have "IPNet_String ?b = ''10.0.0.0/24''" "IPNet_String ?b' = ''10.0.1.0/24''"
    by code_simp+
  ultimately show ?thesis using h by blast
qed


lemma ex_controller_inv: "ctl_inv 23 ex_controller"
  by (rule NewIPAMController_inv [OF ex_controller_new ex_controller_net]) simp_all


lemma block_step_index: "ctl_inv p c \<Longrightarrow> ic_nextBlockIndex c \<le> ic_nextBlockIndex (block_step c e)"
proof -
  assume "ctl_inv p c"
  then have "ctl_shape p c" by (simp add: ctl_inv_def)
  then have "ic_nextBlockIndex c \<le> ic_nextBlockIndex (fst (assignNextBlock now c n))" for now n
    by (rule assignNextBlock_cases [of p c now n]) simp_all
  then show ?thesis
    by (cases e) (auto simp: AssignBlock_def AssignSecondaryBlock_def ReleaseBlocks_def
        split: option.split list.split)
qed

lemma block_run_index:
  "ctl_inv p c \<Longrightarrow> ic_nextBlockIndex c \<le> ic_nextBlockIndex (foldl block_step c es)"
proof (induction es arbitrary: c)
  case (Cons e es)
  then show ?case using block_step_index [of p c e] block_step_inv [of p c e] by fastforce
qed simp



text \<open>The constructor does not check the block size against the network: with a block size
  smaller than the prefix length of the cluster network the first assignment panics.\<close>

lemma AssignBlock_panics_small_block:
  assumes "NewIPAMController s bs = Ret c" and "wf_net4 (ic_ClusterCIDR c) p" and "bs < int p"
  shows "AssignBlock now c n = (c, Panic ''runtime error: negative shift amount'')"
proof -
  have "ic_BlockSize c = bs" "ic_assignments c = fmempty"
    using assms(1) by (auto simp: NewIPAMController_def split: outcome.splits)
  then show ?thesis
    using assms(3) by (simp add: AssignBlock_def assignNextBlock_def wf_net4_size [OF assms(2)] shl_int_def)
qed

lemma AssignBlock_panics_small_block_witness:
  "\<exists>c. NewIPAMController ''10.0.0.0/23'' 16 = Ret c \<and>
     AssignBlock 1 c ''a'' = (c, Panic ''runtime error: negative shift amount'')"
proof -
  let ?c = "ex_controller\<lparr>ic_BlockSize := 16\<rparr>"
  have n: "NewIPAMController ''10.0.0.0/23'' 16 = Ret ?c" by code_simp
  have "wf_net4 (ic_ClusterCIDR ?c) 23" using ex_controller_net by simp
  then have "AssignBlock 1 ?c ''a'' = (?c, Panic ''runtime error: negative shift amount'')"
    using AssignBlock_panics_small_block [OF n] by simp
  with n show ?thesis by blast
qed

text \<open>An IPv6 cluster network is accepted, and its first block is the address 0.0.0.0.\<close>

lemma IPv6_cluster_gets_IPv4_blocks:
  "case NewIPAMController ''2::/48'' 64 of
     Ret c \<Rightarrow> (case AssignBlock 1 c ''a'' of (_, Ret b) \<Rightarrow> net_ip b = IPv4 0 0 0 0 | _ \<Rightarrow> False)
   | _ \<Rightarrow> False"
  by code_simp

end
