(* ===== verification/LeaderElection.thy ===== *)
theory LeaderElection
  imports Prelude
begin

text \<open>
  The leader election of the controller, the type \<open>LeaderElector\<close> of
  \<^verbatim>\<open>src/cmd/controller/main.go\<close>: an exclusive advisory lock (\<^verbatim>\<open>flock\<close>) on a file under \<^verbatim>\<open>/tmp\<close>. The
  operating system is modelled by its open file descriptions and the description that holds
  the lock of each file: an exclusive non-blocking lock is refused while another description
  holds it, and closing a description gives its lock up. Failures of the two system calls for
  other reasons are arguments of an attempt. The mutex makes each method one step.

  Any number of processes elect a leader: starting, attempting, resigning and dying are the
  steps of an inductive relation, and the lemmas are about every state it reaches.
\<close>

subsection \<open>The operating system's view\<close>

record lock_os =
  lo_open :: "(nat, string) fmap"
  lo_lock :: "(string, nat) fmap"
  lo_next :: nat

definition open_file :: "lock_os \<Rightarrow> string \<Rightarrow> lock_os \<times> nat" where
  "open_file s path = (s\<lparr>lo_open := fmupd (lo_next s) path (lo_open s), lo_next := lo_next s + 1\<rparr>, lo_next s)"

definition flock_exclusive :: "lock_os \<Rightarrow> nat \<Rightarrow> lock_os \<times> bool" where
  "flock_exclusive s fd = (case fmlookup (lo_open s) fd of
     None \<Rightarrow> (s, False)
   | Some path \<Rightarrow> (case fmlookup (lo_lock s) path of
       None \<Rightarrow> (s\<lparr>lo_lock := fmupd path fd (lo_lock s)\<rparr>, True)
     | Some holder \<Rightarrow> (s, holder = fd)))"

definition flock_unlock :: "lock_os \<Rightarrow> nat \<Rightarrow> lock_os" where
  "flock_unlock s fd = (case fmlookup (lo_open s) fd of
     None \<Rightarrow> s
   | Some path \<Rightarrow> if fmlookup (lo_lock s) path = Some fd then s\<lparr>lo_lock := fmdrop path (lo_lock s)\<rparr> else s)"

definition close_file :: "lock_os \<Rightarrow> nat \<Rightarrow> lock_os" where
  "close_file s fd = (let s1 = flock_unlock s fd in s1\<lparr>lo_open := fmdrop fd (lo_open s1)\<rparr>)"

text \<open>What may go wrong in one attempt apart from a held lock.\<close>

record attempt =
  at_open_fails :: bool
  at_flock_fails :: bool

subsection \<open>The elector\<close>

record LeaderElector =
  lel_lockPath :: string
  lel_lockFile :: "nat option"

definition NewLeaderElector :: "string \<Rightarrow> LeaderElector" where
  "NewLeaderElector ident = \<lparr>lel_lockPath = ''/tmp/'' @ ident @ ''.lock'', lel_lockFile = None\<rparr>"

definition TryAcquire :: "attempt \<Rightarrow> lock_os \<Rightarrow> LeaderElector \<Rightarrow> (lock_os \<times> LeaderElector) \<times> bool" where
  "TryAcquire env s le =
     (if lel_lockFile le \<noteq> None then ((s, le), True)
      else if at_open_fails env then ((s, le), False)
      else case open_file s (lel_lockPath le) of (s1, f) \<Rightarrow>
        (case (if at_flock_fails env then (s1, False) else flock_exclusive s1 f) of
           (s2, False) \<Rightarrow> ((close_file s2 f, le), False)
         | (s2, True) \<Rightarrow> ((s2, le\<lparr>lel_lockFile := Some f\<rparr>), True)))"

definition elector_Release :: "lock_os \<Rightarrow> LeaderElector \<Rightarrow> lock_os \<times> LeaderElector" where
  "elector_Release s le = (case lel_lockFile le of
     None \<Rightarrow> (s, le)
   | Some f \<Rightarrow> (close_file (flock_unlock s f) f, le\<lparr>lel_lockFile := None\<rparr>))"

definition IsLeader :: "LeaderElector \<Rightarrow> bool" where
  "IsLeader le \<longleftrightarrow> lel_lockFile le \<noteq> None"

subsection \<open>Processes that elect\<close>

record election =
  el_os :: lock_os
  el_procs :: "(nat, LeaderElector) fmap"

definition no_election :: election where
  "no_election = \<lparr>el_os = \<lparr>lo_open = fmempty, lo_lock = fmempty, lo_next = 0\<rparr>, el_procs = fmempty\<rparr>"

text \<open>When a process dies, the system closes its descriptions.\<close>

definition kill_process :: "lock_os \<Rightarrow> LeaderElector \<Rightarrow> lock_os" where
  "kill_process s le = (case lel_lockFile le of None \<Rightarrow> s | Some f \<Rightarrow> close_file s f)"

inductive election_step :: "election \<Rightarrow> election \<Rightarrow> bool" where
  start: "fmlookup (el_procs s) p = None \<Longrightarrow>
    election_step s (s\<lparr>el_procs := fmupd p (NewLeaderElector ident) (el_procs s)\<rparr>)"
| attempt: "fmlookup (el_procs s) p = Some le \<Longrightarrow> TryAcquire env (el_os s) le = ((os, le'), b) \<Longrightarrow>
    election_step s \<lparr>el_os = os, el_procs = fmupd p le' (el_procs s)\<rparr>"
| resign: "fmlookup (el_procs s) p = Some le \<Longrightarrow> elector_Release (el_os s) le = (os, le') \<Longrightarrow>
    election_step s \<lparr>el_os = os, el_procs = fmupd p le' (el_procs s)\<rparr>"
| die: "fmlookup (el_procs s) p = Some le \<Longrightarrow>
    election_step s \<lparr>el_os = kill_process (el_os s) le, el_procs = fmdrop p (el_procs s)\<rparr>"

inductive election_reach :: "election \<Rightarrow> bool" where
  init: "election_reach no_election"
| step: "election_reach s \<Longrightarrow> election_step s t \<Longrightarrow> election_reach t"

subsection \<open>Invariant\<close>

text \<open>An open description is the lock file of exactly one process, and holds the lock of the file
  that process elects on; a held lock belongs to an open description.\<close>

definition election_ok :: "election \<Rightarrow> bool" where
  "election_ok s \<longleftrightarrow>
     (\<forall>p le fd. fmlookup (el_procs s) p = Some le \<longrightarrow> lel_lockFile le = Some fd \<longrightarrow>
        fmlookup (lo_open (el_os s)) fd = Some (lel_lockPath le)) \<and>
     (\<forall>fd path. fmlookup (lo_open (el_os s)) fd = Some path \<longrightarrow>
        fmlookup (lo_lock (el_os s)) path = Some fd \<and> fd < lo_next (el_os s) \<and>
        (\<exists>p le. fmlookup (el_procs s) p = Some le \<and> lel_lockFile le = Some fd)) \<and>
     (\<forall>fd path. fmlookup (lo_lock (el_os s)) path = Some fd \<longrightarrow> fmlookup (lo_open (el_os s)) fd = Some path) \<and>
     (\<forall>p q le lf fd. fmlookup (el_procs s) p = Some le \<longrightarrow> fmlookup (el_procs s) q = Some lf \<longrightarrow>
        lel_lockFile le = Some fd \<longrightarrow> lel_lockFile lf = Some fd \<longrightarrow> p = q)"

lemma election_okD:
  assumes "election_ok s"
  shows "fmlookup (el_procs s) p = Some le \<Longrightarrow> lel_lockFile le = Some fd \<Longrightarrow>
      fmlookup (lo_open (el_os s)) fd = Some (lel_lockPath le)"
    and "fmlookup (lo_open (el_os s)) fd = Some path \<Longrightarrow> fmlookup (lo_lock (el_os s)) path = Some fd"
    and "fmlookup (lo_open (el_os s)) fd = Some path \<Longrightarrow> fd < lo_next (el_os s)"
    and "fmlookup (lo_open (el_os s)) fd = Some path \<Longrightarrow>
      \<exists>p le. fmlookup (el_procs s) p = Some le \<and> lel_lockFile le = Some fd"
    and "fmlookup (lo_lock (el_os s)) path = Some fd \<Longrightarrow> fmlookup (lo_open (el_os s)) fd = Some path"
    and "fmlookup (el_procs s) p = Some le \<Longrightarrow> fmlookup (el_procs s) q = Some lf \<Longrightarrow>
      lel_lockFile le = Some fd \<Longrightarrow> lel_lockFile lf = Some fd \<Longrightarrow> p = q"
  using assms unfolding election_ok_def by blast+

text \<open>A failed attempt leaves the system as it was but for the counter, a successful one adds one
  description with its lock, and a release or a death removes them.\<close>

definition lock_with :: "lock_os \<Rightarrow> string \<Rightarrow> lock_os" where
  "lock_with s path = s\<lparr>lo_open := fmupd (lo_next s) path (lo_open s),
     lo_lock := fmupd path (lo_next s) (lo_lock s), lo_next := lo_next s + 1\<rparr>"

definition lock_without :: "lock_os \<Rightarrow> nat \<Rightarrow> string \<Rightarrow> lock_os" where
  "lock_without s fd path = s\<lparr>lo_open := fmdrop fd (lo_open s), lo_lock := fmdrop path (lo_lock s)\<rparr>"

lemma fmdrop_fmupd_new: "fmlookup m k = None \<Longrightarrow> fmdrop k (fmupd k v m) = m"
  by (rule fmap_ext) auto

lemma TryAcquire_cases [consumes 2, case_names leader failed won]:
  assumes "fmlookup (lo_open s) (lo_next s) = None"
    and "\<And>path. fmlookup (lo_lock s) path \<noteq> Some (lo_next s)"
  obtains "IsLeader le" "TryAcquire env s le = ((s, le), True)"
  | n where "\<not> IsLeader le" "at_open_fails env \<or> at_flock_fails env \<or> fmlookup (lo_lock s) (lel_lockPath le) \<noteq> None"
      "TryAcquire env s le = ((s\<lparr>lo_next := n\<rparr>, le), False)" "lo_next s \<le> n"
  | "\<not> IsLeader le" "\<not> at_open_fails env" "\<not> at_flock_fails env" "fmlookup (lo_lock s) (lel_lockPath le) = None"
      "TryAcquire env s le = ((lock_with s (lel_lockPath le), le\<lparr>lel_lockFile := Some (lo_next s)\<rparr>), True)"
proof -
  let ?p = "lel_lockPath le" and ?n = "lo_next s"
  consider (a) "IsLeader le" | (b) "\<not> IsLeader le" "at_open_fails env"
    | (c) "\<not> IsLeader le" "\<not> at_open_fails env" "at_flock_fails env \<or> fmlookup (lo_lock s) ?p \<noteq> None"
    | (d) "\<not> IsLeader le" "\<not> at_open_fails env" "\<not> at_flock_fails env" "fmlookup (lo_lock s) ?p = None"
    by blast
  then show ?thesis
  proof cases
    case a
    then show ?thesis by (intro that(1)) (auto simp: TryAcquire_def IsLeader_def)
  next
    case b
    then show ?thesis by (intro that(2) [of "?n"]) (auto simp: TryAcquire_def IsLeader_def)
  next
    case c
    have "close_file (s\<lparr>lo_open := fmupd ?n ?p (lo_open s), lo_next := ?n + 1\<rparr>) ?n = s\<lparr>lo_next := ?n + 1\<rparr>"
      using assms by (simp add: close_file_def flock_unlock_def Let_def fmdrop_fmupd_new)
    moreover have "snd (flock_exclusive (fst (open_file s ?p)) ?n) = False"
        "fst (flock_exclusive (fst (open_file s ?p)) ?n) = fst (open_file s ?p)"
      if "\<not> at_flock_fails env" using c that assms by (auto simp: flock_exclusive_def open_file_def)
    ultimately have "TryAcquire env s le = ((s\<lparr>lo_next := ?n + 1\<rparr>, le), False)"
      using c by (cases "at_flock_fails env")
        (auto simp: TryAcquire_def IsLeader_def open_file_def split: prod.splits bool.splits)
    then show ?thesis using c by (intro that(2) [of "?n + 1"]) auto
  next
    case d
    then show ?thesis
      by (intro that(3)) (auto simp: TryAcquire_def IsLeader_def open_file_def flock_exclusive_def lock_with_def)
  qed
qed

lemma close_locked:
  assumes "fmlookup (lo_open s) fd = Some path" and "fmlookup (lo_lock s) path = Some fd"
  shows "close_file s fd = lock_without s fd path"
    and "close_file (flock_unlock s fd) fd = lock_without s fd path"
  using assms by (auto simp: close_file_def flock_unlock_def lock_without_def Let_def)

subsection \<open>Preservation\<close>

lemma fresh_description:
  assumes "election_ok s"
  shows "fmlookup (lo_open (el_os s)) (lo_next (el_os s)) = None"
    and "fmlookup (lo_lock (el_os s)) path \<noteq> Some (lo_next (el_os s))"
    and "fmlookup (el_procs s) p = Some le \<Longrightarrow> lel_lockFile le \<noteq> Some (lo_next (el_os s))"
  using election_okD [OF assms] by (metis less_irrefl option.exhaust)+

text \<open>Only the descriptions, the locks and the processes with a lock file matter.\<close>

lemma election_ok_frame:
  assumes ok: "election_ok s" and os: "lo_open (el_os t) = lo_open (el_os s)" "lo_lock (el_os t) = lo_lock (el_os s)"
    "lo_next (el_os s) \<le> lo_next (el_os t)"
    and procs: "\<And>p le fd. lel_lockFile le = Some fd \<Longrightarrow>
      fmlookup (el_procs t) p = Some le \<longleftrightarrow> fmlookup (el_procs s) p = Some le"
  shows "election_ok t"
proof -
  note D = election_okD [OF ok]
  show ?thesis unfolding election_ok_def os(1,2)
  proof (intro conjI allI impI)
    fix fd path assume fd: "fmlookup (lo_open (el_os s)) fd = Some path"
    show "fmlookup (lo_lock (el_os s)) path = Some fd" by (rule D(2) [OF fd])
    show "fd < lo_next (el_os t)" using D(3) [OF fd] os(3) by linarith
    show "\<exists>p le. fmlookup (el_procs t) p = Some le \<and> lel_lockFile le = Some fd"
      using D(4) [OF fd] procs by blast
  qed (use D(1,5,6) procs in blast)+
qed

lemma idle_ok:
  assumes "election_ok s" and "fmlookup (el_procs s) p = Some le" and "lo_next (el_os s) \<le> n"
  shows "election_ok \<lparr>el_os = (el_os s)\<lparr>lo_next := n\<rparr>, el_procs = fmupd p le (el_procs s)\<rparr>"
  by (rule election_ok_frame [OF assms(1)]) (use assms(2,3) in auto)

lemma won_ok:
  assumes ok: "election_ok s" and p: "fmlookup (el_procs s) p = Some le" and n: "\<not> IsLeader le"
    and free: "fmlookup (lo_lock (el_os s)) (lel_lockPath le) = None"
  shows "election_ok \<lparr>el_os = lock_with (el_os s) (lel_lockPath le),
    el_procs = fmupd p (le\<lparr>lel_lockFile := Some (lo_next (el_os s))\<rparr>) (el_procs s)\<rparr>"
    (is "election_ok ?t")
proof -
  note D = election_okD [OF ok] and F = fresh_description [OF ok]
  let ?n = "lo_next (el_os s)"
  have procs: "fmlookup (el_procs ?t) q = Some f \<longleftrightarrow>
      (if q = p then f = le\<lparr>lel_lockFile := Some ?n\<rparr> else fmlookup (el_procs s) q = Some f)" for q f by auto
  have opened: "fmlookup (lo_open (el_os ?t)) fd = (if fd = ?n then Some (lel_lockPath le) else fmlookup (lo_open (el_os s)) fd)"
    and locked: "fmlookup (lo_lock (el_os ?t)) path = (if path = lel_lockPath le then Some ?n else fmlookup (lo_lock (el_os s)) path)"
    for fd path by (auto simp: lock_with_def)
  show ?thesis unfolding election_ok_def
  proof (intro conjI allI impI)
    fix q f fd assume "fmlookup (el_procs ?t) q = Some f" "lel_lockFile f = Some fd"
    then show "fmlookup (lo_open (el_os ?t)) fd = Some (lel_lockPath f)"
      unfolding procs opened using D(1) [of q f fd] F(3) [of q f] by (auto split: if_splits)
  next
    fix fd path assume a: "fmlookup (lo_open (el_os ?t)) fd = Some path"
    show "fmlookup (lo_lock (el_os ?t)) path = Some fd"
      using a D(2) [of fd path] free unfolding opened locked by (auto split: if_splits)
    show "fd < lo_next (el_os ?t)" using a D(3) [of fd path] unfolding opened
      by (auto simp: lock_with_def split: if_splits)
    show "\<exists>q f. fmlookup (el_procs ?t) q = Some f \<and> lel_lockFile f = Some fd"
    proof (cases "fd = ?n")
      case True
      then show ?thesis by (intro exI [of _ p] exI [of _ "le\<lparr>lel_lockFile := Some ?n\<rparr>"]) simp
    next
      case False
      then obtain q f where q: "fmlookup (el_procs s) q = Some f" "lel_lockFile f = Some fd"
        using a D(4) [of fd path] unfolding opened by auto
      then have "q \<noteq> p" using p n by (auto simp: IsLeader_def)
      then show ?thesis using q by (intro exI [of _ q] exI [of _ f]) simp
    qed
  next
    fix fd path assume "fmlookup (lo_lock (el_os ?t)) path = Some fd"
    then show "fmlookup (lo_open (el_os ?t)) fd = Some path"
      using D(5) [of path fd] F(2) [of path] unfolding opened locked by (auto split: if_splits)
  next
    fix q r f g fd
    assume "fmlookup (el_procs ?t) q = Some f" "fmlookup (el_procs ?t) r = Some g"
      "lel_lockFile f = Some fd" "lel_lockFile g = Some fd"
    then show "q = r" unfolding procs using D(6) [of q f r g fd] F(3) [of q f] F(3) [of r g]
      by (auto split: if_splits)
  qed
qed

text \<open>Resigning and dying: the process loses its description and becomes an elector without a lock
  file, or disappears.\<close>

lemma lost_ok:
  assumes ok: "election_ok s" and p: "fmlookup (el_procs s) p = Some le" and fd: "lel_lockFile le = Some fd"
    and procs: "\<And>q f. fmlookup m q = Some f \<Longrightarrow> q \<noteq> p \<and> fmlookup (el_procs s) q = Some f \<or> lel_lockFile f = None"
    and kept: "\<And>q f. q \<noteq> p \<Longrightarrow> fmlookup (el_procs s) q = Some f \<Longrightarrow> fmlookup m q = Some f"
  shows "election_ok \<lparr>el_os = lock_without (el_os s) fd (lel_lockPath le), el_procs = m\<rparr>" (is "election_ok ?t")
proof -
  note D = election_okD [OF ok]
  have o: "fmlookup (lo_open (el_os s)) fd = Some (lel_lockPath le)" by (rule D(1) [OF p fd])
  have opened: "fmlookup (lo_open (el_os ?t)) g = (if g = fd then None else fmlookup (lo_open (el_os s)) g)"
    and locked: "fmlookup (lo_lock (el_os ?t)) path = (if path = lel_lockPath le then None else fmlookup (lo_lock (el_os s)) path)"
    for g path by (auto simp: lock_without_def)
  have other: "q \<noteq> p \<and> fmlookup (el_procs s) q = Some f \<and> g \<noteq> fd"
    if "fmlookup (el_procs ?t) q = Some f" "lel_lockFile f = Some g" for q f g
    using procs [of q f] that D(6) [OF p _ fd, of q f] by auto
  show ?thesis unfolding election_ok_def
  proof (intro conjI allI impI)
    fix q f g assume "fmlookup (el_procs ?t) q = Some f" "lel_lockFile f = Some g"
    then show "fmlookup (lo_open (el_os ?t)) g = Some (lel_lockPath f)"
      using other [of q f g] D(1) [of q f g] unfolding opened by auto
  next
    fix g path assume "fmlookup (lo_open (el_os ?t)) g = Some path"
    then have a: "g \<noteq> fd" "fmlookup (lo_open (el_os s)) g = Some path" unfolding opened by (auto split: if_splits)
    then show "fmlookup (lo_lock (el_os ?t)) path = Some g"
      using D(2) [OF a(2)] D(2) [OF o] unfolding locked by auto
    show "g < lo_next (el_os ?t)" using D(3) [OF a(2)] by (simp add: lock_without_def)
    from D(4) [OF a(2)] obtain q f where q: "fmlookup (el_procs s) q = Some f" "lel_lockFile f = Some g" by blast
    with a(1) fd p have "q \<noteq> p" by auto
    with q kept [of q f] show "\<exists>q f. fmlookup (el_procs ?t) q = Some f \<and> lel_lockFile f = Some g" by auto
  next
    fix g path assume "fmlookup (lo_lock (el_os ?t)) path = Some g"
    then show "fmlookup (lo_open (el_os ?t)) g = Some path"
      using D(5) [of path g] o unfolding opened locked by (auto split: if_splits)
  next
    fix q r f g h assume "fmlookup (el_procs ?t) q = Some f" "fmlookup (el_procs ?t) r = Some g"
      "lel_lockFile f = Some h" "lel_lockFile g = Some h"
    then show "q = r" using other [of q f h] other [of r g h] D(6) [of q f r g h] by auto
  qed
qed

lemma election_step_ok: "election_ok s \<Longrightarrow> election_step s t \<Longrightarrow> election_ok t"
proof -
  assume ok: "election_ok s"
  assume "election_step s t"
  then show ?thesis
  proof cases
    case (start p ident)
    show ?thesis unfolding start(1)
      by (rule election_ok_frame [OF ok]) (use start(2) in \<open>auto simp: NewLeaderElector_def\<close>)
  next
    case (attempt p le env os le' b)
    from fresh_description(1,2) [OF ok] show ?thesis
    proof (cases rule: TryAcquire_cases [of "el_os s" le env])
      case leader
      with attempt have "t = \<lparr>el_os = (el_os s)\<lparr>lo_next := lo_next (el_os s)\<rparr>, el_procs = fmupd p le (el_procs s)\<rparr>" by simp
      then show ?thesis using idle_ok [OF ok attempt(2) order_refl] by simp
    next
      case (failed n)
      then show ?thesis using attempt idle_ok [OF ok attempt(2)] by simp
    next
      case won
      then show ?thesis using attempt won_ok [OF ok attempt(2)] by simp
    qed
  next
    case (resign p le os le')
    show ?thesis
    proof (cases "lel_lockFile le")
      case None
      with resign have "t = \<lparr>el_os = (el_os s)\<lparr>lo_next := lo_next (el_os s)\<rparr>, el_procs = fmupd p le (el_procs s)\<rparr>"
        by (simp add: elector_Release_def)
      then show ?thesis using idle_ok [OF ok resign(2) order_refl] by simp
    next
      case (Some fd)
      note o = election_okD(1) [OF ok resign(2) Some]
      have "t = \<lparr>el_os = lock_without (el_os s) fd (lel_lockPath le),
          el_procs = fmupd p (le\<lparr>lel_lockFile := None\<rparr>) (el_procs s)\<rparr>"
        using resign Some close_locked(2) [OF o election_okD(2) [OF ok o]] by (simp add: elector_Release_def)
      then show ?thesis by (auto intro!: lost_ok [OF ok resign(2) Some] split: if_splits)
    qed
  next
    case (die p le)
    show ?thesis
    proof (cases "lel_lockFile le")
      case None
      then show ?thesis unfolding die(1)
        by (intro election_ok_frame [OF ok]) (use die(2) in \<open>auto simp: kill_process_def\<close>)
    next
      case (Some fd)
      note o = election_okD(1) [OF ok die(2) Some]
      have "t = \<lparr>el_os = lock_without (el_os s) fd (lel_lockPath le), el_procs = fmdrop p (el_procs s)\<rparr>"
        using die Some close_locked(1) [OF o election_okD(2) [OF ok o]] by (simp add: kill_process_def)
      then show ?thesis by (auto intro!: lost_ok [OF ok die(2) Some] split: if_splits)
    qed
  qed
qed

lemma election_reach_ok: "election_reach s \<Longrightarrow> election_ok s"
proof (induction rule: election_reach.induct)
  case init
  show ?case by (simp add: election_ok_def no_election_def)
next
  case (step s t)
  then show ?case by (blast intro: election_step_ok)
qed

text \<open>The lock of a file is free exactly when no process that elects on it leads.\<close>

lemma lock_free_iff:
  assumes "election_ok s"
  shows "fmlookup (lo_lock (el_os s)) path = None \<longleftrightarrow>
    (\<forall>p le. fmlookup (el_procs s) p = Some le \<longrightarrow> lel_lockPath le = path \<longrightarrow> \<not> IsLeader le)"
proof
  note D = election_okD [OF assms]
  show "\<forall>p le. fmlookup (el_procs s) p = Some le \<longrightarrow> lel_lockPath le = path \<longrightarrow> \<not> IsLeader le"
    if "fmlookup (lo_lock (el_os s)) path = None"
    using that D(2) [OF D(1)] by (fastforce simp: IsLeader_def)
  show "fmlookup (lo_lock (el_os s)) path = None"
    if none: "\<forall>p le. fmlookup (el_procs s) p = Some le \<longrightarrow> lel_lockPath le = path \<longrightarrow> \<not> IsLeader le"
  proof (rule ccontr)
    assume "fmlookup (lo_lock (el_os s)) path \<noteq> None"
    then obtain fd where fd: "fmlookup (lo_open (el_os s)) fd = Some path" using D(5) by blast
    with D(4) obtain p le where "fmlookup (el_procs s) p = Some le" "lel_lockFile le = Some fd" by blast
    with D(1) [of p le fd] fd none show False by (auto simp: IsLeader_def)
  qed
qed

subsection \<open>Property\<close>

text \<open>C15. In every state that starting, attempting, resigning and dying processes reach, at most one
  of the processes that elect on the same lock file leads; an attempt succeeds exactly when the
  process already leads, or no process leads on its lock file and the system calls do not fail;
  and each open file description is the lock file of a leader, so attempts that fail leak none.\<close>

theorem one_leader:
  assumes "election_reach s" and "fmlookup (el_procs s) p = Some le"
  shows "(\<forall>q lf. fmlookup (el_procs s) q = Some lf \<longrightarrow> lel_lockPath lf = lel_lockPath le \<longrightarrow>
            IsLeader le \<longrightarrow> IsLeader lf \<longrightarrow> q = p) \<and>
         (snd (TryAcquire env (el_os s) le) \<longleftrightarrow> IsLeader le \<or>
            \<not> at_open_fails env \<and> \<not> at_flock_fails env \<and>
            (\<forall>q lf. fmlookup (el_procs s) q = Some lf \<longrightarrow> lel_lockPath lf = lel_lockPath le \<longrightarrow> \<not> IsLeader lf)) \<and>
         (fmlookup (lo_open (el_os s)) fd \<noteq> None \<longleftrightarrow>
            (\<exists>q lf. fmlookup (el_procs s) q = Some lf \<and> lel_lockFile lf = Some fd))"
proof (intro conjI)
  have ok: "election_ok s" by (rule election_reach_ok [OF assms(1)])
  note D = election_okD [OF ok]
  show "\<forall>q lf. fmlookup (el_procs s) q = Some lf \<longrightarrow> lel_lockPath lf = lel_lockPath le \<longrightarrow>
      IsLeader le \<longrightarrow> IsLeader lf \<longrightarrow> q = p"
  proof (intro allI impI)
    fix q lf
    assume q: "fmlookup (el_procs s) q = Some lf" "lel_lockPath lf = lel_lockPath le" "IsLeader le" "IsLeader lf"
    then obtain f g where f: "lel_lockFile le = Some f" "lel_lockFile lf = Some g" by (auto simp: IsLeader_def)
    have "f = g" using D(2) [OF D(1) [OF assms(2) f(1)]] D(2) [OF D(1) [OF q(1) f(2)]] q(2) by simp
    with f show "q = p" using D(6) [OF q(1) assms(2)] by simp
  qed
  from fresh_description(1,2) [OF ok]
  show "snd (TryAcquire env (el_os s) le) \<longleftrightarrow> IsLeader le \<or> \<not> at_open_fails env \<and> \<not> at_flock_fails env \<and>
      (\<forall>q lf. fmlookup (el_procs s) q = Some lf \<longrightarrow> lel_lockPath lf = lel_lockPath le \<longrightarrow> \<not> IsLeader lf)"
    by (cases rule: TryAcquire_cases [of "el_os s" le env]) (use lock_free_iff [OF ok, of "lel_lockPath le"] in auto)
  show "fmlookup (lo_open (el_os s)) fd \<noteq> None \<longleftrightarrow>
      (\<exists>q lf. fmlookup (el_procs s) q = Some lf \<and> lel_lockFile lf = Some fd)"
    using D(1,4) by (metis option.distinct(1) option.exhaust)
qed

text \<open>Two processes, the first of which has won.\<close>

definition no_fault :: attempt where
  "no_fault = \<lparr>at_open_fails = False, at_flock_fails = False\<rparr>"

definition ex_standby :: LeaderElector where
  "ex_standby = NewLeaderElector ''coordino-controller''"

definition ex_election :: election where
  "ex_election =
     \<lparr>el_os = \<lparr>lo_open = fmupd 0 (lel_lockPath ex_standby) fmempty,
               lo_lock = fmupd (lel_lockPath ex_standby) 0 fmempty, lo_next = 1\<rparr>,
      el_procs = fmupd 1 (ex_standby\<lparr>lel_lockFile := Some 0\<rparr>) (fmupd 2 ex_standby (fmupd 1 ex_standby fmempty))\<rparr>"

lemma ex_election_reach: "election_reach ex_election"
proof -
  let ?one = "no_election\<lparr>el_procs := fmupd 1 ex_standby (el_procs no_election)\<rparr>"
  let ?two = "?one\<lparr>el_procs := fmupd 2 ex_standby (el_procs ?one)\<rparr>"
  have "election_step no_election ?one" "election_step ?one ?two"
    unfolding ex_standby_def by (rule election_step.start; simp add: no_election_def)+
  moreover have "election_step ?two ex_election"
  proof -
    have "TryAcquire no_fault (el_os ?two) ex_standby = ((el_os ex_election, ex_standby\<lparr>lel_lockFile := Some 0\<rparr>), True)"
      by (simp add: TryAcquire_def no_fault_def ex_election_def no_election_def ex_standby_def NewLeaderElector_def
          open_file_def flock_exclusive_def)
    from election_step.attempt [OF _ this, of 1] show ?thesis by (simp add: ex_election_def no_election_def)
  qed
  ultimately show ?thesis by (blast intro: election_reach.intros)
qed

theorem one_leader_witness:
  "IsLeader (ex_standby\<lparr>lel_lockFile := Some 0\<rparr>) \<and> \<not> snd (TryAcquire no_fault (el_os ex_election) ex_standby)"
proof -
  have l: "IsLeader (ex_standby\<lparr>lel_lockFile := Some 0\<rparr>)" by (simp add: IsLeader_def)
  have one: "fmlookup (el_procs ex_election) 1 = Some (ex_standby\<lparr>lel_lockFile := Some 0\<rparr>)"
    and two: "fmlookup (el_procs ex_election) 2 = Some ex_standby" by (simp_all add: ex_election_def)
  have "\<not> IsLeader ex_standby" by (simp add: IsLeader_def ex_standby_def NewLeaderElector_def)
  moreover have "lel_lockPath (ex_standby\<lparr>lel_lockFile := Some 0\<rparr>) = lel_lockPath ex_standby" by simp
  ultimately have "\<not> snd (TryAcquire no_fault (el_os ex_election) ex_standby)"
    using one_leader [OF ex_election_reach two, of no_fault] one l by blast
  with l show ?thesis by blast
qed

end
