(* ===== verification/Controller.thy ===== *)
theory Controller
  imports IpamController PolicyStore Encryption Observability LeaderElection
begin

text \<open>
  The cluster controller, \<^verbatim>\<open>src/cmd/controller/main.go\<close>: construction, waiting for leadership, and
  the five periodic loops (node registration, policy compilation, identity collection, key
  rotation, reconciliation of the custom resources). Each tick of a loop is one operation; the
  loops interleave, so a run is a list of ticks in any order. The controller's identity
  allocator and its compiler's are one object in the source, as are its block allocator and its
  reconciler's: the state has each once. The clock, iteration orders and the digest are
  arguments. Log lines are modelled where they are all an operation does.
\<close>

subsection \<open>State\<close>

record Controller =
  ct_clusterCIDR :: string
  ct_blockSize :: int
  ct_metricsAddr :: string
  ct_leaderElectionID :: string
  ct_ipamController :: IPAMController
  ct_compiler :: PolicyCompiler
  ct_wgManager :: Manager
  ct_metrics :: noopMetrics
  ct_leaderElector :: LeaderElector
  ct_policies :: "(string, NetworkPolicySpec) fmap"

definition ct_identityAlloc :: "Controller \<Rightarrow> IdentityAllocator" where
  "ct_identityAlloc c = cmp_identityAllocator (ct_compiler c)"

definition set_identityAlloc :: "IdentityAllocator \<Rightarrow> Controller \<Rightarrow> Controller" where
  "set_identityAlloc a c = c\<lparr>ct_compiler := (ct_compiler c)\<lparr>cmp_identityAllocator := a\<rparr>\<rparr>"

definition NewController :: "string \<Rightarrow> int \<Rightarrow> string \<Rightarrow> string \<Rightarrow> Controller outcome" where
  "NewController clusterCIDR blockSize metricsAddr leaderElectionID =
     (case NewIPAMController clusterCIDR blockSize of
        Panic e \<Rightarrow> Panic e
      | Err e \<Rightarrow> Err (''failed to create IPAM controller: '' @ e)
      | Ret ipamCtrl \<Rightarrow>
          Ret \<lparr>ct_clusterCIDR = clusterCIDR, ct_blockSize = blockSize, ct_metricsAddr = metricsAddr,
               ct_leaderElectionID = leaderElectionID, ct_ipamController = ipamCtrl,
               ct_compiler = NewCompiler NewIdentityAllocator,
               ct_wgManager = NewManager \<lparr>wc_InterfaceName = [], wc_ListenPort = 0, wc_PrivateKeyPath = [], wc_MTU = 0\<rparr>,
               ct_metrics = NewCNIMetrics NewNoopRegistry,
               ct_leaderElector = NewLeaderElector leaderElectionID, ct_policies = fmempty\<rparr>)"

subsection \<open>Waiting for leadership\<close>

text \<open>One round of the loop: what other processes do to the locks before it, the faults of the
  attempt, and what wakes the controller after a failed one. A list of rounds that ends before
  the loop does gives \<open>None\<close>: the controller still waits.\<close>

datatype wake = Tick | CtxDone

record round =
  rd_others :: "lock_os \<Rightarrow> lock_os"
  rd_attempt :: attempt
  rd_wake :: wake

fun acquire_loop :: "round list \<Rightarrow> lock_os \<Rightarrow> LeaderElector \<Rightarrow> ((lock_os \<times> LeaderElector) \<times> unit outcome) option" where
  "acquire_loop [] os le = None"
| "acquire_loop (r # rs) os le =
     (case TryAcquire (rd_attempt r) (rd_others r os) le of
        ((os1, le1), True) \<Rightarrow> Some ((os1, le1), Ret ())
      | ((os1, le1), False) \<Rightarrow>
          (case rd_wake r of
             Tick \<Rightarrow> acquire_loop rs os1 le1
           | CtxDone \<Rightarrow> Some ((os1, le1), Err ''context canceled'')))"

definition dummy_spec :: NetworkPolicySpec where
  "dummy_spec = \<lparr>nps_PodSelector = fmap_of_list [(''env'', ''prod'')], nps_Ingress = [], nps_Egress = []\<rparr>"

definition Run :: "round list \<Rightarrow> lock_os \<Rightarrow> Controller \<Rightarrow> (lock_os \<times> Controller \<times> unit outcome) option" where
  "Run rounds os c =
     (case acquire_loop rounds os (ct_leaderElector c) of
        None \<Rightarrow> None
      | Some ((os1, le), Panic e) \<Rightarrow> Some (os1, c\<lparr>ct_leaderElector := le\<rparr>, Panic e)
      | Some ((os1, le), Err e) \<Rightarrow> Some (os1, c\<lparr>ct_leaderElector := le\<rparr>, Err e)
      | Some ((os1, le), Ret _) \<Rightarrow>
          Some (os1, c\<lparr>ct_leaderElector := le,
                       ct_policies := fmupd ''default-deny'' dummy_spec (ct_policies c)\<rparr>, Ret ()))"

text \<open>The answers of the HTTP handlers, by the pattern they are registered for: only readiness reads the
  controller's state.\<close>

definition readyz :: "Controller \<Rightarrow> nat \<times> string" where
  "readyz c = (if IsLeader (ct_leaderElector c) then (200, ''READY'') else (503, ''NOT_READY''))"

definition controller_http :: "Controller \<Rightarrow> (string \<times> nat \<times> string) list" where
  "controller_http c = [(''/metrics'', 200, ''# Metrics stub''), (''/healthz'', 200, ''OK''), (''/readyz'', readyz c)]"

text \<open>The process: the context is cancelled only when \<^verbatim>\<open>main\<close> returns, so every round wakes by the
  ticker; a signal is read only after \<open>Run\<close> has returned.\<close>

datatype main_status = Fatal string | Crashed string | Waiting | Running lock_os Controller | Exited lock_os Controller

definition controller_main ::
  "round list \<Rightarrow> bool \<Rightarrow> lock_os \<Rightarrow> string \<Rightarrow> int \<Rightarrow> string \<Rightarrow> string \<Rightarrow> main_status" where
  "controller_main rounds signalled os clusterCIDR blockSize metricsAddr leaderElectionID =
     (case NewController clusterCIDR blockSize metricsAddr leaderElectionID of
        Panic e \<Rightarrow> Crashed e
      | Err e \<Rightarrow> Fatal (''Failed to initialize Controller: '' @ e)
      | Ret c \<Rightarrow>
          (case Run (map (\<lambda>r. r\<lparr>rd_wake := Tick\<rparr>) rounds) os c of
             None \<Rightarrow> Waiting
           | Some (os1, c1, Panic e) \<Rightarrow> Crashed e
           | Some (os1, c1, Err e) \<Rightarrow> Fatal (''Controller failed: '' @ e)
           | Some (os1, c1, Ret _) \<Rightarrow>
               if \<not> signalled then Running os1 c1
               else case elector_Release os1 (ct_leaderElector c1) of
                 (os2, le) \<Rightarrow> Exited os2 (c1\<lparr>ct_leaderElector := le\<rparr>)))"

subsection \<open>The loops\<close>

definition ReconcileIPPools :: "IPAMController \<Rightarrow> string" where
  "ReconcileIPPools ic = ''[Reconciler] Syncing IPPools: '' @ show_int (map_len (GetAllAssignments ic)) @
     '' nodes have assignments''"

fun ReconcileNodeConfigs :: "string list \<Rightarrow> IPAMController \<Rightarrow> string list" where
  "ReconcileNodeConfigs [] ic = []"
| "ReconcileNodeConfigs (node # ns) ic =
     (case fmlookup (GetAllAssignments ic) node of
        Some (b # bs) \<Rightarrow> (''[Reconciler] Updating NodeConfig for '' @ node @ '': CIDR '' @ IPNet_String (ba_CIDR b))
                         # ReconcileNodeConfigs ns ic
      | _ \<Rightarrow> ReconcileNodeConfigs ns ic)"

definition crdReconciliationLoop :: "string list \<Rightarrow> Controller \<Rightarrow> string list" where
  "crdReconciliationLoop order c = ReconcileIPPools (ct_ipamController c) # ReconcileNodeConfigs order (ct_ipamController c)"

definition nodeRegistrationLoop :: "gotime \<Rightarrow> Controller \<times> int \<Rightarrow> (Controller \<times> int) outcome" where
  "nodeRegistrationLoop now s = (case s of (c, nodeIdx) \<Rightarrow>
     (case AssignBlock now (ct_ipamController c) (''node-'' @ show_int nodeIdx) of
        (ic, Panic e) \<Rightarrow> Panic e
      | (ic, Err e) \<Rightarrow> Ret (c\<lparr>ct_ipamController := ic\<rparr>, nodeIdx)
      | (ic, Ret cidr) \<Rightarrow> Ret (c\<lparr>ct_ipamController := ic\<rparr>, wrap64 (nodeIdx + 1))))"

fun compile_policies ::
  "(byte list \<Rightarrow> byte list) \<Rightarrow> compile_env \<Rightarrow> (string, NetworkPolicySpec) fmap \<Rightarrow> PolicyCompiler \<Rightarrow> string list \<Rightarrow>
   PolicyCompiler outcome" where
  "compile_policies H env ps pc [] = Ret pc"
| "compile_policies H env ps pc (name # ks) =
     (case fmlookup ps name of
        None \<Rightarrow> compile_policies H env ps pc ks
      | Some spec \<Rightarrow>
          (case CompilePolicy H (ce_now env) (ce_nanos env) (ce_orders env (length ks)) pc name ''default'' spec of
             (pc1, Panic e) \<Rightarrow> Panic e
           | (pc1, _) \<Rightarrow> compile_policies H env ps pc1 ks))"

definition policyCompilationLoop :: "(byte list \<Rightarrow> byte list) \<Rightarrow> compile_env \<Rightarrow> Controller \<Rightarrow> Controller outcome" where
  "policyCompilationLoop H env c =
     (case compile_policies H env (ct_policies c) (ct_compiler c) (ce_order env) of
        Panic e \<Rightarrow> Panic e | Err e \<Rightarrow> Err e | Ret pc \<Rightarrow> Ret (c\<lparr>ct_compiler := pc\<rparr>))"

fun gc_identities :: "IdentityAllocator \<Rightarrow> Identity list \<Rightarrow> IdentityAllocator" where
  "gc_identities a [] = a"
| "gc_identities a (d # ds) =
     gc_identities (if id_RefCount d \<le> 0 then fst (ReleaseIdentity a (id_ID d)) else a) ds"

fun gc_nodes :: "(string \<Rightarrow> u32 list) \<Rightarrow> IdentityAllocator \<Rightarrow> string list \<Rightarrow> IdentityAllocator" where
  "gc_nodes ids a [] = a"
| "gc_nodes ids a (nodeName # ns) =
     gc_nodes ids (gc_identities a (GetIdentitiesForNode (ids nodeName) a nodeName)) ns"

definition identityGCLoop :: "string list \<Rightarrow> (string \<Rightarrow> u32 list) \<Rightarrow> Controller \<Rightarrow> Controller" where
  "identityGCLoop order ids c = set_identityAlloc (gc_nodes ids (ct_identityAlloc c) order) c"

definition wireguardRotationLoop :: "gotime \<Rightarrow> Controller \<Rightarrow> Controller" where
  "wireguardRotationLoop now c = c\<lparr>ct_wgManager := fst (RotateKeys now (ct_wgManager c))\<rparr>"

subsection \<open>Runs\<close>

datatype controller_tick =
    EvRegister gotime
  | EvCompile compile_env
  | EvCollect "string list" "string \<Rightarrow> u32 list"
  | EvRotate gotime
  | EvReconcile "string list"

fun loop_step :: "(byte list \<Rightarrow> byte list) \<Rightarrow> Controller \<times> int \<Rightarrow> controller_tick \<Rightarrow> (Controller \<times> int) outcome" where
  "loop_step H s (EvRegister now) = nodeRegistrationLoop now s"
| "loop_step H s (EvCompile env) = (case policyCompilationLoop H env (fst s) of
     Panic e \<Rightarrow> Panic e | Err e \<Rightarrow> Err e | Ret c \<Rightarrow> Ret (c, snd s))"
| "loop_step H s (EvCollect order ids) = Ret (identityGCLoop order ids (fst s), snd s)"
| "loop_step H s (EvRotate now) = Ret (wireguardRotationLoop now (fst s), snd s)"
| "loop_step H s (EvReconcile order) = Ret s"

fun loop_run :: "(byte list \<Rightarrow> byte list) \<Rightarrow> Controller \<times> int \<Rightarrow> controller_tick list \<Rightarrow> (Controller \<times> int) outcome" where
  "loop_run H s [] = Ret s"
| "loop_run H s (e # es) = (case loop_step H s e of Ret t \<Rightarrow> loop_run H t es | Err m \<Rightarrow> Err m | Panic m \<Rightarrow> Panic m)"

subsection \<open>Waiting: lemmas\<close>

lemma TryAcquire_keeps: "TryAcquire env s le = ((s', le'), False) \<Longrightarrow> le' = le"
  by (auto simp: TryAcquire_def split: if_splits prod.splits bool.splits)

lemma TryAcquire_leads: "TryAcquire env s le = ((s', le'), True) \<Longrightarrow> IsLeader le'"
  by (auto simp: TryAcquire_def IsLeader_def split: if_splits prod.splits bool.splits)

lemma TryAcquire_free:
  assumes "\<not> at_open_fails env" and "\<not> at_flock_fails env" and "fmlookup (lo_lock s) (lel_lockPath le) = None"
  shows "snd (TryAcquire env s le)"
  using assms by (simp add: TryAcquire_def open_file_def flock_exclusive_def)

lemma acquire_loop_wins:
  assumes "\<And>x. x \<in> set pre \<Longrightarrow> rd_wake x = Tick"
    and "\<not> at_open_fails (rd_attempt r)" and "\<not> at_flock_fails (rd_attempt r)"
    and "\<And>s. fmlookup (lo_lock (rd_others r s)) (lel_lockPath le) = None"
  shows "\<exists>s' le'. acquire_loop (pre @ r # post) os le = Some ((s', le'), Ret ()) \<and> IsLeader le'"
  using assms(1)
proof (induction pre arbitrary: os)
  case Nil
  obtain s' le' where "TryAcquire (rd_attempt r) (rd_others r os) le = ((s', le'), True)"
    using TryAcquire_free [OF assms(2,3) assms(4), of os] by (metis prod.collapse)
  then show ?case using TryAcquire_leads by fastforce
next
  case (Cons x pre)
  obtain s' le' b where t: "TryAcquire (rd_attempt x) (rd_others x os) le = ((s', le'), b)" by (metis prod.exhaust)
  show ?case
  proof (cases b)
    case True
    then show ?thesis using t TryAcquire_leads by fastforce
  next
    case False
    moreover from t False have "le' = le" by (simp add: TryAcquire_keeps)
    moreover have "rd_wake x = Tick" using Cons.prems by simp
    ultimately show ?thesis using t Cons by simp
  qed
qed

text \<open>While the lock stays with another process, the loop does not end.\<close>

lemma TryAcquire_held:
  assumes "\<not> IsLeader le" and "fmlookup (lo_lock s) (lel_lockPath le) = Some h" and "h \<noteq> lo_next s"
  shows "\<exists>s'. TryAcquire env s le = ((s', le), False)"
  using assms by (auto simp: TryAcquire_def IsLeader_def open_file_def flock_exclusive_def)

lemma acquire_loop_waits:
  assumes "\<not> IsLeader le" and "\<And>x. x \<in> set rounds \<Longrightarrow> rd_wake x = Tick"
    and "\<And>x s. x \<in> set rounds \<Longrightarrow>
      \<exists>h. fmlookup (lo_lock (rd_others x s)) (lel_lockPath le) = Some h \<and> h \<noteq> lo_next (rd_others x s)"
  shows "acquire_loop rounds os le = None"
  using assms(2,3)
proof (induction rounds arbitrary: os)
  case (Cons x rounds)
  obtain h where "fmlookup (lo_lock (rd_others x os)) (lel_lockPath le) = Some h" "h \<noteq> lo_next (rd_others x os)"
    using Cons.prems(2) [of x os] by auto
  from TryAcquire_held [OF assms(1) this] obtain s' where
    "TryAcquire (rd_attempt x) (rd_others x os) le = ((s', le), False)" by blast
  then show ?case using Cons by simp
qed simp

subsection \<open>Registration: lemmas\<close>

definition node_name :: "int \<Rightarrow> string" where
  "node_name i = ''node-'' @ show_int i"

lemma node_name_inj: "0 \<le> i \<Longrightarrow> 0 \<le> j \<Longrightarrow> node_name i = node_name j \<longleftrightarrow> i = j"
  by (auto simp: node_name_def show_int_def)

text \<open>The nodes registered so far are those below the index, each with the block of its number.\<close>

definition registered :: "nat \<Rightarrow> IPAMController \<Rightarrow> int \<Rightarrow> bool" where
  "registered p ic idx \<longleftrightarrow> ctl_shape p ic \<and> ic_nextBlockIndex ic = idx \<and>
     (\<forall>i. 0 \<le> i \<longrightarrow> map ba_CIDR (blocks_of ic (node_name i)) = (if i < idx then [nth_block ic i] else []))"

lemma AssignBlock_new: "blocks_of ic n = [] \<Longrightarrow> AssignBlock now ic n = assignNextBlock now ic n"
  by (auto simp: AssignBlock_def blocks_of_def split: option.split)

lemma registered_add:
  assumes "registered p ic idx" and "idx < 2 ^ nat (ic_BlockSize ic - int p)"
  shows "registered p (add_block now ic (node_name idx)) (idx + 1)"
proof -
  from assms have sh: "ctl_shape p ic" and idx: "ic_nextBlockIndex ic = idx" "0 \<le> idx"
    and b: "\<And>i. 0 \<le> i \<Longrightarrow> map ba_CIDR (blocks_of ic (node_name i)) = (if i < idx then [nth_block ic i] else [])"
    by (auto simp: registered_def ctl_shape_def)
  have "ctl_shape p (add_block now ic (node_name idx))" using sh assms(2) idx by (simp add: ctl_shape_def)
  moreover have "map ba_CIDR (blocks_of (add_block now ic (node_name idx)) (node_name i)) =
      (if i < idx + 1 then [nth_block ic i] else [])" if "0 \<le> i" for i
    using b [OF that] idx node_name_inj [OF that idx(2)] by (auto simp: blocks_of_add)
  ultimately show ?thesis by (simp add: registered_def idx)
qed

lemma nodeRegistrationLoop_eq:
  "nodeRegistrationLoop now (c, idx) =
     (case AssignBlock now (ct_ipamController c) (node_name idx) of
        (ic, Panic e) \<Rightarrow> Panic e
      | (ic, Err e) \<Rightarrow> Ret (c\<lparr>ct_ipamController := ic\<rparr>, idx)
      | (ic, Ret cidr) \<Rightarrow> Ret (c\<lparr>ct_ipamController := ic\<rparr>, wrap64 (idx + 1)))"
  by (simp add: nodeRegistrationLoop_def node_name_def)

lemma nodeRegistrationLoop_step:
  assumes "registered p (ct_ipamController c) idx"
  shows "\<exists>ic. nodeRegistrationLoop now (c, idx) =
      Ret (c\<lparr>ct_ipamController := ic\<rparr>, min (idx + 1) (2 ^ nat (ic_BlockSize ic - int p))) \<and>
    registered p ic (min (idx + 1) (2 ^ nat (ic_BlockSize ic - int p))) \<and>
    ic_ClusterCIDR ic = ic_ClusterCIDR (ct_ipamController c) \<and> ic_BlockSize ic = ic_BlockSize (ct_ipamController c)"
proof -
  let ?ic = "ct_ipamController c"
  from assms have sh: "ctl_shape p ?ic" and idx: "ic_nextBlockIndex ?ic = idx" "0 \<le> idx"
    and "map ba_CIDR (blocks_of ?ic (node_name idx)) = []"
    by (auto simp: registered_def ctl_shape_def)
  then have new: "AssignBlock now ?ic (node_name idx) = assignNextBlock now ?ic (node_name idx)"
    by (intro AssignBlock_new) simp
  from sh show ?thesis
  proof (cases rule: assignNextBlock_cases [of p ?ic now "node_name idx"])
    case full
    then show ?thesis
      using assms idx new by (intro exI [of _ ?ic]) (simp add: nodeRegistrationLoop_eq)
  next
    case fresh
    let ?d = "add_block now ?ic (node_name idx)"
    have lt: "idx < 2 ^ nat (ic_BlockSize ?ic - int p)" using fresh idx by simp
    then have "wrap64 (idx + 1) = idx + 1" using blocks_le [OF sh] idx(2) by (intro wrap64_id) auto
    then show ?thesis
      using lt registered_add [OF assms lt, of now] new fresh
      by (intro exI [of _ ?d]) (simp add: nodeRegistrationLoop_eq min_def)
  qed
qed

subsection \<open>Compilation and collection: lemmas\<close>

definition prod_labels :: labels where
  "prod_labels = fmap_of_list [(''env'', ''prod'')]"

lemma dummy_spec_sel [simp]:
  "nps_PodSelector dummy_spec = prod_labels" "nps_Ingress dummy_spec = []" "nps_Egress dummy_spec = []"
  by (simp_all add: dummy_spec_def prod_labels_def)

text \<open>No pod is known to the controller's compiler, so each compilation of the dummy policy takes one
  more reference to the identity of its selector, and yields no rule.\<close>

lemma resolve_no_pods:
  assumes ok: "compiler_ok H X n c" and "sel \<in> X" and "valid_ord ord" and n: "n + 2 < 2 ^ 32"
    and none: "sc_podLabels (cmp_selectorCache c) = fmempty"
  shows "\<exists>d i. resolveSelectorToIdentities H ord c sel = (d, Ret [i]) \<and> compiler_ok H X (n + 1) d \<and>
    sc_podLabels (cmp_selectorCache d) = fmempty \<and>
    refs H (cmp_identityAllocator d) sel = refs H (cmp_identityAllocator c) sel + 1"
proof -
  from ok have cf: "collision_free H X" and sc: "sc_inv H X (cmp_selectorCache c)"
    and ia: "identity_ok H X n (cmp_identityAllocator c)" by (auto simp: compiler_ok_def)
  obtain sc' keys where e: "EvaluateSelector H (cmp_selectorCache c) sel = (sc', keys)" by fastforce
  from EvaluateSelector_exact [OF cf sc assms(2) e] none
  have inv: "sc_inv H X sc'" "sc_podLabels sc' = fmempty" and "fset keys = {}" by (auto simp: matching_def)
  then have "ord keys = []" using assms(3) by (metis set_empty valid_ord_def)
  then have ids: "collect_ids H (cmp_identityAllocator c) (sc_podLabels sc') (ord keys) [] = Ret []" by simp
  obtain a d where a: "AllocateIdentity H (cmp_identityAllocator c) sel = (a, Ret d)"
    by (rule AllocateIdentity_Ret [OF ia n])
  moreover have "identity_ok H X (n + 1) a" using AllocateIdentity_ok [OF ia n assms(2)] a by simp
  moreover have "refs H a sel = refs H (cmp_identityAllocator c) sel + 1"
    using refs_Allocate [OF cf ia n assms(2,2)] a by simp
  ultimately show ?thesis
    using e ids inv cf by (simp add: resolveSelectorToIdentities_def Let_def compiler_ok_def)
qed

lemma CompilePolicy_dummy:
  assumes "compiler_ok H {prod_labels} n c" and "valid_orders ords" and "n + 2 < 2 ^ 32"
    and "sc_podLabels (cmp_selectorCache c) = fmempty"
  shows "\<exists>d p. CompilePolicy H now nanos ords c nm ns dummy_spec = (d, Ret p) \<and> cpol_Rules p = [] \<and>
    compiler_ok H {prod_labels} (n + 1) d \<and> sc_podLabels (cmp_selectorCache d) = fmempty \<and>
    refs H (cmp_identityAllocator d) prod_labels = refs H (cmp_identityAllocator c) prod_labels + 1"
proof -
  have "valid_ord (ord_target ords)" using assms(2) by (simp add: valid_orders_def)
  from resolve_no_pods [OF assms(1) _ this assms(3,4), of prod_labels]
  obtain d i where "resolveSelectorToIdentities H (ord_target ords) c prod_labels = (d, Ret [i])" "compiler_ok H {prod_labels} (n + 1) d"
    "sc_podLabels (cmp_selectorCache d) = fmempty"
    "refs H (cmp_identityAllocator d) prod_labels = refs H (cmp_identityAllocator c) prod_labels + 1" by auto
  then show ?thesis by (simp add: CompilePolicy_def)
qed

lemma gc_nodes_nothing:
  assumes "identity_ok H X n a"
  shows "gc_nodes ids a ns = a"
proof -
  have "gc_identities a ds = a" if "\<And>d. d \<in> set ds \<Longrightarrow> 1 \<le> id_RefCount d" for ds
    using that by (induction ds) force+
  moreover have "1 \<le> id_RefCount d" if "d \<in> set (GetIdentitiesForNode order a nm)" for d order nm
    using that identity_okD(5) [OF assms]
    by (auto simp: GetIdentitiesForNode_def List.map_filter_def)
  ultimately have "gc_identities a (GetIdentitiesForNode order a nm) = a" for order nm by blast
  then show ?thesis by (induction ns) auto
qed

subsection \<open>Runs: lemmas\<close>

definition dummy_policies :: "(string, NetworkPolicySpec) fmap" where
  "dummy_policies = fmupd ''default-deny'' dummy_spec fmempty"

fun valid_event :: "controller_tick \<Rightarrow> bool" where
  "valid_event (EvCompile env) \<longleftrightarrow>
     range_order dummy_policies (ce_order env) \<and> (\<forall>i. valid_orders (ce_orders env i))"
| "valid_event _ \<longleftrightarrow> True"

fun registrations :: "controller_tick list \<Rightarrow> nat" where
  "registrations [] = 0"
| "registrations (EvRegister _ # es) = Suc (registrations es)"
| "registrations (_ # es) = registrations es"

fun compilations :: "controller_tick list \<Rightarrow> nat" where
  "compilations [] = 0"
| "compilations (EvCompile _ # es) = Suc (compilations es)"
| "compilations (_ # es) = compilations es"

definition leading :: "(byte list \<Rightarrow> byte list) \<Rightarrow> nat \<Rightarrow> nat \<Rightarrow> Controller \<times> int \<Rightarrow> bool" where
  "leading H p n s \<longleftrightarrow> registered p (ct_ipamController (fst s)) (snd s) \<and>
     compiler_ok H {prod_labels} n (ct_compiler (fst s)) \<and>
     sc_podLabels (cmp_selectorCache (ct_compiler (fst s))) = fmempty \<and> ct_policies (fst s) = dummy_policies"

text \<open>What no loop changes.\<close>

definition same_setup :: "Controller \<Rightarrow> Controller \<Rightarrow> bool" where
  "same_setup c d \<longleftrightarrow> ic_ClusterCIDR (ct_ipamController d) = ic_ClusterCIDR (ct_ipamController c) \<and>
     ic_BlockSize (ct_ipamController d) = ic_BlockSize (ct_ipamController c) \<and>
     ct_wgManager d = ct_wgManager c \<and> ct_leaderElector d = ct_leaderElector c"

definition held_refs :: "(byte list \<Rightarrow> byte list) \<Rightarrow> Controller \<Rightarrow> nat" where
  "held_refs H c = refs H (ct_identityAlloc c) prod_labels"

lemma same_setup_trans: "same_setup c d \<Longrightarrow> same_setup d e \<Longrightarrow> same_setup c e"
  by (simp add: same_setup_def)

lemma distinct_singleton: "distinct xs \<Longrightarrow> set xs = {x} \<Longrightarrow> xs = [x]"
  by (cases xs) (auto simp: insert_eq_iff dest: subset_singletonD)

lemma policyCompilationLoop_step:
  assumes l: "leading H p n (c, idx)" and v: "valid_event (EvCompile env)" and n: "n + 2 < 2 ^ 32"
  shows "\<exists>d. policyCompilationLoop H env c = Ret d \<and> leading H p (n + 1) (d, idx) \<and> same_setup c d \<and>
    held_refs H d = held_refs H c + 1"
proof -
  from v have "distinct (ce_order env)" "set (ce_order env) = {''default-deny''}" and vo: "\<And>i. valid_orders (ce_orders env i)"
    using range_orderD [of dummy_policies "ce_order env"] by (auto simp: dummy_policies_def split: if_splits)
  then have order: "ce_order env = [''default-deny'']"
    by (simp add: distinct_singleton)
  from l have ok: "compiler_ok H {prod_labels} n (ct_compiler c)"
    "sc_podLabels (cmp_selectorCache (ct_compiler c)) = fmempty" "ct_policies c = dummy_policies"
    by (simp_all add: leading_def)
  from CompilePolicy_dummy [OF ok(1) vo n ok(2), of "ce_now env" "ce_nanos env" 0 "''default-deny''" "''default''"]
  obtain pc q where pc: "CompilePolicy H (ce_now env) (ce_nanos env) (ce_orders env 0) (ct_compiler c)
      ''default-deny'' ''default'' dummy_spec = (pc, Ret q)" "compiler_ok H {prod_labels} (n + 1) pc"
    "sc_podLabels (cmp_selectorCache pc) = fmempty"
    "refs H (cmp_identityAllocator pc) prod_labels = refs H (cmp_identityAllocator (ct_compiler c)) prod_labels + 1"
    by blast
  then have "policyCompilationLoop H env c = Ret (c\<lparr>ct_compiler := pc\<rparr>)"
    using ok(3) by (simp add: policyCompilationLoop_def order dummy_policies_def)
  then show ?thesis
    using l pc by (simp add: leading_def same_setup_def held_refs_def ct_identityAlloc_def)
qed

lemma identityGCLoop_nothing: "leading H p n s \<Longrightarrow> identityGCLoop order ids (fst s) = fst s"
  using gc_nodes_nothing [of H "{prod_labels}" n "ct_identityAlloc (fst s)"]
  by (simp add: identityGCLoop_def set_identityAlloc_def leading_def compiler_ok_def ct_identityAlloc_def)

lemma wireguardRotationLoop_nothing: "wireguardRotationLoop now c = c"
  by (simp add: wireguardRotationLoop_def RotateKeys_def GenerateKeyPair_def)

lemma leading_mono: "leading H p n s \<Longrightarrow> n \<le> m \<Longrightarrow> leading H p m s"
  by (auto simp: leading_def intro: compiler_ok_mono)

lemma loop_step_leading:
  assumes l: "leading H p n s" and v: "valid_event e" and n: "n + 2 < 2 ^ 32"
  shows "\<exists>t. loop_step H s e = Ret t \<and> leading H p (n + compilations [e]) t \<and> same_setup (fst s) (fst t) \<and>
    held_refs H (fst t) = held_refs H (fst s) + compilations [e] \<and>
    snd t = min (snd s + int (registrations [e])) (2 ^ nat (ic_BlockSize (ct_ipamController (fst s)) - int p))"
proof -
  obtain c idx where s: "s = (c, idx)" by fastforce
  have reg: "registered p (ct_ipamController c) idx" using l by (simp add: leading_def s)
  then have idx: "idx = min idx (2 ^ nat (ic_BlockSize (ct_ipamController c) - int p))"
    by (auto simp: registered_def ctl_shape_def)
  show ?thesis
  proof (cases e)
    case (EvRegister now)
    from nodeRegistrationLoop_step [OF reg, of now] obtain ic where ic:
      "nodeRegistrationLoop now (c, idx) = Ret (c\<lparr>ct_ipamController := ic\<rparr>, min (idx + 1) (2 ^ nat (ic_BlockSize ic - int p)))"
      "registered p ic (min (idx + 1) (2 ^ nat (ic_BlockSize ic - int p)))"
      "ic_ClusterCIDR ic = ic_ClusterCIDR (ct_ipamController c)" "ic_BlockSize ic = ic_BlockSize (ct_ipamController c)"
      by blast
    then show ?thesis using l by (simp add: EvRegister s leading_def same_setup_def held_refs_def ct_identityAlloc_def)
  next
    case (EvCompile env)
    from policyCompilationLoop_step [OF l [unfolded s] v [unfolded EvCompile] n] obtain d where
      "policyCompilationLoop H env c = Ret d" "leading H p (n + 1) (d, idx)" "same_setup c d"
      "held_refs H d = held_refs H c + 1" by blast
    then show ?thesis using idx by (simp add: EvCompile s)
  next
    case (EvCollect order ids)
    then show ?thesis using l idx identityGCLoop_nothing [OF l, of order ids] by (simp add: s same_setup_def)
  next
    case (EvRotate now)
    then show ?thesis using l idx by (simp add: s same_setup_def wireguardRotationLoop_nothing)
  next
    case (EvReconcile order)
    then show ?thesis using l idx by (simp add: s same_setup_def)
  qed
qed

lemma counts_Cons:
  "registrations (e # es) = registrations [e] + registrations es"
  "compilations (e # es) = compilations [e] + compilations es"
  by (cases e; simp)+

lemma loop_run_leading:
  assumes "leading H p n s" and "list_all valid_event es" and "n + compilations es + 2 < 2 ^ 32"
  shows "\<exists>t. loop_run H s es = Ret t \<and> leading H p (n + compilations es) t \<and> same_setup (fst s) (fst t) \<and>
    held_refs H (fst t) = held_refs H (fst s) + compilations es \<and>
    snd t = min (snd s + int (registrations es)) (2 ^ nat (ic_BlockSize (ct_ipamController (fst s)) - int p))"
  using assms
proof (induction es arbitrary: s n)
  case Nil
  then have "snd s \<le> 2 ^ nat (ic_BlockSize (ct_ipamController (fst s)) - int p)"
    by (auto simp: leading_def registered_def ctl_shape_def)
  with Nil show ?case by (simp add: same_setup_def)
next
  case (Cons e es)
  have ne: "n + 2 < 2 ^ 32" and nes: "n + compilations [e] + compilations es + 2 < 2 ^ 32"
    using Cons.prems(3) counts_Cons(2) [of e es] by linarith+
  from loop_step_leading [OF Cons.prems(1) _ ne, of e] Cons.prems(2) obtain t where t:
    "loop_step H s e = Ret t" "leading H p (n + compilations [e]) t" "same_setup (fst s) (fst t)"
    "held_refs H (fst t) = held_refs H (fst s) + compilations [e]"
    "snd t = min (snd s + int (registrations [e])) (2 ^ nat (ic_BlockSize (ct_ipamController (fst s)) - int p))"
    by auto
  from Cons.IH [OF t(2) _ nes] Cons.prems(2) obtain u where u:
    "loop_run H t es = Ret u" "leading H p (n + compilations [e] + compilations es) u" "same_setup (fst t) (fst u)"
    "held_refs H (fst u) = held_refs H (fst t) + compilations es"
    "snd u = min (snd t + int (registrations es)) (2 ^ nat (ic_BlockSize (ct_ipamController (fst t)) - int p))" by auto
  have "ic_BlockSize (ct_ipamController (fst t)) = ic_BlockSize (ct_ipamController (fst s))"
    using t(3) by (simp add: same_setup_def)
  then have "snd u = min (snd s + int (registrations (e # es))) (2 ^ nat (ic_BlockSize (ct_ipamController (fst s)) - int p))"
    using t(5) u(5) counts_Cons(1) [of e es] by (simp add: min_def)
  then show ?case using t u same_setup_trans [OF t(3) u(3)] counts_Cons(2) [of e es] by (auto simp: add.assoc)
qed

subsection \<open>Properties\<close>


definition ex_ctl :: Controller where
  "ex_ctl = \<lparr>ct_clusterCIDR = ''10.0.0.0/23'', ct_blockSize = 24, ct_metricsAddr = '':9091'',
     ct_leaderElectionID = ''coordino-controller'', ct_ipamController = ex_controller,
     ct_compiler = NewCompiler NewIdentityAllocator,
     ct_wgManager = NewManager \<lparr>wc_InterfaceName = [], wc_ListenPort = 0, wc_PrivateKeyPath = [], wc_MTU = 0\<rparr>,
     ct_metrics = NewCNIMetrics NewNoopRegistry, ct_leaderElector = ex_standby, ct_policies = fmempty\<rparr>"

text \<open>The other process keeps its lock in the first round and has died before the second one.\<close>

definition ex_rounds :: "round list" where
  "ex_rounds = [\<lparr>rd_others = (\<lambda>s. s), rd_attempt = no_fault, rd_wake = Tick\<rparr>,
     \<lparr>rd_others = (\<lambda>s. kill_process s (ex_standby\<lparr>lel_lockFile := Some 0\<rparr>)\<lparr>lo_lock := fmempty\<rparr>),
      rd_attempt = no_fault, rd_wake = Tick\<rparr>]"

lemma ex_ctl_new: "NewController ''10.0.0.0/23'' 24 '':9091'' ''coordino-controller'' = Ret ex_ctl"
  by (simp add: NewController_def ex_controller_new ex_ctl_def ex_standby_def)



definition ex_compile :: controller_tick where
  "ex_compile = EvCompile \<lparr>ce_now = 1, ce_nanos = 1, ce_order = [''default-deny''], ce_orders = (\<lambda>_. ex_orders)\<rparr>"

definition ex_ticks :: "controller_tick list" where
  "ex_ticks = [ex_compile, EvRegister 1, EvCollect [''node-0''] (\<lambda>_. [1]), EvRegister 2, ex_compile, EvRegister 3,
     EvRotate 4, EvReconcile [''node-0'']]"

lemma ex_prod_collision_free: "collision_free ex_H {prod_labels}"
  unfolding collision_free_def prod_labels_def by code_simp


text \<open>A standby controller does not react to a signal: as long as another process keeps the lock,
  the process is still waiting after any number of rounds, whether it has been sent SIGTERM or
  not.\<close>

lemma standby_ignores_signals:
  assumes "NewController cidr bs addr ident = Ret c"
    and "\<And>x s. x \<in> set rounds \<Longrightarrow> \<exists>h. fmlookup (lo_lock (rd_others x s)) (''/tmp/'' @ ident @ ''.lock'') = Some h \<and>
           h < lo_next (rd_others x s)"
  shows "controller_main rounds signalled os cidr bs addr ident = Waiting"
proof -
  have le: "ct_leaderElector c = NewLeaderElector ident"
    using assms(1) by (auto simp: NewController_def split: outcome.splits)
  have "acquire_loop (map (\<lambda>r. r\<lparr>rd_wake := Tick\<rparr>) rounds) os (NewLeaderElector ident) = None"
  proof (rule acquire_loop_waits)
    fix x s assume "x \<in> set (map (\<lambda>r. r\<lparr>rd_wake := Tick\<rparr>) rounds)"
    then obtain y where "y \<in> set rounds" "rd_others x = rd_others y" by auto
    with assms(2) [of y s] show "\<exists>h. fmlookup (lo_lock (rd_others x s)) (lel_lockPath (NewLeaderElector ident)) = Some h \<and>
        h \<noteq> lo_next (rd_others x s)" by (auto simp: NewLeaderElector_def)
  qed (auto simp: IsLeader_def NewLeaderElector_def)
  then show ?thesis by (simp add: controller_main_def assms(1) Run_def le)
qed

lemma standby_ignores_signals_witness:
  "controller_main (replicate 3 \<lparr>rd_others = (\<lambda>_. el_os ex_election), rd_attempt = no_fault, rd_wake = Tick\<rparr>) True
     (el_os ex_election) ''10.0.0.0/23'' 24 '':9091'' ''coordino-controller'' = Waiting"
  by (rule standby_ignores_signals [OF ex_ctl_new])
     (auto simp: ex_election_def ex_standby_def NewLeaderElector_def)

end
