(* ===== verification/Spec2Isabelle.thy ===== *)
theory Spec2Isabelle
  imports CniPlugin Controller
begin

text \<open>
  \<^bold>\<open>Coordino\<close>, a Kubernetes network plugin written in Go. Three programs make it up:

  \<^item> the CNI plugin (\<^verbatim>\<open>src/cmd/cni-plugin\<close>), a short-lived process the container runtime starts for
    each ADD, DEL and CHECK of a pod; it forwards the request over a unix socket
    (\<^verbatim>\<open>src/internal/grpc\<close>) and prints the answer;
  \<^item> the node agent (\<^verbatim>\<open>src/cmd/node-agent\<close>), one per node, which serves the socket: it allocates a
    security identity and an address for the pod, builds the pod's network, programs the data
    plane, undoes the steps done when a later one fails, and periodically reconciles and
    checkpoints its allocations;
  \<^item> the controller (\<^verbatim>\<open>src/cmd/controller\<close>), one leader per cluster, which gives blocks of
    addresses to nodes and compiles network policies.

  \<^bold>\<open>Theories and sources.\<close> Each operation of the source is one definition with the source's name
  (suffixed or prefixed where HOL or another component has the name), on a record with the
  fields of the source's struct.

  \<^item> \<open>Prelude\<close>: the Go values all components use, an outcome of a call (value, error, panic), the
    64-bit wrap-around, maps with their iteration orders, printing and splitting of strings, and
    the locale \<open>machine\<close> of operations that keep an invariant. \<open>GoNet\<close>: the parts of Go's package
    \<^verbatim>\<open>net\<close> that are used (addresses, masks, networks, parsing and printing), and \<open>nextIP\<close>.
  \<^item> \<open>Ipam\<close>: \<^verbatim>\<open>pkg/ipam/ipam.go\<close>, the node's bitmap allocator. \<open>CheckpointFile\<close>:
    \<^verbatim>\<open>pkg/ipam/checkpoint.go\<close>, the file it is saved in. \<open>IpamController\<close>: \<^verbatim>\<open>pkg/ipam/controller.go\<close>,
    the blocks of the nodes.
  \<^item> \<open>Sha256\<close>: the text of a label set and what is assumed of the digest. \<open>Identity\<close>, \<open>SelectorCache\<close>,
    \<open>Compiler\<close>, \<open>PolicyStore\<close>, \<open>EbpfWriter\<close>: the files of \<^verbatim>\<open>pkg/policy\<close>; the platform rules are in
    \<open>Compiler\<close>.
  \<^item> \<open>DataplaneMaps\<close>, \<open>Dataplane\<close>: \<^verbatim>\<open>pkg/dataplane/maps.go\<close> and \<^verbatim>\<open>loader.go\<close>, the eBPF and the iptables
    data plane. \<open>Netns\<close>: \<^verbatim>\<open>pkg/netns\<close>, the pod's links, on the simulated and the real operator.
    \<open>Routing\<close>: \<^verbatim>\<open>pkg/routing\<close>, the BGP, VXLAN and cloud back ends behind one interface.
  \<^item> \<open>Encryption\<close>: \<^verbatim>\<open>pkg/encryption\<close>. \<open>HostPolicy\<close>: \<^verbatim>\<open>pkg/nodeisolation\<close>. \<open>Observability\<close>:
    \<^verbatim>\<open>pkg/observability\<close> (metrics, flow log exporters, tracing).
  \<^item> \<open>Grpc\<close>: \<^verbatim>\<open>internal/grpc/protocol.go\<close>, client and server. \<open>NodeAgent\<close>: the definitions of
    \<^verbatim>\<open>cmd/node-agent/main.go\<close>; \<open>AgentSafety\<close> its invariant over all sequences of requests;
    \<open>AgentLifecycle\<close> rollback, round trip, reconciliation and restart. \<open>CniPlugin\<close>:
    \<^verbatim>\<open>cmd/cni-plugin/main.go\<close> and the request from end to end.
  \<^item> \<open>LeaderElection\<close>, \<open>Controller\<close>: \<^verbatim>\<open>cmd/controller/main.go\<close>.

  \<^bold>\<open>Modelling.\<close> A method that holds its object's mutex for its whole run is one atomic step of
  type \<open>state \<Rightarrow> state \<times> result outcome\<close>. Where a lock is given up in between
  (\<open>EvaluateSelector\<close>) the parts are separate steps of an inductive relation; the draining
  goroutines of the flow exporter and the processes of an election are steps of such relations
  too. Objects shared through pointers are stored once (the identity allocator inside the
  compiler inside the policy store). What the runtime or the outside world chooses is an
  argument: the clock, the order in which a map is visited, the failures of system calls, the
  JSON codec, the digest. Theorems hold for all of them, or for the orders the language allows
  (\<open>range_order\<close>), codecs that carry the messages, and digests that do not collide on the
  label sets in use (\<open>collision_free\<close>). Integers keep their widths: 32-bit addresses and
  identities, 64-bit indices and counts. Float quotients are exact rationals.

  \<^bold>\<open>What is shown.\<close>

  \<^item> Addresses: the allocator keeps every pod's address in its block, distinct from all others,
    its bitmap exact, implements the least-free-offset specification, and refuses exactly when
    it is full; a save is atomic whatever fails; the blocks of nodes are disjoint parts of the
    cluster network and are never given out twice.
  \<^item> Policy: identities separate label sets until the counter wraps, and refine a multiset of
    label sets; the selector cache is coherent under every interleaving; compilation yields
    exactly the rules of the selected identities, merging keeps the best rule of each flow,
    filtering for a node keeps every decision about it, and adding a policy always succeeds.
  \<^item> Node: setting up a pod's links is all or nothing; the kernel maps hold the last update;
    reconciling routes is exact; host rules are typed.
  \<^item> Agent: over all request sequences tracked pods keep distinct addresses, programmed endpoints
    and live identities; a failed ADD leaves nothing behind, DEL undoes ADD, a reconciliation is
    exact, and the plugin prints the address the agent holds.
  \<^item> Controller: at most one leader, the wait for leadership ends once the lock is free, and the
    loops run without panic in any interleaving, with the exact blocks they give to nodes.
  \<^item> Where the code does not do what it means to, a lemma says what it does: a restart gives the
    addresses of running pods away, released blocks are lost, the identity counter wraps onto
    live identities, upper-case protocols collapse in the policy map, the check of a pod fails
    on the real operator, namespace selectors are ignored, keys are rotated without being
    installed, collection collects nothing.

  \<^bold>\<open>Bounds.\<close> All loops are structural recursions over lists (address search: over the offsets of
  the block; iterations: over the order given), so no fuel is needed. The wait for leadership may
  be endless and is a function of the list of its rounds, with no value while it still waits.
  Theorems about identities bound the number of operations by \<open>2\<^sup>3\<^sup>2\<close>, where the identity counter
  wraps; one theorem shows what happens then.

  \<^bold>\<open>Not modelled.\<close> The custom resource types of \<^verbatim>\<open>pkg/apis/v1alpha1\<close> (declarations no package
  reads) and the table of program names of \<^verbatim>\<open>pkg/dataplane/ebpf\<close>; the library behind the HTTP
  servers (the answers of their handlers are modelled, listening and routing are not); log lines,
  but for the reconciler whose only effect they are; SHA-256 and JSON, which are arguments.
\<close>

end
